(* ===== verification/Prelude.thy ===== *)
theory Prelude
  imports Main "HOL-Library.Word"
begin

text \<open>
  Shared vocabulary of the development: the machine types of the Go code, Go's
  signed 64-bit arithmetic, error results, little-endian access to byte arrays
  (encoding/binary), and the generic lemmas on lists and words the components use.

  A Go byte array or slice is a list of bytes; a fixed-size array is a list whose length
  the component's invariant fixes. A fallible function returns a sum whose left side
  is the error.
\<close>

unbundle bit_operations_syntax

section \<open>Machine types\<close>

type_synonym u8 = "8 word"
type_synonym u32 = "32 word"
type_synonym u64 = "64 word"
type_synonym bytes = "8 word list"

named_theorems go_eval \<open>definitions to unfold when a closed term of the model is evaluated\<close>
named_theorems go_len \<open>lengths of byte arrays and word arrays\<close>
named_theorems go_split \<open>case analysis on results\<close>

section \<open>Signed 64-bit integers\<close>

text \<open>
  Go's \<open>int\<close>, \<open>int64\<close> and \<open>time.Duration\<close> are 64-bit two's complement on the platforms the
  releases are built for. They are modelled as \<open>int\<close> with the wrap-around written out.
\<close>

definition wrap64 :: "int \<Rightarrow> int" where
  [go_eval]: "wrap64 x = signed_take_bit 63 x"

definition in64 :: "int \<Rightarrow> bool" where
  [go_eval]: "in64 x \<longleftrightarrow> - (2 ^ 63) \<le> x \<and> x < 2 ^ 63"

text \<open>Integer division truncates towards zero.\<close>

definition go_div :: "int \<Rightarrow> int \<Rightarrow> int" where
  [go_eval]: "go_div a b = sgn a * sgn b * (\<bar>a\<bar> div \<bar>b\<bar>)"

lemma wrap64_id: "in64 x \<Longrightarrow> wrap64 x = x"
  by (simp add: in64_def wrap64_def signed_take_bit_int_eq_self)

lemma wrap64_in64: "in64 (wrap64 x)"
  using signed_take_bit_int_greater_eq_minus_exp [of 63 x] signed_take_bit_int_less_exp [of 63 x]
  by (simp add: in64_def wrap64_def)

lemma go_div_nonneg: "0 \<le> a \<Longrightarrow> 0 < b \<Longrightarrow> go_div a b = a div b"
  by (cases "a = 0") (simp_all add: go_div_def)

section \<open>Error results\<close>

fun bindr :: "'e + 'a \<Rightarrow> ('a \<Rightarrow> 'e + 'b) \<Rightarrow> 'e + 'b" where
  "bindr (Inl e) f = Inl e"
| "bindr (Inr a) f = f a"

lemma bindr_Inr_iff [go_split]: "bindr r f = Inr b \<longleftrightarrow> (\<exists>a. r = Inr a \<and> f a = Inr b)"
  by (cases r) auto

lemma bindr_Inl_iff [go_split]:
  "bindr r f = Inl e \<longleftrightarrow> r = Inl e \<or> (\<exists>a. r = Inr a \<and> f a = Inl e)"
  by (cases r) auto

lemma if_Inl_Inr_iff: "(if c then Inl e else r) = Inr b \<longleftrightarrow> \<not> c \<and> r = Inr b"
  by simp

section \<open>Arithmetic\<close>

lemma mod_add_cancel_nat: "(a + c) mod n = (b + c) mod n \<Longrightarrow> a mod n = b mod n" for n :: nat
proof (cases "n = 0")
  case False
  assume "(a + c) mod n = (b + c) mod n"
  then have "(a + c + (n * c - c)) mod n = (b + c + (n * c - c)) mod n" by (metis mod_add_left_eq)
  moreover have "c \<le> n * c" using False by simp
  ultimately show ?thesis by (simp add: add.assoc)
qed simp

end
