(* ===== verification/Util.thy ===== *)
theory Util
  imports Prelude
begin

text \<open>
  Package util (src/util/util.go): reversal of a byte slice and the rollover of the extra
  nonce, with the locale \<open>nonce_space\<close>, the contract of a counter that is confined to
  the class of its owner.
\<close>

section \<open>Reverse\<close>

text \<open>The loop counts \<open>i\<close> down from \<open>len(src)\<close> and writes \<open>dst[len(src)-i] = src[i-1]\<close>.\<close>

primrec reverse_loop :: "bytes \<Rightarrow> nat \<Rightarrow> bytes \<Rightarrow> bytes" where
  "reverse_loop src 0 dst = dst"
| "reverse_loop src (Suc i) dst = reverse_loop src i (dst[length src - Suc i := src ! i])"

definition Reverse :: "bytes \<Rightarrow> bytes" where
  "Reverse src = reverse_loop src (length src) (replicate (length src) 0)"

section \<open>RolloverExtraNonce\<close>

definition RolloverExtraNonce :: "u32 \<Rightarrow> u32" where
  "RolloverExtraNonce v =
     (if v AND 0x00FFFFFF = 0x00FFFFFF then v AND 0xFF000000 else v + 1)"

section \<open>Reverse is list reversal\<close>

lemma length_reverse_loop [go_len, simp]: "length (reverse_loop src i dst) = length dst"
  by (induction i arbitrary: dst) auto

lemma nth_reverse_loop:
  assumes "i \<le> length src" and "length dst = length src" and "k < length src"
  shows "reverse_loop src i dst ! k =
    (if length src - i \<le> k then src ! (length src - Suc k) else dst ! k)"
  using assms
proof (induction i arbitrary: dst)
  case 0
  then show ?case by simp
next
  case (Suc i)
  then show ?case by (auto simp: nth_list_update Suc_diff_Suc)
qed

lemma Reverse_rev: "Reverse src = rev src"
  by (rule nth_equalityI) (simp_all add: Reverse_def nth_reverse_loop rev_nth)


section \<open>The nonce space of a device\<close>

text \<open>
  The contract of a rolling counter: stepping stays in the owner's class and moves the
  position one place round a cycle of \<open>period\<close> places; class and position determine the
  value.
\<close>

locale nonce_space =
  fixes nxt :: "'v \<Rightarrow> 'v"
    and cls :: "'v \<Rightarrow> 'c"
    and pos :: "'v \<Rightarrow> nat"
    and period :: nat
  assumes period_pos: "0 < period"
    and pos_less: "pos v < period"
    and cls_next: "cls (nxt v) = cls v"
    and pos_next: "pos (nxt v) = (pos v + 1) mod period"
    and value_eqI: "cls v = cls w \<Longrightarrow> pos v = pos w \<Longrightarrow> v = w"
begin

lemma cls_iter: "cls ((nxt ^^ n) v) = cls v"
  by (induction n) (simp_all add: cls_next)

lemma pos_iter: "pos ((nxt ^^ n) v) = (pos v + n) mod period"
proof (induction n)
  case 0
  show ?case using pos_less [of v] by simp
next
  case (Suc n)
  then show ?case by (simp add: pos_next mod_Suc_eq)
qed

lemma iter_period: "(nxt ^^ period) v = v"
  by (rule value_eqI) (simp_all add: cls_iter pos_iter pos_less)

lemma iter_inj:
  assumes "(nxt ^^ i) v = (nxt ^^ j) v" and "i < period" and "j < period"
  shows "i = j"
proof -
  have "(pos v + i) mod period = (pos v + j) mod period"
    using assms(1) by (metis pos_iter)
  then have "(pos v + i + (period - pos v)) mod period = (pos v + j + (period - pos v)) mod period"
    by (metis mod_add_left_eq)
  with pos_less [of v] assms(2,3) show ?thesis by (simp add: add.commute)
qed

lemma classes_disjoint:
  "cls v \<noteq> cls w \<Longrightarrow> (nxt ^^ i) v \<noteq> (nxt ^^ j) w"
  by (metis cls_iter)

lemma iter_reaches:
  assumes "cls w = cls v"
  shows "\<exists>n<period. (nxt ^^ n) v = w"
proof -
  define n where "n = (pos w + period - pos v) mod period"
  have "(pos v + n) mod period = (pos v + (pos w + period - pos v)) mod period"
    by (simp add: n_def mod_add_right_eq)
  also have "pos v + (pos w + period - pos v) = pos w + period"
    using pos_less [of v] by simp
  finally have "pos ((nxt ^^ n) v) = pos w"
    using pos_less [of w] by (simp add: pos_iter)
  moreover have "n < period" using period_pos by (simp add: n_def)
  ultimately show ?thesis
    using value_eqI [of "(nxt ^^ n) v" w] assms by (auto simp: cls_iter)
qed

end

text \<open>The second extra nonce: the class is the first byte, the position the low three.\<close>

definition nonce_class :: "u32 \<Rightarrow> u32" where
  [go_eval]: "nonce_class v = drop_bit 24 v"

definition nonce_pos :: "u32 \<Rightarrow> nat" where
  [go_eval]: "nonce_pos v = unat (take_bit 24 v)"

lemma unat_nonce_class: "unat (nonce_class v) = unat v div 2 ^ 24"
  by (simp only: nonce_class_def unat_drop_bit_eq) (simp only: drop_bit_eq_div)

lemma nonce_pos_mod: "nonce_pos v = unat v mod 2 ^ 24"
  by (simp only: nonce_pos_def unsigned_take_bit_eq) (simp only: take_bit_eq_mod)

lemma nonce_pos_less: "nonce_pos v < 2 ^ 24"
  by (simp add: nonce_pos_mod)

lemma low_full_iff: "v AND 0x00FFFFFF = 0x00FFFFFF \<longleftrightarrow> nonce_pos v = 2 ^ 24 - 1" for v :: u32
proof -
  have m: "(0x00FFFFFF :: u32) = mask 24" by (simp add: mask_eq_exp_minus_1)
  have "v AND mask 24 = take_bit 24 v" by (simp add: take_bit_eq_mask)
  then have "v AND 0x00FFFFFF = 0x00FFFFFF \<longleftrightarrow> take_bit 24 v = mask 24" by (simp add: m)
  also have "\<dots> \<longleftrightarrow> unat (take_bit 24 v) = unat (mask 24 :: u32)"
    by (simp add: word_unat_eq_iff)
  also have "unat (mask 24 :: u32) = 2 ^ 24 - 1" by (simp add: mask_eq_exp_minus_1)
  finally show ?thesis by (simp add: nonce_pos_def)
qed

lemma high_byte: "unat (v AND 0xFF000000) = unat v - unat v mod 2 ^ 24" for v :: u32
proof -
  have "(0xFF000000 :: u32) = NOT (mask 24)"
    by (simp add: mask_eq_exp_minus_1)
  then have "v AND 0xFF000000 = v AND NOT (mask 24)" by simp
  also have "\<dots> = push_bit 24 (drop_bit 24 v)"
    by (rule bit_word_eqI) (auto simp: bit_simps)
  also have "\<dots> = v - take_bit 24 v"
    by (metis add_diff_cancel_right' bits_ident)
  finally have e: "v AND 0xFF000000 = v - take_bit 24 v" .
  have t: "unat (take_bit 24 v) = unat v mod 2 ^ 24"
    using nonce_pos_mod [of v] by (simp only: nonce_pos_def)
  then have "take_bit 24 v \<le> v"
    by (simp only: word_le_nat_alt) simp
  then have "unat (v - take_bit 24 v) = unat v - unat (take_bit 24 v)"
    by (rule unat_sub)
  then show ?thesis by (simp only: e t)
qed

lemma unat_Rollover:
  "unat (RolloverExtraNonce v) = (unat v div 2 ^ 24) * 2 ^ 24 + (unat v mod 2 ^ 24 + 1) mod 2 ^ 24"
proof (cases "nonce_pos v = 2 ^ 24 - 1")
  case True
  then have "unat v mod 2 ^ 24 = 2 ^ 24 - 1" by (simp add: nonce_pos_mod)
  moreover have "unat v - unat v mod 2 ^ 24 = (unat v div 2 ^ 24) * 2 ^ 24"
    by (simp add: minus_mod_eq_div_mult)
  ultimately show ?thesis
    using True by (simp add: RolloverExtraNonce_def low_full_iff high_byte)
next
  case False
  have lo: "unat v mod 2 ^ 24 + 1 < 2 ^ 24"
    using False nonce_pos_less [of v] by (simp add: nonce_pos_mod)
  have hi: "unat v < 2 ^ 32" using unsigned_less [of v] by simp
  have "unat v \<noteq> 2 ^ 32 - 1" using lo by auto
  with hi have "unat v + 1 < 2 ^ 32" by linarith
  then have "unat (v + 1) = unat v + 1"
    by (simp add: unat_word_ariths)
  then show ?thesis
    using False lo div_mult_mod_eq [of "unat v" "2 ^ 24"]
    by (simp add: RolloverExtraNonce_def low_full_iff)
qed

interpretation rollover: nonce_space RolloverExtraNonce nonce_class nonce_pos "2 ^ 24"
proof unfold_locales
  show "0 < (2 :: nat) ^ 24" by simp
  fix v w
  show "nonce_pos v < 2 ^ 24" by (rule nonce_pos_less)
  show "nonce_class (RolloverExtraNonce v) = nonce_class v"
    by (simp add: word_unat_eq_iff unat_nonce_class unat_Rollover)
  show "nonce_pos (RolloverExtraNonce v) = (nonce_pos v + 1) mod 2 ^ 24"
    by (simp add: nonce_pos_mod unat_Rollover)
  assume "nonce_class v = nonce_class w" and "nonce_pos v = nonce_pos w"
  then have "unat v div 2 ^ 24 = unat w div 2 ^ 24" and "unat v mod 2 ^ 24 = unat w mod 2 ^ 24"
    by (simp_all add: nonce_pos_mod word_unat_eq_iff unat_nonce_class)
  then have "unat v = unat w"
    by (metis div_mult_mod_eq)
  then show "v = w" by (simp add: word_unat_eq_iff)
qed

end
