(* ===== verification/Bytes.thy ===== *)
theory Bytes
  imports Prelude
begin

text \<open>
  Reading and writing fixed-width cells of a byte array: encoding/binary's
  little-endian \<open>Uint32\<close> and \<open>PutUint32\<close>, plain byte stores, and Go's \<open>copy\<close>.
  The locale \<open>cells\<close> is the contract every client relies on (what a read
  returns after a write at the same and at a disjoint place, what a write leaves
  alone); both kinds of cell are interpretations of it.
\<close>

section \<open>The contract\<close>

locale cells =
  fixes get :: "bytes \<Rightarrow> nat \<Rightarrow> 'v"
    and put :: "bytes \<Rightarrow> nat \<Rightarrow> 'v \<Rightarrow> bytes"
    and w :: nat
  assumes length_put: "length (put b i v) = length b"
    and get_put: "i + w \<le> length b \<Longrightarrow> get (put b i v) i = v"
    and put_get: "i + w \<le> length b \<Longrightarrow> put b i (get b i) = b"
    and put_outside: "k < i \<or> i + w \<le> k \<Longrightarrow> put b i v ! k = b ! k"
    and get_local: "(\<And>k. i \<le> k \<Longrightarrow> k < i + w \<Longrightarrow> b ! k = c ! k) \<Longrightarrow> get b i = get c i"
begin

lemma get_put_other:
  "j + w \<le> i \<or> i + w \<le> j \<Longrightarrow> get (put b i v) j = get b j"
  by (rule get_local) (auto intro!: put_outside)

lemma take_put: "n \<le> i \<Longrightarrow> take n (put b i v) = take n b"
  by (rule nth_equalityI) (auto simp: length_put put_outside)

lemma drop_put: "i + w \<le> n \<Longrightarrow> drop n (put b i v) = drop n b"
  by (rule nth_equalityI) (auto simp: length_put put_outside)

lemma get_take: "i + w \<le> n \<Longrightarrow> i + w \<le> length b \<Longrightarrow> get (take n b) i = get b i"
  by (rule get_local) auto

end

section \<open>Little-endian 32-bit words\<close>

text \<open>\<open>binary.LittleEndian.Uint32(b[i:])\<close> and \<open>binary.LittleEndian.PutUint32(b[i:], v)\<close>.\<close>

definition join32 :: "u8 \<Rightarrow> u8 \<Rightarrow> u8 \<Rightarrow> u8 \<Rightarrow> u32" where
  [go_eval]: "join32 b0 b1 b2 b3 = ucast b0 OR push_bit 8 (ucast b1)
     OR push_bit 16 (ucast b2) OR push_bit 24 (ucast b3)"

definition get_le32 :: "bytes \<Rightarrow> nat \<Rightarrow> u32" where
  [go_eval]: "get_le32 b i = join32 (b ! i) (b ! (i + 1)) (b ! (i + 2)) (b ! (i + 3))"

definition put_le32 :: "bytes \<Rightarrow> nat \<Rightarrow> u32 \<Rightarrow> bytes" where
  [go_eval]: "put_le32 b i v = b[i := ucast v, i + 1 := ucast (drop_bit 8 v),
     i + 2 := ucast (drop_bit 16 v), i + 3 := ucast (drop_bit 24 v)]"

lemma length_put_le32 [simp, go_len]: "length (put_le32 b i v) = length b"
  by (simp add: put_le32_def)

lemma join32_split:
  "join32 (ucast v) (ucast (drop_bit 8 v)) (ucast (drop_bit 16 v)) (ucast (drop_bit 24 v)) = v"
proof (rule bit_word_eqI)
  fix n assume "n < LENGTH(32)"
  then consider "n < 8" | "8 \<le> n" "n < 16" | "16 \<le> n" "n < 24" | "24 \<le> n" "n < 32"
    by fastforce
  then show "bit (join32 (ucast v) (ucast (drop_bit 8 v)) (ucast (drop_bit 16 v))
      (ucast (drop_bit 24 v))) n = bit v n"
    by cases (auto simp: join32_def bit_simps)
qed

lemma split_join32 [simp]:
  "ucast (join32 b0 b1 b2 b3) = b0" "ucast (drop_bit 8 (join32 b0 b1 b2 b3)) = b1"
  "ucast (drop_bit 16 (join32 b0 b1 b2 b3)) = b2" "ucast (drop_bit 24 (join32 b0 b1 b2 b3)) = b3"
  by (rule bit_word_eqI; force simp: join32_def bit_simps dest: bit_imp_le_length)+

interpretation le32: cells get_le32 put_le32 4
proof unfold_locales
  fix b c :: bytes and i k :: nat and v :: u32
  show "length (put_le32 b i v) = length b" by simp
  show "k < i \<or> i + 4 \<le> k \<Longrightarrow> put_le32 b i v ! k = b ! k"
    by (auto simp: put_le32_def)
  show "(\<And>k. i \<le> k \<Longrightarrow> k < i + 4 \<Longrightarrow> b ! k = c ! k) \<Longrightarrow> get_le32 b i = get_le32 c i"
    by (simp add: get_le32_def)
  assume len: "i + 4 \<le> length b"
  then show "get_le32 (put_le32 b i v) i = v"
    by (simp add: get_le32_def put_le32_def nth_list_update join32_split)
  show "put_le32 b i (get_le32 b i) = b"
    using len by (simp add: get_le32_def put_le32_def list_update_id del: drop_bit_or)
qed

lemma get_le32_shift:
  assumes "\<And>k. k < 4 \<Longrightarrow> b ! (i + k) = c ! (j + k)"
  shows "get_le32 b i = get_le32 c j"
  using assms [of 0] assms [of 1] assms [of 2] assms [of 3] by (simp add: get_le32_def)

lemma get_le32_drop: "n + i + 4 \<le> length b \<Longrightarrow> get_le32 (drop n b) i = get_le32 b (n + i)"
  by (rule get_le32_shift) (simp add: add.assoc)

section \<open>Single bytes\<close>

definition get_byte :: "bytes \<Rightarrow> nat \<Rightarrow> u8" where
  [go_eval]: "get_byte b i = b ! i"

definition put_byte :: "bytes \<Rightarrow> nat \<Rightarrow> u8 \<Rightarrow> bytes" where
  [go_eval]: "put_byte b i v = b[i := v]"

interpretation byte: cells get_byte put_byte 1
  by unfold_locales (auto simp: get_byte_def put_byte_def nth_list_update)

section \<open>Bytes as a number\<close>

primrec le_nat :: "bytes \<Rightarrow> nat" where
  "le_nat [] = 0"
| "le_nat (b # bs) = unat b + 256 * le_nat bs"

lemma le_nat_less: "le_nat bs < 256 ^ length bs"
proof (induction bs)
  case (Cons b bs)
  have "unat b < 256" using unsigned_less [of b] by simp
  moreover have "le_nat bs + 1 \<le> 256 ^ length bs" using Cons by simp
  then have "256 * (le_nat bs + 1) \<le> 256 * 256 ^ length bs" by (rule mult_le_mono2)
  ultimately show ?case by simp
qed simp

lemma le_nat_append: "le_nat (a @ b) = le_nat a + 256 ^ length a * le_nat b"
  by (induction a) (simp_all add: algebra_simps)

section \<open>copy\<close>

text \<open>\<open>copy(dst, src)\<close> overwrites the first \<open>min(len(dst), len(src))\<close> bytes.\<close>

definition go_copy :: "bytes \<Rightarrow> bytes \<Rightarrow> bytes" where
  [go_eval]: "go_copy dst src = take (length dst) src @ drop (length src) dst"

lemma length_go_copy [simp, go_len]: "length (go_copy dst src) = length dst"
  by (simp add: go_copy_def min_def)

lemma go_copy_full: "length dst = length src \<Longrightarrow> go_copy dst src = src"
  by (simp add: go_copy_def)

section \<open>Slices and byte images of words\<close>

text \<open>The slice expression \<open>b[i:j]\<close>.\<close>

definition slice :: "nat \<Rightarrow> nat \<Rightarrow> 'a list \<Rightarrow> 'a list" where
  [go_eval]: "slice i j b = take (j - i) (drop i b)"

lemma length_slice [go_len]: "i \<le> j \<Longrightarrow> j \<le> length b \<Longrightarrow> length (slice i j b) = j - i"
  by (simp add: slice_def)

lemma slice_eqI:
  assumes "length b = length c" and "\<And>k. i \<le> k \<Longrightarrow> k < j \<Longrightarrow> b ! k = c ! k"
  shows "slice i j b = slice i j c"
  using assms by (intro nth_equalityI) (auto simp: slice_def)

lemma get_le32_slice:
  "i + k + 4 \<le> j \<Longrightarrow> j \<le> length b \<Longrightarrow> get_le32 (slice i j b) k = get_le32 b (i + k)"
  by (rule get_le32_shift) (simp add: slice_def add.assoc)

definition le_bytes :: "u32 \<Rightarrow> bytes" where
  [go_eval]: "le_bytes v = [ucast v, ucast (drop_bit 8 v), ucast (drop_bit 16 v), ucast (drop_bit 24 v)]"

lemma length_le_bytes [simp, go_len]: "length (le_bytes v) = 4"
  by (simp add: le_bytes_def)

lemma put_le32_append:
  assumes "i + 4 \<le> length b"
  shows "put_le32 b i v = take i b @ le_bytes v @ drop (i + 4) b"
proof (rule nth_equalityI)
  show "length (put_le32 b i v) = length (take i b @ le_bytes v @ drop (i + 4) b)"
    using assms by simp
  fix k assume "k < length (put_le32 b i v)"
  then have k: "k < length b" by simp
  consider "k < i" | "k = i" | "k = i + 1" | "k = i + 2" | "k = i + 3" | "i + 4 \<le> k" by fastforce
  then show "put_le32 b i v ! k = (take i b @ le_bytes v @ drop (i + 4) b) ! k"
    using assms k
    by cases (simp_all add: put_le32_def le_bytes_def nth_append min_def nth_list_update)
qed

lemma length_concat_le_bytes [simp, go_len]: "length (concat (map le_bytes ws)) = 4 * length ws"
  by (induction ws) simp_all

lemma nth_concat_le_bytes:
  "i < length ws \<Longrightarrow> k < 4 \<Longrightarrow> concat (map le_bytes ws) ! (4 * i + k) = le_bytes (ws ! i) ! k"
proof (induction ws arbitrary: i)
  case Nil
  then show ?case by simp
next
  case (Cons w ws)
  then show ?case by (cases i) (simp_all add: nth_append)
qed

lemma get_le32_concat:
  "i < length ws \<Longrightarrow> get_le32 (concat (map le_bytes ws)) (4 * i) = ws ! i"
  using nth_concat_le_bytes [of i ws 0] nth_concat_le_bytes [of i ws 1]
    nth_concat_le_bytes [of i ws 2] nth_concat_le_bytes [of i ws 3]
  by (simp add: get_le32_def le_bytes_def join32_split)

lemma slice4:
  assumes "i + 4 \<le> length b"
  shows "slice i (i + 4) b = [b ! i, b ! (i + 1), b ! (i + 2), b ! (i + 3)]"
  using assms by (intro nth_equalityI) (auto simp: slice_def less_Suc_eq numeral_eq_Suc)

lemma le_bytes_get: "i + 4 \<le> length b \<Longrightarrow> le_bytes (get_le32 b i) = slice i (i + 4) b"
  by (simp add: slice4 le_bytes_def get_le32_def)

lemma concat_words_bytes:
  "length b = 4 * n \<Longrightarrow> concat (map (\<lambda>i. le_bytes (get_le32 b (4 * i))) [0..<n]) = b"
proof (induction n arbitrary: b)
  case 0
  then show ?case by simp
next
  case (Suc n)
  let ?c = "take (4 * n) b"
  have same: "map (\<lambda>i. le_bytes (get_le32 b (4 * i))) [0..<n] = map (\<lambda>i. le_bytes (get_le32 ?c (4 * i))) [0..<n]"
    using Suc.prems by (auto simp: le32.get_take)
  have "concat (map (\<lambda>i. le_bytes (get_le32 ?c (4 * i))) [0..<n]) = ?c"
    using Suc.prems by (intro Suc.IH) simp
  moreover have "le_bytes (get_le32 b (4 * n)) = drop (4 * n) b"
    using Suc.prems by (simp add: le_bytes_get slice_def)
  ultimately show ?case by (simp only: upt_Suc_append same map_append concat_append) simp
qed

end
