(* ===== verification/Blake3.thy ===== *)
theory Blake3
  imports Bytes
begin

text \<open>
  Package blake3 (src/blake3/block.go, src/blake3/convert.go): the unrolled,
  single-chunk BLAKE3 compression the miner hashes headers with, statement by statement.
  The reference side follows the table in the comment of \<open>compress\<close>: a 4x4 state, one
  round function, and the message permuted between rounds. The main results are that the
  unrolled code computes the reference compression, that the conversions between
  bytes and words invert each other, and that the midstate construction is the plain
  single-chunk hash of the whole header.
\<close>

section \<open>The code\<close>

definition FlagChunkStart :: u32 where [go_eval]: "FlagChunkStart = 1"
definition flagChunkEnd :: u32 where [go_eval]: "flagChunkEnd = 2"
definition flagRoot :: u32 where [go_eval]: "flagRoot = 8"

definition IV :: "u32 list" where
  [go_eval]: "IV = [0x6a09e667, 0xbb67ae85, 0x3c6ef372, 0xa54ff53a,
     0x510e527f, 0x9b05688c, 0x1f83d9ab, 0x5be0cd19]"

text \<open>
  \<open>bits.RotateLeft32(x, k)\<close>: with \<open>s = uint(k) & 31\<close> the result is
  \<open>x<<s | x>>(32-s)\<close>; a negative \<open>k\<close> rotates right.
\<close>

definition RotateLeft32 :: "u32 \<Rightarrow> int \<Rightarrow> u32" where
  [go_eval]: "RotateLeft32 x k =
     (let s = nat (k mod 32) in push_bit s x OR drop_bit (32 - s) x)"

definition g :: "u32 \<Rightarrow> u32 \<Rightarrow> u32 \<Rightarrow> u32 \<Rightarrow> u32 \<Rightarrow> u32 \<Rightarrow> u32 \<times> u32 \<times> u32 \<times> u32" where
  [go_eval]: "g a b c d mx my =
    (let a = a + (b + mx);
         d = RotateLeft32 (d XOR a) (-16);
         c = c + d;
         b = RotateLeft32 (b XOR c) (-12);
         a = a + (b + my);
         d = RotateLeft32 (d XOR a) (-8);
         c = c + d;
         b = RotateLeft32 (b XOR c) (-7)
     in (a, b, c, d))"

text \<open>\<open>b\<close> is the source's \<open>block\<close>.\<close>

definition compress :: "u32 list \<Rightarrow> u32 list \<Rightarrow> u32 \<Rightarrow> u32 \<Rightarrow> u32 list" where
  "compress cv b blockLen flags =
    (let
      (v0, v4, v8, v12) = g (cv ! 0) (cv ! 4) (IV ! 0) 0 (b ! 0) (b ! 1);
      (v1, v5, v9, v13) = g (cv ! 1) (cv ! 5) (IV ! 1) 0 (b ! 2) (b ! 3);
      (v2, v6, v10, v14) = g (cv ! 2) (cv ! 6) (IV ! 2) blockLen (b ! 4) (b ! 5);
      (v3, v7, v11, v15) = g (cv ! 3) (cv ! 7) (IV ! 3) flags (b ! 6) (b ! 7);
      (v0, v5, v10, v15) = g v0 v5 v10 v15 (b ! 8) (b ! 9);
      (v1, v6, v11, v12) = g v1 v6 v11 v12 (b ! 10) (b ! 11);
      (v2, v7, v8, v13) = g v2 v7 v8 v13 (b ! 12) (b ! 13);
      (v3, v4, v9, v14) = g v3 v4 v9 v14 (b ! 14) (b ! 15);
      \<comment> \<open>round 2\<close>
      (v0, v4, v8, v12) = g v0 v4 v8 v12 (b ! 2) (b ! 6);
      (v1, v5, v9, v13) = g v1 v5 v9 v13 (b ! 3) (b ! 10);
      (v2, v6, v10, v14) = g v2 v6 v10 v14 (b ! 7) (b ! 0);
      (v3, v7, v11, v15) = g v3 v7 v11 v15 (b ! 4) (b ! 13);
      (v0, v5, v10, v15) = g v0 v5 v10 v15 (b ! 1) (b ! 11);
      (v1, v6, v11, v12) = g v1 v6 v11 v12 (b ! 12) (b ! 5);
      (v2, v7, v8, v13) = g v2 v7 v8 v13 (b ! 9) (b ! 14);
      (v3, v4, v9, v14) = g v3 v4 v9 v14 (b ! 15) (b ! 8);
      \<comment> \<open>round 3\<close>
      (v0, v4, v8, v12) = g v0 v4 v8 v12 (b ! 3) (b ! 4);
      (v1, v5, v9, v13) = g v1 v5 v9 v13 (b ! 10) (b ! 12);
      (v2, v6, v10, v14) = g v2 v6 v10 v14 (b ! 13) (b ! 2);
      (v3, v7, v11, v15) = g v3 v7 v11 v15 (b ! 7) (b ! 14);
      (v0, v5, v10, v15) = g v0 v5 v10 v15 (b ! 6) (b ! 5);
      (v1, v6, v11, v12) = g v1 v6 v11 v12 (b ! 9) (b ! 0);
      (v2, v7, v8, v13) = g v2 v7 v8 v13 (b ! 11) (b ! 15);
      (v3, v4, v9, v14) = g v3 v4 v9 v14 (b ! 8) (b ! 1);
      \<comment> \<open>round 4\<close>
      (v0, v4, v8, v12) = g v0 v4 v8 v12 (b ! 10) (b ! 7);
      (v1, v5, v9, v13) = g v1 v5 v9 v13 (b ! 12) (b ! 9);
      (v2, v6, v10, v14) = g v2 v6 v10 v14 (b ! 14) (b ! 3);
      (v3, v7, v11, v15) = g v3 v7 v11 v15 (b ! 13) (b ! 15);
      (v0, v5, v10, v15) = g v0 v5 v10 v15 (b ! 4) (b ! 0);
      (v1, v6, v11, v12) = g v1 v6 v11 v12 (b ! 11) (b ! 2);
      (v2, v7, v8, v13) = g v2 v7 v8 v13 (b ! 5) (b ! 8);
      (v3, v4, v9, v14) = g v3 v4 v9 v14 (b ! 1) (b ! 6);
      \<comment> \<open>round 5\<close>
      (v0, v4, v8, v12) = g v0 v4 v8 v12 (b ! 12) (b ! 13);
      (v1, v5, v9, v13) = g v1 v5 v9 v13 (b ! 9) (b ! 11);
      (v2, v6, v10, v14) = g v2 v6 v10 v14 (b ! 15) (b ! 10);
      (v3, v7, v11, v15) = g v3 v7 v11 v15 (b ! 14) (b ! 8);
      (v0, v5, v10, v15) = g v0 v5 v10 v15 (b ! 7) (b ! 2);
      (v1, v6, v11, v12) = g v1 v6 v11 v12 (b ! 5) (b ! 3);
      (v2, v7, v8, v13) = g v2 v7 v8 v13 (b ! 0) (b ! 1);
      (v3, v4, v9, v14) = g v3 v4 v9 v14 (b ! 6) (b ! 4);
      \<comment> \<open>round 6\<close>
      (v0, v4, v8, v12) = g v0 v4 v8 v12 (b ! 9) (b ! 14);
      (v1, v5, v9, v13) = g v1 v5 v9 v13 (b ! 11) (b ! 5);
      (v2, v6, v10, v14) = g v2 v6 v10 v14 (b ! 8) (b ! 12);
      (v3, v7, v11, v15) = g v3 v7 v11 v15 (b ! 15) (b ! 1);
      (v0, v5, v10, v15) = g v0 v5 v10 v15 (b ! 13) (b ! 3);
      (v1, v6, v11, v12) = g v1 v6 v11 v12 (b ! 0) (b ! 10);
      (v2, v7, v8, v13) = g v2 v7 v8 v13 (b ! 2) (b ! 6);
      (v3, v4, v9, v14) = g v3 v4 v9 v14 (b ! 4) (b ! 7);
      \<comment> \<open>round 7\<close>
      (v0, v4, v8, v12) = g v0 v4 v8 v12 (b ! 11) (b ! 15);
      (v1, v5, v9, v13) = g v1 v5 v9 v13 (b ! 5) (b ! 0);
      (v2, v6, v10, v14) = g v2 v6 v10 v14 (b ! 1) (b ! 9);
      (v3, v7, v11, v15) = g v3 v7 v11 v15 (b ! 8) (b ! 6);
      (v0, v5, v10, v15) = g v0 v5 v10 v15 (b ! 14) (b ! 10);
      (v1, v6, v11, v12) = g v1 v6 v11 v12 (b ! 2) (b ! 12);
      (v2, v7, v8, v13) = g v2 v7 v8 v13 (b ! 3) (b ! 4);
      (v3, v4, v9, v14) = g v3 v4 v9 v14 (b ! 7) (b ! 13)
     in [v0 XOR v8, v1 XOR v9, v2 XOR v10, v3 XOR v11, v4 XOR v12, v5 XOR v13, v6 XOR v14, v7 XOR v15])"

text \<open>convert.go: a short block is zero-filled to 64 bytes, then read as 16 words.\<close>

definition intoWords :: "bytes \<Rightarrow> u32 list" where
  [go_eval]: "intoWords b =
    (let blk = go_copy (replicate 64 0) b in map (\<lambda>i. get_le32 blk (4 * i)) [0..<16])"

primrec asBytes_loop :: "u32 list \<Rightarrow> nat \<Rightarrow> bytes \<Rightarrow> bytes" where
  "asBytes_loop [] i b = b"
| "asBytes_loop (v # cv) i b = asBytes_loop cv (Suc i) (put_le32 b (4 * i) v)"

definition asBytes :: "u32 list \<Rightarrow> bytes" where
  "asBytes cv = asBytes_loop cv 0 (replicate 32 0)"

definition block :: "u32 list \<Rightarrow> bytes \<Rightarrow> u32 \<Rightarrow> u32 list" where
  "block midstate b flags = compress midstate (intoWords b) (of_nat (length b)) flags"

definition Block :: "u32 list \<Rightarrow> bytes \<Rightarrow> u32 \<Rightarrow> u32 list" where
  "Block midstate b flags = block midstate b flags"

definition FinalBlock :: "u32 list \<Rightarrow> bytes \<Rightarrow> bytes" where
  "FinalBlock midstate b = asBytes (block midstate b (flagChunkEnd OR flagRoot))"

section \<open>The reference compression\<close>

text \<open>One application of the quarter round to four places of the 4x4 state.\<close>

definition G_at :: "nat \<times> nat \<times> nat \<times> nat \<Rightarrow> u32 \<Rightarrow> u32 \<Rightarrow> u32 list \<Rightarrow> u32 list" where
  "G_at q mx my v = (case q of (i, j, k, l) \<Rightarrow>
     (case g (v ! i) (v ! j) (v ! k) (v ! l) mx my of
       (a, b, c, d) \<Rightarrow> v[i := a, j := b, k := c, l := d]))"

text \<open>A round works on the four columns, then on the four diagonals.\<close>

definition ref_round :: "u32 list \<Rightarrow> u32 list \<Rightarrow> u32 list" where
  "ref_round m v =
    G_at (3, 4, 9, 14) (m ! 14) (m ! 15) (G_at (2, 7, 8, 13) (m ! 12) (m ! 13)
    (G_at (1, 6, 11, 12) (m ! 10) (m ! 11) (G_at (0, 5, 10, 15) (m ! 8) (m ! 9)
    (G_at (3, 7, 11, 15) (m ! 6) (m ! 7) (G_at (2, 6, 10, 14) (m ! 4) (m ! 5)
    (G_at (1, 5, 9, 13) (m ! 2) (m ! 3) (G_at (0, 4, 8, 12) (m ! 0) (m ! 1) v)))))))"

definition msg_permutation :: "nat list" where
  "msg_permutation = [2, 6, 3, 10, 7, 0, 4, 13, 1, 11, 12, 5, 9, 14, 15, 8]"

definition permute_msg :: "u32 list \<Rightarrow> u32 list" where
  "permute_msg m = map (nth m) msg_permutation"

primrec ref_rounds :: "nat \<Rightarrow> u32 list \<Rightarrow> u32 list \<Rightarrow> u32 list" where
  "ref_rounds 0 m v = v"
| "ref_rounds (Suc n) m v = ref_rounds n (permute_msg m) (ref_round m v)"

definition ref_compress :: "u32 list \<Rightarrow> u32 list \<Rightarrow> u32 \<Rightarrow> u32 \<Rightarrow> u32 list" where
  "ref_compress cv m len flags =
    (let v = ref_rounds 7 m (cv @ take 4 IV @ [0, 0, len, flags])
     in map2 (XOR) (take 8 v) (drop 8 v))"

section \<open>The unrolled code is seven reference rounds\<close>

type_synonym state16 = "u32 \<times> u32 \<times> u32 \<times> u32 \<times> u32 \<times> u32 \<times> u32 \<times> u32 \<times> u32 \<times> u32 \<times> u32 \<times> u32 \<times> u32 \<times> u32 \<times> u32 \<times> u32"

definition round16 :: "state16 \<Rightarrow> u32 \<Rightarrow> u32 \<Rightarrow> u32 \<Rightarrow> u32 \<Rightarrow> u32 \<Rightarrow> u32 \<Rightarrow> u32 \<Rightarrow> u32
    \<Rightarrow> u32 \<Rightarrow> u32 \<Rightarrow> u32 \<Rightarrow> u32 \<Rightarrow> u32 \<Rightarrow> u32 \<Rightarrow> u32 \<Rightarrow> u32 \<Rightarrow> state16" where
  "round16 s x0 x1 x2 x3 x4 x5 x6 x7 x8 x9 x10 x11 x12 x13 x14 x15 =
    (case s of (v0, v1, v2, v3, v4, v5, v6, v7, v8, v9, v10, v11, v12, v13, v14, v15) \<Rightarrow>
    let (v0, v4, v8, v12) = g v0 v4 v8 v12 x0 x1;
      (v1, v5, v9, v13) = g v1 v5 v9 v13 x2 x3;
      (v2, v6, v10, v14) = g v2 v6 v10 v14 x4 x5;
      (v3, v7, v11, v15) = g v3 v7 v11 v15 x6 x7;
      (v0, v5, v10, v15) = g v0 v5 v10 v15 x8 x9;
      (v1, v6, v11, v12) = g v1 v6 v11 v12 x10 x11;
      (v2, v7, v8, v13) = g v2 v7 v8 v13 x12 x13;
      (v3, v4, v9, v14) = g v3 v4 v9 v14 x14 x15
     in (v0, v1, v2, v3, v4, v5, v6, v7, v8, v9, v10, v11, v12, v13, v14, v15))"

definition out16 :: "state16 \<Rightarrow> u32 list" where
  "out16 s = (case s of (v0, v1, v2, v3, v4, v5, v6, v7, v8, v9, v10, v11, v12, v13, v14, v15) \<Rightarrow>
     [v0 XOR v8, v1 XOR v9, v2 XOR v10, v3 XOR v11, v4 XOR v12, v5 XOR v13, v6 XOR v14, v7 XOR v15])"

definition list16 :: "state16 \<Rightarrow> u32 list" where
  "list16 s = (case s of (v0, v1, v2, v3, v4, v5, v6, v7, v8, v9, v10, v11, v12, v13, v14, v15) \<Rightarrow>
     [v0, v1, v2, v3, v4, v5, v6, v7, v8, v9, v10, v11, v12, v13, v14, v15])"

lemma case_prod_nested:
  "(case (case p of (a, b) \<Rightarrow> f a b) of (c, d) \<Rightarrow> h c d) =
   (case p of (a, b) \<Rightarrow> case f a b of (c, d) \<Rightarrow> h c d)"
  by (simp split: prod.split)

lemma compress_rounds:
  "compress cv b blockLen flags =
    (let s1 = round16 (cv ! 0, cv ! 1, cv ! 2, cv ! 3, cv ! 4, cv ! 5, cv ! 6, cv ! 7,
        IV ! 0, IV ! 1, IV ! 2, IV ! 3, 0, 0, blockLen, flags)
        (b ! 0) (b ! 1) (b ! 2) (b ! 3) (b ! 4) (b ! 5) (b ! 6) (b ! 7) (b ! 8) (b ! 9) (b ! 10) (b ! 11) (b ! 12) (b ! 13) (b ! 14) (b ! 15);
      s2 = round16 s1
        (b ! 2) (b ! 6) (b ! 3) (b ! 10) (b ! 7) (b ! 0) (b ! 4) (b ! 13) (b ! 1) (b ! 11) (b ! 12) (b ! 5) (b ! 9) (b ! 14) (b ! 15) (b ! 8);
      s3 = round16 s2
        (b ! 3) (b ! 4) (b ! 10) (b ! 12) (b ! 13) (b ! 2) (b ! 7) (b ! 14) (b ! 6) (b ! 5) (b ! 9) (b ! 0) (b ! 11) (b ! 15) (b ! 8) (b ! 1);
      s4 = round16 s3
        (b ! 10) (b ! 7) (b ! 12) (b ! 9) (b ! 14) (b ! 3) (b ! 13) (b ! 15) (b ! 4) (b ! 0) (b ! 11) (b ! 2) (b ! 5) (b ! 8) (b ! 1) (b ! 6);
      s5 = round16 s4
        (b ! 12) (b ! 13) (b ! 9) (b ! 11) (b ! 15) (b ! 10) (b ! 14) (b ! 8) (b ! 7) (b ! 2) (b ! 5) (b ! 3) (b ! 0) (b ! 1) (b ! 6) (b ! 4);
      s6 = round16 s5
        (b ! 9) (b ! 14) (b ! 11) (b ! 5) (b ! 8) (b ! 12) (b ! 15) (b ! 1) (b ! 13) (b ! 3) (b ! 0) (b ! 10) (b ! 2) (b ! 6) (b ! 4) (b ! 7);
      s7 = round16 s6
        (b ! 11) (b ! 15) (b ! 5) (b ! 0) (b ! 1) (b ! 9) (b ! 8) (b ! 6) (b ! 14) (b ! 10) (b ! 2) (b ! 12) (b ! 3) (b ! 4) (b ! 7) (b ! 13)
     in out16 s7)"
  by (simp only: compress_def round16_def out16_def Let_def case_prod_nested prod.case)

text \<open>The quarter round at the four columns and the four diagonals of an explicit state.\<close>

lemma G_at_explicit:
  "G_at (0, 4, 8, 12) x y [v0, v1, v2, v3, v4, v5, v6, v7, v8, v9, v10, v11, v12, v13, v14, v15] =
    (case g v0 v4 v8 v12 x y of (v0, v4, v8, v12) \<Rightarrow> [v0, v1, v2, v3, v4, v5, v6, v7, v8, v9, v10, v11, v12, v13, v14, v15])"
  "G_at (1, 5, 9, 13) x y [v0, v1, v2, v3, v4, v5, v6, v7, v8, v9, v10, v11, v12, v13, v14, v15] =
    (case g v1 v5 v9 v13 x y of (v1, v5, v9, v13) \<Rightarrow> [v0, v1, v2, v3, v4, v5, v6, v7, v8, v9, v10, v11, v12, v13, v14, v15])"
  "G_at (2, 6, 10, 14) x y [v0, v1, v2, v3, v4, v5, v6, v7, v8, v9, v10, v11, v12, v13, v14, v15] =
    (case g v2 v6 v10 v14 x y of (v2, v6, v10, v14) \<Rightarrow> [v0, v1, v2, v3, v4, v5, v6, v7, v8, v9, v10, v11, v12, v13, v14, v15])"
  "G_at (3, 7, 11, 15) x y [v0, v1, v2, v3, v4, v5, v6, v7, v8, v9, v10, v11, v12, v13, v14, v15] =
    (case g v3 v7 v11 v15 x y of (v3, v7, v11, v15) \<Rightarrow> [v0, v1, v2, v3, v4, v5, v6, v7, v8, v9, v10, v11, v12, v13, v14, v15])"
  "G_at (0, 5, 10, 15) x y [v0, v1, v2, v3, v4, v5, v6, v7, v8, v9, v10, v11, v12, v13, v14, v15] =
    (case g v0 v5 v10 v15 x y of (v0, v5, v10, v15) \<Rightarrow> [v0, v1, v2, v3, v4, v5, v6, v7, v8, v9, v10, v11, v12, v13, v14, v15])"
  "G_at (1, 6, 11, 12) x y [v0, v1, v2, v3, v4, v5, v6, v7, v8, v9, v10, v11, v12, v13, v14, v15] =
    (case g v1 v6 v11 v12 x y of (v1, v6, v11, v12) \<Rightarrow> [v0, v1, v2, v3, v4, v5, v6, v7, v8, v9, v10, v11, v12, v13, v14, v15])"
  "G_at (2, 7, 8, 13) x y [v0, v1, v2, v3, v4, v5, v6, v7, v8, v9, v10, v11, v12, v13, v14, v15] =
    (case g v2 v7 v8 v13 x y of (v2, v7, v8, v13) \<Rightarrow> [v0, v1, v2, v3, v4, v5, v6, v7, v8, v9, v10, v11, v12, v13, v14, v15])"
  "G_at (3, 4, 9, 14) x y [v0, v1, v2, v3, v4, v5, v6, v7, v8, v9, v10, v11, v12, v13, v14, v15] =
    (case g v3 v4 v9 v14 x y of (v3, v4, v9, v14) \<Rightarrow> [v0, v1, v2, v3, v4, v5, v6, v7, v8, v9, v10, v11, v12, v13, v14, v15])"
  by (simp_all add: G_at_def split: prod.split)

lemma G_at_case:
  "G_at q x y (case p of (a, b, c, d) \<Rightarrow> f a b c d) = (case p of (a, b, c, d) \<Rightarrow> G_at q x y (f a b c d))"
  by (simp split: prod.split)

lemma list16_case:
  "list16 (case p of (a, b, c, d) \<Rightarrow> f a b c d) = (case p of (a, b, c, d) \<Rightarrow> list16 (f a b c d))"
  by (simp split: prod.split)

lemma list16_round16:
  "list16 (round16 s (m ! 0) (m ! 1) (m ! 2) (m ! 3) (m ! 4) (m ! 5) (m ! 6) (m ! 7) (m ! 8) (m ! 9) (m ! 10) (m ! 11) (m ! 12) (m ! 13) (m ! 14) (m ! 15)) =
    ref_round m (list16 s)"
proof -
  obtain v0 v1 v2 v3 v4 v5 v6 v7 v8 v9 v10 v11 v12 v13 v14 v15 where s: "s = (v0, v1, v2, v3, v4, v5, v6, v7, v8, v9, v10, v11, v12, v13, v14, v15)"
    by (metis surj_pair)
  show ?thesis
    by (simp only: s round16_def ref_round_def Let_def prod.case list16_def [of "(_, _)"]
      G_at_explicit G_at_case list16_case)
qed

lemma permute_msg_nth:
  "permute_msg m ! 0 = m ! 2"
  "permute_msg m ! 1 = m ! 6"
  "permute_msg m ! 2 = m ! 3"
  "permute_msg m ! 3 = m ! 10"
  "permute_msg m ! 4 = m ! 7"
  "permute_msg m ! 5 = m ! 0"
  "permute_msg m ! 6 = m ! 4"
  "permute_msg m ! 7 = m ! 13"
  "permute_msg m ! 8 = m ! 1"
  "permute_msg m ! 9 = m ! 11"
  "permute_msg m ! 10 = m ! 12"
  "permute_msg m ! 11 = m ! 5"
  "permute_msg m ! 12 = m ! 9"
  "permute_msg m ! 13 = m ! 14"
  "permute_msg m ! 14 = m ! 15"
  "permute_msg m ! 15 = m ! 8"
  by (simp_all add: permute_msg_def msg_permutation_def)

lemma length_permute_msg [simp, go_len]: "length (permute_msg m) = 16"
  by (simp add: permute_msg_def msg_permutation_def)

lemma out16_list16: "out16 s = map2 (XOR) (take 8 (list16 s)) (drop 8 (list16 s))"
proof -
  obtain v0 v1 v2 v3 v4 v5 v6 v7 v8 v9 v10 v11 v12 v13 v14 v15 where s: "s = (v0, v1, v2, v3, v4, v5, v6, v7, v8, v9, v10, v11, v12, v13, v14, v15)"
    by (metis surj_pair)
  show ?thesis by (simp add: s out16_def list16_def)
qed

text \<open>The round function of the code on the words the schedule has reached after k permutations.\<close>

lemma list16_round_schedule:
  "list16 (round16 s (b ! 0) (b ! 1) (b ! 2) (b ! 3) (b ! 4) (b ! 5) (b ! 6) (b ! 7) (b ! 8) (b ! 9) (b ! 10) (b ! 11) (b ! 12) (b ! 13) (b ! 14) (b ! 15)) = ref_round (b) (list16 s)"
  "list16 (round16 s (b ! 2) (b ! 6) (b ! 3) (b ! 10) (b ! 7) (b ! 0) (b ! 4) (b ! 13) (b ! 1) (b ! 11) (b ! 12) (b ! 5) (b ! 9) (b ! 14) (b ! 15) (b ! 8)) = ref_round (permute_msg (b)) (list16 s)"
  "list16 (round16 s (b ! 3) (b ! 4) (b ! 10) (b ! 12) (b ! 13) (b ! 2) (b ! 7) (b ! 14) (b ! 6) (b ! 5) (b ! 9) (b ! 0) (b ! 11) (b ! 15) (b ! 8) (b ! 1)) = ref_round (permute_msg (permute_msg (b))) (list16 s)"
  "list16 (round16 s (b ! 10) (b ! 7) (b ! 12) (b ! 9) (b ! 14) (b ! 3) (b ! 13) (b ! 15) (b ! 4) (b ! 0) (b ! 11) (b ! 2) (b ! 5) (b ! 8) (b ! 1) (b ! 6)) = ref_round (permute_msg (permute_msg (permute_msg (b)))) (list16 s)"
  "list16 (round16 s (b ! 12) (b ! 13) (b ! 9) (b ! 11) (b ! 15) (b ! 10) (b ! 14) (b ! 8) (b ! 7) (b ! 2) (b ! 5) (b ! 3) (b ! 0) (b ! 1) (b ! 6) (b ! 4)) = ref_round (permute_msg (permute_msg (permute_msg (permute_msg (b))))) (list16 s)"
  "list16 (round16 s (b ! 9) (b ! 14) (b ! 11) (b ! 5) (b ! 8) (b ! 12) (b ! 15) (b ! 1) (b ! 13) (b ! 3) (b ! 0) (b ! 10) (b ! 2) (b ! 6) (b ! 4) (b ! 7)) = ref_round (permute_msg (permute_msg (permute_msg (permute_msg (permute_msg (b)))))) (list16 s)"
  "list16 (round16 s (b ! 11) (b ! 15) (b ! 5) (b ! 0) (b ! 1) (b ! 9) (b ! 8) (b ! 6) (b ! 14) (b ! 10) (b ! 2) (b ! 12) (b ! 3) (b ! 4) (b ! 7) (b ! 13)) = ref_round (permute_msg (permute_msg (permute_msg (permute_msg (permute_msg (permute_msg (b))))))) (list16 s)"

  by (simp_all only: list16_round16 [symmetric] permute_msg_nth)

lemma compress_is_ref:
  assumes "length cv = 8"
  shows "compress cv b blockLen flags = ref_compress cv b blockLen flags"
proof -
  have cv: "cv = [cv ! 0, cv ! 1, cv ! 2, cv ! 3, cv ! 4, cv ! 5, cv ! 6, cv ! 7]"
    using assms by (auto simp: list_eq_iff_nth_eq less_Suc_eq numeral_eq_Suc)
  have init: "list16 (cv ! 0, cv ! 1, cv ! 2, cv ! 3, cv ! 4, cv ! 5, cv ! 6, cv ! 7,
      IV ! 0, IV ! 1, IV ! 2, IV ! 3, 0, 0, blockLen, flags) =
    cv @ take 4 IV @ [0, 0, blockLen, flags]"
    by (subst (9) cv) (simp add: list16_def IV_def)
  have seven: "ref_rounds 7 m v = ref_rounds (Suc (Suc (Suc (Suc (Suc (Suc (Suc 0))))))) m v" for m v
    by (simp add: numeral_eq_Suc)
  show ?thesis
    by (simp only: compress_rounds ref_compress_def Let_def out16_list16 list16_round_schedule
      init seven ref_rounds.simps)
qed

section \<open>Bytes and words\<close>

lemma length_compress [simp, go_len]: "length (compress cv b n f) = 8"
  by (simp add: compress_rounds Let_def out16_def split: prod.split)

lemma length_Block [simp, go_len]: "length (Block cv b f) = 8"
  by (simp add: Block_def block_def)

lemma length_IV [simp, go_len]: "length IV = 8"
  by (simp add: IV_def)

lemma length_intoWords [simp, go_len]: "length (intoWords b) = 16"
  by (simp add: intoWords_def Let_def)

lemma intoWords_nth:
  "length b = 64 \<Longrightarrow> i < 16 \<Longrightarrow> intoWords b ! i = get_le32 b (4 * i)"
  by (simp add: intoWords_def Let_def go_copy_full)

lemma length_asBytes_loop: "length (asBytes_loop cv i b) = length b"
  by (induction cv arbitrary: i b) simp_all

lemma asBytes_loop_eq:
  "4 * (i + length cv) \<le> length b \<Longrightarrow>
   asBytes_loop cv i b = take (4 * i) b @ concat (map le_bytes cv) @ drop (4 * (i + length cv)) b"
proof (induction cv arbitrary: i b)
  case Nil
  then show ?case by simp
next
  case (Cons v cv)
  have "asBytes_loop (v # cv) i b = asBytes_loop cv (Suc i) (put_le32 b (4 * i) v)" by simp
  also have "\<dots> = take (4 * Suc i) (put_le32 b (4 * i) v) @ concat (map le_bytes cv)
      @ drop (4 * (Suc i + length cv)) (put_le32 b (4 * i) v)"
    using Cons.prems by (intro Cons.IH) simp
  also have "take (4 * Suc i) (put_le32 b (4 * i) v) = take (4 * i) b @ le_bytes v"
    using Cons.prems by (simp add: put_le32_append)
  also have "drop (4 * (Suc i + length cv)) (put_le32 b (4 * i) v) = drop (4 * (Suc i + length cv)) b"
    by (rule le32.drop_put) simp
  finally show ?case by simp
qed

lemma asBytes_concat: "length cv = 8 \<Longrightarrow> asBytes cv = concat (map le_bytes cv)"
  by (simp add: asBytes_def asBytes_loop_eq)

lemma length_FinalBlock [simp, go_len]: "length (FinalBlock ms b) = 32"
  by (simp add: FinalBlock_def asBytes_concat block_def)

lemma asBytes_word:
  "length cv = 8 \<Longrightarrow> i < 8 \<Longrightarrow> get_le32 (asBytes cv) (4 * i) = cv ! i"
  by (simp add: asBytes_concat get_le32_concat)

lemma intoWords_bytes: "length b = 64 \<Longrightarrow> concat (map le_bytes (intoWords b)) = b"
  using concat_words_bytes [of b 16]
  by (simp add: intoWords_def Let_def go_copy_full comp_def)

section \<open>The midstate construction is the plain single-chunk hash\<close>

text \<open>
  A BLAKE3 chunk of at most 1024 bytes, as the specification hashes it: 64-byte
  blocks chained through the compression, the start flag on the first block, the end and
  root flags on the last, which may be short and is zero-filled.
\<close>

definition ref_words :: "bytes \<Rightarrow> u32 list" where
  "ref_words bs = map (\<lambda>i. get_le32 (bs @ replicate (64 - length bs) 0) (4 * i)) [0..<16]"

function ref_chunk :: "u32 list \<Rightarrow> u32 \<Rightarrow> bytes \<Rightarrow> u32 list" where
  "ref_chunk cv start bs =
    (if length bs \<le> 64
     then ref_compress cv (ref_words bs) (of_nat (length bs)) (start OR flagChunkEnd OR flagRoot)
     else ref_chunk (ref_compress cv (ref_words (take 64 bs)) 64 start) 0 (drop 64 bs))"
  by pat_completeness auto
termination
  by (relation "measure (\<lambda>(cv, start, bs). length bs)") auto

declare ref_chunk.simps [simp del]

definition blake3_hash :: "bytes \<Rightarrow> bytes" where
  "blake3_hash bs = concat (map le_bytes (ref_chunk IV FlagChunkStart bs))"

lemma intoWords_ref: "length b \<le> 64 \<Longrightarrow> intoWords b = ref_words b"
  by (simp add: intoWords_def ref_words_def go_copy_def Let_def)

lemma block_ref:
  "length cv = 8 \<Longrightarrow> length b \<le> 64 \<Longrightarrow>
   block cv b f = ref_compress cv (ref_words b) (of_nat (length b)) f"
  by (simp add: block_def compress_is_ref intoWords_ref)

lemma length_ref_compress [simp, go_len]: "length cv = 8 \<Longrightarrow> length (ref_compress cv m n f) = 8"
  using length_compress [of cv m n f] by (simp add: compress_is_ref)

text \<open>Folding full blocks one at a time and finishing the tail is \<open>ref_chunk\<close>.\<close>

lemma ref_chunk_Block:
  "length cv = 8 \<Longrightarrow> 64 < length bs \<Longrightarrow>
   ref_chunk cv f bs = ref_chunk (Block cv (take 64 bs) f) 0 (drop 64 bs)"
  by (subst ref_chunk.simps) (simp add: Block_def block_ref)

lemma ref_chunk_FinalBlock:
  "length cv = 8 \<Longrightarrow> length bs \<le> 64 \<Longrightarrow> concat (map le_bytes (ref_chunk cv 0 bs)) = FinalBlock cv bs"
  by (subst ref_chunk.simps) (simp add: FinalBlock_def block_ref asBytes_concat)

definition header_midstate :: "bytes \<Rightarrow> u32 list" where
  [go_eval]: "header_midstate data =
     Block (Block IV (slice 0 64 data) FlagChunkStart) (slice 64 128 data) 0"

lemma length_header_midstate [simp, go_len]: "length (header_midstate data) = 8"
  by (simp add: header_midstate_def)

lemma midstate_hash:
  assumes "length data = 192"
  shows "FinalBlock (header_midstate data) (slice 128 180 data) = blake3_hash (take 180 data)"
proof -
  have "ref_chunk IV FlagChunkStart (take 180 data) =
      ref_chunk (header_midstate data) 0 (slice 128 180 data)"
    using assms
    by (simp add: ref_chunk_Block header_midstate_def slice_def drop_take min_def)
  then show ?thesis
    using assms by (simp add: blake3_hash_def ref_chunk_FinalBlock slice_def)
qed

end
