(* ===== verification/Kernel.thy ===== *)
theory Kernel
  imports Blake3
begin

text \<open>
  The OpenCL kernel (src/blake3.cl), statement by statement, and the host's reading of it.
  A work item computes the last word of the hash for one nonce (\<open>search_word\<close>); it
  drops the message words 13 to 15, which are zero in a 52-byte final block, and the
  constants of the final block are written into round one. The first result is that the
  item computes exactly the last word of the host's compression.
\<close>

section \<open>The kernel's arithmetic\<close>

text \<open>OpenCL's \<open>rotate\<close> turns left, bits shifted out on the left come back on the right.\<close>

definition ROTR :: "u32 \<Rightarrow> nat \<Rightarrow> u32" where
  "ROTR v n = word_rotl (32 - n) v"

definition cl_round1 :: "u32 \<Rightarrow> u32 \<Rightarrow> u32 \<Rightarrow> u32 \<Rightarrow> u32 \<Rightarrow> u32 \<Rightarrow> u32 \<Rightarrow> u32 \<Rightarrow> u32 \<Rightarrow> u32 \<Rightarrow> u32 \<Rightarrow> u32 \<Rightarrow> u32 \<Rightarrow> u32 \<Rightarrow> u32 \<Rightarrow> u32 \<Rightarrow> u32 \<Rightarrow> u32 \<Rightarrow> u32 \<Rightarrow> u32 \<Rightarrow> u32 \<Rightarrow> state16" where
  "cl_round1 cv0 cv1 cv2 cv3 cv4 cv5 cv6 cv7
      m0 m1 m2 m3 m4 m5 m6 m7 m8 m9 m10 m11 m12 =
    (let iv0 = 0x6a09e667; iv1 = 0xbb67ae85; iv2 = 0x3c6ef372; iv3 = 0xa54ff53a;
        v0 = cv0 + cv4 + m0; v12 = ROTR v0 16; v8 = iv0 + v12; v4 = ROTR (cv4 XOR v8) 12;
          v0 = v0 + (v4 + m1); v12 = ROTR (v12 XOR v0) 8; v8 = v8 + v12; v4 = ROTR (v4 XOR v8) 7;
        v1 = cv1 + cv5 + m2; v13 = ROTR v1 16; v9 = iv1 + v13; v5 = ROTR (cv5 XOR v9) 12;
          v1 = v1 + (v5 + m3); v13 = ROTR (v13 XOR v1) 8; v9 = v9 + v13; v5 = ROTR (v5 XOR v9) 7;
        v2 = cv2 + cv6 + m4; v14 = ROTR (52 XOR v2) 16; v10 = iv2 + v14; v6 = ROTR (cv6 XOR v10) 12;
          v2 = v2 + (v6 + m5); v14 = ROTR (v14 XOR v2) 8; v10 = v10 + v14; v6 = ROTR (v6 XOR v10) 7;
        v3 = cv3 + cv7 + m6; v15 = ROTR (10 XOR v3) 16; v11 = iv3 + v15; v7 = ROTR (cv7 XOR v11) 12;
          v3 = v3 + (v7 + m7); v15 = ROTR (v15 XOR v3) 8; v11 = v11 + v15; v7 = ROTR (v7 XOR v11) 7;
        v0 = v0 + v5 + m8; v15 = ROTR (v15 XOR v0) 16; v10 = v10 + v15; v5 = ROTR (v5 XOR v10) 12;
          v0 = v0 + (v5 + m9); v15 = ROTR (v15 XOR v0) 8; v10 = v10 + v15; v5 = ROTR (v5 XOR v10) 7;
        v1 = v1 + v6 + m10; v12 = ROTR (v12 XOR v1) 16; v11 = v11 + v12; v6 = ROTR (v6 XOR v11) 12;
          v1 = v1 + (v6 + m11); v12 = ROTR (v12 XOR v1) 8; v11 = v11 + v12; v6 = ROTR (v6 XOR v11) 7;
        v2 = v2 + v7 + m12; v13 = ROTR (v13 XOR v2) 16; v8 = v8 + v13; v7 = ROTR (v7 XOR v8) 12;
          v2 = v2 + v7; v13 = ROTR (v13 XOR v2) 8; v8 = v8 + v13; v7 = ROTR (v7 XOR v8) 7;
        v3 = v3 + v4; v14 = ROTR (v14 XOR v3) 16; v9 = v9 + v14; v4 = ROTR (v4 XOR v9) 12;
          v3 = v3 + v4; v14 = ROTR (v14 XOR v3) 8; v9 = v9 + v14; v4 = ROTR (v4 XOR v9) 7
     in (v0, v1, v2, v3, v4, v5, v6, v7, v8, v9, v10, v11, v12, v13, v14, v15))"

definition cl_round2 :: "state16 \<Rightarrow> u32 \<Rightarrow> u32 \<Rightarrow> u32 \<Rightarrow> u32 \<Rightarrow> u32 \<Rightarrow> u32 \<Rightarrow> u32 \<Rightarrow> u32 \<Rightarrow> u32 \<Rightarrow> u32 \<Rightarrow> u32 \<Rightarrow> u32 \<Rightarrow> u32 \<Rightarrow> state16" where
  "cl_round2 s m0 m1 m2 m3 m4 m5 m6 m7 m8 m9 m10 m11 m12 =
    (case s of (v0, v1, v2, v3, v4, v5, v6, v7, v8, v9, v10, v11, v12, v13, v14, v15) \<Rightarrow> let
        v0 = v0 + v4 + m2; v12 = ROTR (v12 XOR v0) 16; v8 = v8 + v12; v4 = ROTR (v4 XOR v8) 12;
          v0 = v0 + (v4 + m6); v12 = ROTR (v12 XOR v0) 8; v8 = v8 + v12; v4 = ROTR (v4 XOR v8) 7;
        v1 = v1 + v5 + m3; v13 = ROTR (v13 XOR v1) 16; v9 = v9 + v13; v5 = ROTR (v5 XOR v9) 12;
          v1 = v1 + (v5 + m10); v13 = ROTR (v13 XOR v1) 8; v9 = v9 + v13; v5 = ROTR (v5 XOR v9) 7;
        v2 = v2 + v6 + m7; v14 = ROTR (v14 XOR v2) 16; v10 = v10 + v14; v6 = ROTR (v6 XOR v10) 12;
          v2 = v2 + (v6 + m0); v14 = ROTR (v14 XOR v2) 8; v10 = v10 + v14; v6 = ROTR (v6 XOR v10) 7;
        v3 = v3 + v7 + m4; v15 = ROTR (v15 XOR v3) 16; v11 = v11 + v15; v7 = ROTR (v7 XOR v11) 12;
          v3 = v3 + v7; v15 = ROTR (v15 XOR v3) 8; v11 = v11 + v15; v7 = ROTR (v7 XOR v11) 7;
        v0 = v0 + v5 + m1; v15 = ROTR (v15 XOR v0) 16; v10 = v10 + v15; v5 = ROTR (v5 XOR v10) 12;
          v0 = v0 + (v5 + m11); v15 = ROTR (v15 XOR v0) 8; v10 = v10 + v15; v5 = ROTR (v5 XOR v10) 7;
        v1 = v1 + v6 + m12; v12 = ROTR (v12 XOR v1) 16; v11 = v11 + v12; v6 = ROTR (v6 XOR v11) 12;
          v1 = v1 + (v6 + m5); v12 = ROTR (v12 XOR v1) 8; v11 = v11 + v12; v6 = ROTR (v6 XOR v11) 7;
        v2 = v2 + v7 + m9; v13 = ROTR (v13 XOR v2) 16; v8 = v8 + v13; v7 = ROTR (v7 XOR v8) 12;
          v2 = v2 + v7; v13 = ROTR (v13 XOR v2) 8; v8 = v8 + v13; v7 = ROTR (v7 XOR v8) 7;
        v3 = v3 + v4; v14 = ROTR (v14 XOR v3) 16; v9 = v9 + v14; v4 = ROTR (v4 XOR v9) 12;
          v3 = v3 + (v4 + m8); v14 = ROTR (v14 XOR v3) 8; v9 = v9 + v14; v4 = ROTR (v4 XOR v9) 7
     in (v0, v1, v2, v3, v4, v5, v6, v7, v8, v9, v10, v11, v12, v13, v14, v15))"

definition cl_round3 :: "state16 \<Rightarrow> u32 \<Rightarrow> u32 \<Rightarrow> u32 \<Rightarrow> u32 \<Rightarrow> u32 \<Rightarrow> u32 \<Rightarrow> u32 \<Rightarrow> u32 \<Rightarrow> u32 \<Rightarrow> u32 \<Rightarrow> u32 \<Rightarrow> u32 \<Rightarrow> u32 \<Rightarrow> state16" where
  "cl_round3 s m0 m1 m2 m3 m4 m5 m6 m7 m8 m9 m10 m11 m12 =
    (case s of (v0, v1, v2, v3, v4, v5, v6, v7, v8, v9, v10, v11, v12, v13, v14, v15) \<Rightarrow> let
        v0 = v0 + v4 + m3; v12 = ROTR (v12 XOR v0) 16; v8 = v8 + v12; v4 = ROTR (v4 XOR v8) 12;
          v0 = v0 + (v4 + m4); v12 = ROTR (v12 XOR v0) 8; v8 = v8 + v12; v4 = ROTR (v4 XOR v8) 7;
        v1 = v1 + v5 + m10; v13 = ROTR (v13 XOR v1) 16; v9 = v9 + v13; v5 = ROTR (v5 XOR v9) 12;
          v1 = v1 + (v5 + m12); v13 = ROTR (v13 XOR v1) 8; v9 = v9 + v13; v5 = ROTR (v5 XOR v9) 7;
        v2 = v2 + v6; v14 = ROTR (v14 XOR v2) 16; v10 = v10 + v14; v6 = ROTR (v6 XOR v10) 12;
          v2 = v2 + (v6 + m2); v14 = ROTR (v14 XOR v2) 8; v10 = v10 + v14; v6 = ROTR (v6 XOR v10) 7;
        v3 = v3 + v7 + m7; v15 = ROTR (v15 XOR v3) 16; v11 = v11 + v15; v7 = ROTR (v7 XOR v11) 12;
          v3 = v3 + v7; v15 = ROTR (v15 XOR v3) 8; v11 = v11 + v15; v7 = ROTR (v7 XOR v11) 7;
        v0 = v0 + v5 + m6; v15 = ROTR (v15 XOR v0) 16; v10 = v10 + v15; v5 = ROTR (v5 XOR v10) 12;
          v0 = v0 + (v5 + m5); v15 = ROTR (v15 XOR v0) 8; v10 = v10 + v15; v5 = ROTR (v5 XOR v10) 7;
        v1 = v1 + v6 + m9; v12 = ROTR (v12 XOR v1) 16; v11 = v11 + v12; v6 = ROTR (v6 XOR v11) 12;
          v1 = v1 + (v6 + m0); v12 = ROTR (v12 XOR v1) 8; v11 = v11 + v12; v6 = ROTR (v6 XOR v11) 7;
        v2 = v2 + v7 + m11; v13 = ROTR (v13 XOR v2) 16; v8 = v8 + v13; v7 = ROTR (v7 XOR v8) 12;
          v2 = v2 + v7; v13 = ROTR (v13 XOR v2) 8; v8 = v8 + v13; v7 = ROTR (v7 XOR v8) 7;
        v3 = v3 + v4 + m8; v14 = ROTR (v14 XOR v3) 16; v9 = v9 + v14; v4 = ROTR (v4 XOR v9) 12;
          v3 = v3 + (v4 + m1); v14 = ROTR (v14 XOR v3) 8; v9 = v9 + v14; v4 = ROTR (v4 XOR v9) 7
     in (v0, v1, v2, v3, v4, v5, v6, v7, v8, v9, v10, v11, v12, v13, v14, v15))"

definition cl_round4 :: "state16 \<Rightarrow> u32 \<Rightarrow> u32 \<Rightarrow> u32 \<Rightarrow> u32 \<Rightarrow> u32 \<Rightarrow> u32 \<Rightarrow> u32 \<Rightarrow> u32 \<Rightarrow> u32 \<Rightarrow> u32 \<Rightarrow> u32 \<Rightarrow> u32 \<Rightarrow> u32 \<Rightarrow> state16" where
  "cl_round4 s m0 m1 m2 m3 m4 m5 m6 m7 m8 m9 m10 m11 m12 =
    (case s of (v0, v1, v2, v3, v4, v5, v6, v7, v8, v9, v10, v11, v12, v13, v14, v15) \<Rightarrow> let
        v0 = v0 + v4 + m10; v12 = ROTR (v12 XOR v0) 16; v8 = v8 + v12; v4 = ROTR (v4 XOR v8) 12;
          v0 = v0 + (v4 + m7); v12 = ROTR (v12 XOR v0) 8; v8 = v8 + v12; v4 = ROTR (v4 XOR v8) 7;
        v1 = v1 + v5 + m12; v13 = ROTR (v13 XOR v1) 16; v9 = v9 + v13; v5 = ROTR (v5 XOR v9) 12;
          v1 = v1 + (v5 + m9); v13 = ROTR (v13 XOR v1) 8; v9 = v9 + v13; v5 = ROTR (v5 XOR v9) 7;
        v2 = v2 + v6; v14 = ROTR (v14 XOR v2) 16; v10 = v10 + v14; v6 = ROTR (v6 XOR v10) 12;
          v2 = v2 + (v6 + m3); v14 = ROTR (v14 XOR v2) 8; v10 = v10 + v14; v6 = ROTR (v6 XOR v10) 7;
        v3 = v3 + v7; v15 = ROTR (v15 XOR v3) 16; v11 = v11 + v15; v7 = ROTR (v7 XOR v11) 12;
          v3 = v3 + v7; v15 = ROTR (v15 XOR v3) 8; v11 = v11 + v15; v7 = ROTR (v7 XOR v11) 7;
        v0 = v0 + v5 + m4; v15 = ROTR (v15 XOR v0) 16; v10 = v10 + v15; v5 = ROTR (v5 XOR v10) 12;
          v0 = v0 + (v5 + m0); v15 = ROTR (v15 XOR v0) 8; v10 = v10 + v15; v5 = ROTR (v5 XOR v10) 7;
        v1 = v1 + v6 + m11; v12 = ROTR (v12 XOR v1) 16; v11 = v11 + v12; v6 = ROTR (v6 XOR v11) 12;
          v1 = v1 + (v6 + m2); v12 = ROTR (v12 XOR v1) 8; v11 = v11 + v12; v6 = ROTR (v6 XOR v11) 7;
        v2 = v2 + v7 + m5; v13 = ROTR (v13 XOR v2) 16; v8 = v8 + v13; v7 = ROTR (v7 XOR v8) 12;
          v2 = v2 + (v7 + m8); v13 = ROTR (v13 XOR v2) 8; v8 = v8 + v13; v7 = ROTR (v7 XOR v8) 7;
        v3 = v3 + v4 + m1; v14 = ROTR (v14 XOR v3) 16; v9 = v9 + v14; v4 = ROTR (v4 XOR v9) 12;
          v3 = v3 + (v4 + m6); v14 = ROTR (v14 XOR v3) 8; v9 = v9 + v14; v4 = ROTR (v4 XOR v9) 7
     in (v0, v1, v2, v3, v4, v5, v6, v7, v8, v9, v10, v11, v12, v13, v14, v15))"

definition cl_round5 :: "state16 \<Rightarrow> u32 \<Rightarrow> u32 \<Rightarrow> u32 \<Rightarrow> u32 \<Rightarrow> u32 \<Rightarrow> u32 \<Rightarrow> u32 \<Rightarrow> u32 \<Rightarrow> u32 \<Rightarrow> u32 \<Rightarrow> u32 \<Rightarrow> u32 \<Rightarrow> u32 \<Rightarrow> state16" where
  "cl_round5 s m0 m1 m2 m3 m4 m5 m6 m7 m8 m9 m10 m11 m12 =
    (case s of (v0, v1, v2, v3, v4, v5, v6, v7, v8, v9, v10, v11, v12, v13, v14, v15) \<Rightarrow> let
        v0 = v0 + v4 + m12; v12 = ROTR (v12 XOR v0) 16; v8 = v8 + v12; v4 = ROTR (v4 XOR v8) 12;
          v0 = v0 + v4; v12 = ROTR (v12 XOR v0) 8; v8 = v8 + v12; v4 = ROTR (v4 XOR v8) 7;
        v1 = v1 + v5 + m9; v13 = ROTR (v13 XOR v1) 16; v9 = v9 + v13; v5 = ROTR (v5 XOR v9) 12;
          v1 = v1 + (v5 + m11); v13 = ROTR (v13 XOR v1) 8; v9 = v9 + v13; v5 = ROTR (v5 XOR v9) 7;
        v2 = v2 + v6; v14 = ROTR (v14 XOR v2) 16; v10 = v10 + v14; v6 = ROTR (v6 XOR v10) 12;
          v2 = v2 + (v6 + m10); v14 = ROTR (v14 XOR v2) 8; v10 = v10 + v14; v6 = ROTR (v6 XOR v10) 7;
        v3 = v3 + v7; v15 = ROTR (v15 XOR v3) 16; v11 = v11 + v15; v7 = ROTR (v7 XOR v11) 12;
          v3 = v3 + (v7 + m8); v15 = ROTR (v15 XOR v3) 8; v11 = v11 + v15; v7 = ROTR (v7 XOR v11) 7;
        v0 = v0 + v5 + m7; v15 = ROTR (v15 XOR v0) 16; v10 = v10 + v15; v5 = ROTR (v5 XOR v10) 12;
          v0 = v0 + (v5 + m2); v15 = ROTR (v15 XOR v0) 8; v10 = v10 + v15; v5 = ROTR (v5 XOR v10) 7;
        v1 = v1 + v6 + m5; v12 = ROTR (v12 XOR v1) 16; v11 = v11 + v12; v6 = ROTR (v6 XOR v11) 12;
          v1 = v1 + (v6 + m3); v12 = ROTR (v12 XOR v1) 8; v11 = v11 + v12; v6 = ROTR (v6 XOR v11) 7;
        v2 = v2 + v7 + m0; v13 = ROTR (v13 XOR v2) 16; v8 = v8 + v13; v7 = ROTR (v7 XOR v8) 12;
          v2 = v2 + (v7 + m1); v13 = ROTR (v13 XOR v2) 8; v8 = v8 + v13; v7 = ROTR (v7 XOR v8) 7;
        v3 = v3 + v4 + m6; v14 = ROTR (v14 XOR v3) 16; v9 = v9 + v14; v4 = ROTR (v4 XOR v9) 12;
          v3 = v3 + (v4 + m4); v14 = ROTR (v14 XOR v3) 8; v9 = v9 + v14; v4 = ROTR (v4 XOR v9) 7
     in (v0, v1, v2, v3, v4, v5, v6, v7, v8, v9, v10, v11, v12, v13, v14, v15))"

definition cl_round6 :: "state16 \<Rightarrow> u32 \<Rightarrow> u32 \<Rightarrow> u32 \<Rightarrow> u32 \<Rightarrow> u32 \<Rightarrow> u32 \<Rightarrow> u32 \<Rightarrow> u32 \<Rightarrow> u32 \<Rightarrow> u32 \<Rightarrow> u32 \<Rightarrow> u32 \<Rightarrow> u32 \<Rightarrow> state16" where
  "cl_round6 s m0 m1 m2 m3 m4 m5 m6 m7 m8 m9 m10 m11 m12 =
    (case s of (v0, v1, v2, v3, v4, v5, v6, v7, v8, v9, v10, v11, v12, v13, v14, v15) \<Rightarrow> let
        v0 = v0 + v4 + m9; v12 = ROTR (v12 XOR v0) 16; v8 = v8 + v12; v4 = ROTR (v4 XOR v8) 12;
          v0 = v0 + v4; v12 = ROTR (v12 XOR v0) 8; v8 = v8 + v12; v4 = ROTR (v4 XOR v8) 7;
        v1 = v1 + v5 + m11; v13 = ROTR (v13 XOR v1) 16; v9 = v9 + v13; v5 = ROTR (v5 XOR v9) 12;
          v1 = v1 + (v5 + m5); v13 = ROTR (v13 XOR v1) 8; v9 = v9 + v13; v5 = ROTR (v5 XOR v9) 7;
        v2 = v2 + v6 + m8; v14 = ROTR (v14 XOR v2) 16; v10 = v10 + v14; v6 = ROTR (v6 XOR v10) 12;
          v2 = v2 + (v6 + m12); v14 = ROTR (v14 XOR v2) 8; v10 = v10 + v14; v6 = ROTR (v6 XOR v10) 7;
        v3 = v3 + v7; v15 = ROTR (v15 XOR v3) 16; v11 = v11 + v15; v7 = ROTR (v7 XOR v11) 12;
          v3 = v3 + (v7 + m1); v15 = ROTR (v15 XOR v3) 8; v11 = v11 + v15; v7 = ROTR (v7 XOR v11) 7;
        v0 = v0 + v5; v15 = ROTR (v15 XOR v0) 16; v10 = v10 + v15; v5 = ROTR (v5 XOR v10) 12;
          v0 = v0 + (v5 + m3); v15 = ROTR (v15 XOR v0) 8; v10 = v10 + v15; v5 = ROTR (v5 XOR v10) 7;
        v1 = v1 + v6 + m0; v12 = ROTR (v12 XOR v1) 16; v11 = v11 + v12; v6 = ROTR (v6 XOR v11) 12;
          v1 = v1 + (v6 + m10); v12 = ROTR (v12 XOR v1) 8; v11 = v11 + v12; v6 = ROTR (v6 XOR v11) 7;
        v2 = v2 + v7 + m2; v13 = ROTR (v13 XOR v2) 16; v8 = v8 + v13; v7 = ROTR (v7 XOR v8) 12;
          v2 = v2 + (v7 + m6); v13 = ROTR (v13 XOR v2) 8; v8 = v8 + v13; v7 = ROTR (v7 XOR v8) 7;
        v3 = v3 + v4 + m4; v14 = ROTR (v14 XOR v3) 16; v9 = v9 + v14; v4 = ROTR (v4 XOR v9) 12;
          v3 = v3 + (v4 + m7); v14 = ROTR (v14 XOR v3) 8; v9 = v9 + v14; v4 = ROTR (v4 XOR v9) 7
     in (v0, v1, v2, v3, v4, v5, v6, v7, v8, v9, v10, v11, v12, v13, v14, v15))"

definition cl_round7 :: "state16 \<Rightarrow> u32 \<Rightarrow> u32 \<Rightarrow> u32 \<Rightarrow> u32 \<Rightarrow> u32 \<Rightarrow> u32 \<Rightarrow> u32 \<Rightarrow> u32 \<Rightarrow> u32 \<Rightarrow> u32 \<Rightarrow> u32 \<Rightarrow> u32 \<Rightarrow> u32 \<Rightarrow> state16" where
  "cl_round7 s m0 m1 m2 m3 m4 m5 m6 m7 m8 m9 m10 m11 m12 =
    (case s of (v0, v1, v2, v3, v4, v5, v6, v7, v8, v9, v10, v11, v12, v13, v14, v15) \<Rightarrow> let
        v0 = v0 + v4 + m11; v12 = ROTR (v12 XOR v0) 16; v8 = v8 + v12; v4 = ROTR (v4 XOR v8) 12;
          v0 = v0 + v4; v12 = ROTR (v12 XOR v0) 8; v8 = v8 + v12; v4 = ROTR (v4 XOR v8) 7;
        v1 = v1 + v5 + m5; v13 = ROTR (v13 XOR v1) 16; v9 = v9 + v13; v5 = ROTR (v5 XOR v9) 12;
          v1 = v1 + (v5 + m0); v13 = ROTR (v13 XOR v1) 8; v9 = v9 + v13; v5 = ROTR (v5 XOR v9) 7;
        v2 = v2 + v6 + m1; v14 = ROTR (v14 XOR v2) 16; v10 = v10 + v14; v6 = ROTR (v6 XOR v10) 12;
          v2 = v2 + (v6 + m9); v14 = ROTR (v14 XOR v2) 8; v10 = v10 + v14; v6 = ROTR (v6 XOR v10) 7;
        v3 = v3 + v7 + m8; v15 = ROTR (v15 XOR v3) 16; v11 = v11 + v15; v7 = ROTR (v7 XOR v11) 12;
          v3 = v3 + (v7 + m6); v15 = ROTR (v15 XOR v3) 8; v11 = v11 + v15; v7 = ROTR (v7 XOR v11) 7;
        v0 = v0 + v5; v15 = ROTR (v15 XOR v0) 16; v10 = v10 + v15; v5 = ROTR (v5 XOR v10) 12;
          v0 = v0 + (v5 + m10); v15 = ROTR (v15 XOR v0) 8; v10 = v10 + v15; v5 = ROTR (v5 XOR v10) 7;
        v1 = v1 + v6 + m2; v12 = ROTR (v12 XOR v1) 16; v11 = v11 + v12; v6 = ROTR (v6 XOR v11) 12;
          v1 = v1 + (v6 + m12); v12 = ROTR (v12 XOR v1) 8; v11 = v11 + v12; v6 = ROTR (v6 XOR v11) 7;
        v2 = v2 + v7 + m3; v13 = ROTR (v13 XOR v2) 16; v8 = v8 + v13; v7 = ROTR (v7 XOR v8) 12;
          v2 = v2 + (v7 + m4); v13 = ROTR (v13 XOR v2) 8; v8 = v8 + v13; v7 = ROTR (v7 XOR v8) 7;
        v3 = v3 + v4 + m7; v14 = ROTR (v14 XOR v3) 16; v9 = v9 + v14; v4 = ROTR (v4 XOR v9) 12;
          v3 = v3 + v4; v14 = ROTR (v14 XOR v3) 8; v9 = v9 + v14; v4 = ROTR (v4 XOR v9) 7
     in (v0, v1, v2, v3, v4, v5, v6, v7, v8, v9, v10, v11, v12, v13, v14, v15))"

text \<open>
  One work item up to its test \<open>if (v7 ^ v15)\<close>. \<open>cv\<close> holds the arguments \<open>cv0..cv7\<close>, \<open>a\<close>
  the twelve arguments \<open>m0, m1, m2, m4, .., m12\<close>; \<open>m3\<close> is \<open>get_global_id(0)\<close>.
\<close>

definition search_word :: "u32 list \<Rightarrow> u32 list \<Rightarrow> u32 \<Rightarrow> u32" where
  "search_word cv a m3 =
    (let s = cl_round1 (cv ! 0) (cv ! 1) (cv ! 2) (cv ! 3) (cv ! 4) (cv ! 5) (cv ! 6) (cv ! 7)
           (a ! 0) (a ! 1) (a ! 2) m3 (a ! 3) (a ! 4) (a ! 5) (a ! 6) (a ! 7) (a ! 8) (a ! 9) (a ! 10) (a ! 11);
         s = cl_round2 s (a ! 0) (a ! 1) (a ! 2) m3 (a ! 3) (a ! 4) (a ! 5) (a ! 6) (a ! 7) (a ! 8) (a ! 9) (a ! 10) (a ! 11);
         s = cl_round3 s (a ! 0) (a ! 1) (a ! 2) m3 (a ! 3) (a ! 4) (a ! 5) (a ! 6) (a ! 7) (a ! 8) (a ! 9) (a ! 10) (a ! 11);
         s = cl_round4 s (a ! 0) (a ! 1) (a ! 2) m3 (a ! 3) (a ! 4) (a ! 5) (a ! 6) (a ! 7) (a ! 8) (a ! 9) (a ! 10) (a ! 11);
         s = cl_round5 s (a ! 0) (a ! 1) (a ! 2) m3 (a ! 3) (a ! 4) (a ! 5) (a ! 6) (a ! 7) (a ! 8) (a ! 9) (a ! 10) (a ! 11);
         s = cl_round6 s (a ! 0) (a ! 1) (a ! 2) m3 (a ! 3) (a ! 4) (a ! 5) (a ! 6) (a ! 7) (a ! 8) (a ! 9) (a ! 10) (a ! 11);
         s = cl_round7 s (a ! 0) (a ! 1) (a ! 2) m3 (a ! 3) (a ! 4) (a ! 5) (a ! 6) (a ! 7) (a ! 8) (a ! 9) (a ! 10) (a ! 11)
     in (case s of (v0, v1, v2, v3, v4, v5, v6, v7, v8, v9, v10, v11, v12, v13, v14, v15) \<Rightarrow> v7 XOR v15))"

definition kernel_hit :: "u32 list \<Rightarrow> u32 list \<Rightarrow> u32 \<Rightarrow> bool" where
  "kernel_hit cv a m3 \<longleftrightarrow> search_word cv a m3 = 0"

section \<open>The kernel agrees with the host\<close>

lemma rotl_shift: "0 < s \<Longrightarrow> s < 32 \<Longrightarrow> word_rotl s x = push_bit s x OR drop_bit (32 - s) x"
  for x :: u32
proof (rule bit_word_eqI)
  fix n assume "n < LENGTH(32)" and s: "0 < s" "s < 32"
  then have n: "n < 32" by simp
  show "bit (word_rotl s x) n = bit (push_bit s x OR drop_bit (32 - s) x) n"
  proof (cases "s \<le> n")
    case True
    then have "(n + 32 - s) mod 32 = n - s" using n by (simp add: mod_if)
    moreover have "\<not> bit x (32 + n - s)" using True by (auto dest: bit_imp_le_length)
    ultimately show ?thesis using n s True by (simp add: bit_simps bit_word_rotl_iff)
  next
    case False
    then have "(n + 32 - s) mod 32 = 32 + n - s" using n s by (simp add: mod_if add.commute)
    then show ?thesis using n s False by (simp add: bit_simps bit_word_rotl_iff)
  qed
qed

lemma RotateLeft32_ROTR:
  "RotateLeft32 x (-16) = ROTR x 16" "RotateLeft32 x (-12) = ROTR x 12"
  "RotateLeft32 x (-8) = ROTR x 8" "RotateLeft32 x (-7) = ROTR x 7"
  by (simp_all add: RotateLeft32_def ROTR_def rotl_shift)

lemma xor_zero_left: "0 XOR x = x" for x :: u32
  by simp

lemma IV_nth:
  "IV ! 0 = 0x6a09e667" "IV ! 1 = 0xbb67ae85" "IV ! 2 = 0x3c6ef372" "IV ! 3 = 0xa54ff53a"
  by (simp_all add: IV_def)

lemma cl_round1_host:
  "cl_round1 cv0 cv1 cv2 cv3 cv4 cv5 cv6 cv7 m0 m1 m2 m3 m4 m5 m6 m7 m8 m9 m10 m11 m12 =
   round16 (cv0, cv1, cv2, cv3, cv4, cv5, cv6, cv7, IV ! 0, IV ! 1, IV ! 2, IV ! 3, 0, 0, 52, 10) m0 m1 m2 m3 m4 m5 m6 m7 m8 m9 m10 m11 m12 0 0 0"
  by (simp only: cl_round1_def round16_def g_def Let_def prod.case RotateLeft32_ROTR IV_nth
      add.assoc add_0_right xor_zero_left)

lemma cl_round2_host:
  "cl_round2 s m0 m1 m2 m3 m4 m5 m6 m7 m8 m9 m10 m11 m12 =
   round16 s m2 m6 m3 m10 m7 m0 m4 0 m1 m11 m12 m5 m9 0 0 m8"
  by (cases s) (simp only: cl_round2_def round16_def g_def Let_def prod.case RotateLeft32_ROTR
      add.assoc add_0_right)

lemma cl_round3_host:
  "cl_round3 s m0 m1 m2 m3 m4 m5 m6 m7 m8 m9 m10 m11 m12 =
   round16 s m3 m4 m10 m12 0 m2 m7 0 m6 m5 m9 m0 m11 0 m8 m1"
  by (cases s) (simp only: cl_round3_def round16_def g_def Let_def prod.case RotateLeft32_ROTR
      add.assoc add_0_right)

lemma cl_round4_host:
  "cl_round4 s m0 m1 m2 m3 m4 m5 m6 m7 m8 m9 m10 m11 m12 =
   round16 s m10 m7 m12 m9 0 m3 0 0 m4 m0 m11 m2 m5 m8 m1 m6"
  by (cases s) (simp only: cl_round4_def round16_def g_def Let_def prod.case RotateLeft32_ROTR
      add.assoc add_0_right)

lemma cl_round5_host:
  "cl_round5 s m0 m1 m2 m3 m4 m5 m6 m7 m8 m9 m10 m11 m12 =
   round16 s m12 0 m9 m11 0 m10 0 m8 m7 m2 m5 m3 m0 m1 m6 m4"
  by (cases s) (simp only: cl_round5_def round16_def g_def Let_def prod.case RotateLeft32_ROTR
      add.assoc add_0_right)

lemma cl_round6_host:
  "cl_round6 s m0 m1 m2 m3 m4 m5 m6 m7 m8 m9 m10 m11 m12 =
   round16 s m9 0 m11 m5 m8 m12 0 m1 0 m3 m0 m10 m2 m6 m4 m7"
  by (cases s) (simp only: cl_round6_def round16_def g_def Let_def prod.case RotateLeft32_ROTR
      add.assoc add_0_right)

lemma cl_round7_host:
  "cl_round7 s m0 m1 m2 m3 m4 m5 m6 m7 m8 m9 m10 m11 m12 =
   round16 s m11 0 m5 m0 m1 m9 m8 m6 0 m10 m2 m12 m3 m4 m7 0"
  by (cases s) (simp only: cl_round7_def round16_def g_def Let_def prod.case RotateLeft32_ROTR
      add.assoc add_0_right)

text \<open>The sixteen message words of the final block: the thirteen of the header tail, then zeros.\<close>

definition final_words :: "u32 list \<Rightarrow> u32 \<Rightarrow> u32 list" where
  [go_eval]: "final_words a m3 = take 3 a @ [m3] @ drop 3 a @ [0, 0, 0]"

lemma final_words_nth:
  assumes "length a = 12"
  shows "final_words a m3 ! 0 = a ! 0"
    "final_words a m3 ! 1 = a ! 1"
    "final_words a m3 ! 2 = a ! 2"
    "final_words a m3 ! 3 = m3"
    "final_words a m3 ! 4 = a ! 3"
    "final_words a m3 ! 5 = a ! 4"
    "final_words a m3 ! 6 = a ! 5"
    "final_words a m3 ! 7 = a ! 6"
    "final_words a m3 ! 8 = a ! 7"
    "final_words a m3 ! 9 = a ! 8"
    "final_words a m3 ! 10 = a ! 9"
    "final_words a m3 ! 11 = a ! 10"
    "final_words a m3 ! 12 = a ! 11"
    "final_words a m3 ! 13 = 0"
    "final_words a m3 ! 14 = 0"
    "final_words a m3 ! 15 = 0"
  using assms by (simp_all add: final_words_def nth_append)

lemma out16_last: "out16 s ! 7 = (case s of (v0, v1, v2, v3, v4, v5, v6, v7, v8, v9, v10, v11, v12, v13, v14, v15) \<Rightarrow> v7 XOR v15)"
  by (simp add: out16_def split: prod.split)

lemma ten: "(2 :: u32) OR 8 = 10"
  by simp

lemma search_word_compress:
  assumes "length a = 12"
  shows "search_word cv a m3 = compress cv (final_words a m3) 52 (flagChunkEnd OR flagRoot) ! 7"
  using assms
  by (simp only: search_word_def compress_rounds Let_def cl_round1_host cl_round2_host
      cl_round3_host cl_round4_host cl_round5_host cl_round6_host cl_round7_host
      final_words_nth out16_last flagChunkEnd_def flagRoot_def ten)

end
