(* ===== verification/Launch.thy ===== *)
theory Launch
  imports Kernel
begin

text \<open>
  One launch of the OpenCL kernel (src/blake3.cl): the work items run concurrently and share
  the candidate buffer through the unlocked \<open>output[++output[0]] = m3\<close>. The results say what
  the host may rely on when it reads the buffer back, whatever the interleaving.
\<close>

section \<open>A launch: work items racing for the candidate buffer\<close>

text \<open>
  The items of one launch are numbered \<open>0..n-1\<close> (their global id, which is the nonce).
  An item without a hit returns. An item with a hit performs \<open>output[++output[0]] = m3\<close> as
  three memory accesses that other items may interleave with: it loads \<open>output[0]\<close>, stores
  the incremented count, and stores its nonce at that index. The buffer is a map from
  indices to words, so that a store beyond its 64 words is visible as such.
\<close>

datatype item = Waiting | Loaded u32 | Bumped u32 | Returned

record gpu =
  items :: "u32 \<Rightarrow> item"
  outbuf :: "nat \<Rightarrow> u32"

inductive gpu_step :: "(u32 \<Rightarrow> bool) \<Rightarrow> nat \<Rightarrow> gpu \<Rightarrow> gpu \<Rightarrow> bool" for hit n where
  no_hit: "unat i < n \<Longrightarrow> items s i = Waiting \<Longrightarrow> \<not> hit i \<Longrightarrow>
     gpu_step hit n s (s\<lparr>items := (items s)(i := Returned)\<rparr>)"
| load: "unat i < n \<Longrightarrow> items s i = Waiting \<Longrightarrow> hit i \<Longrightarrow>
     gpu_step hit n s (s\<lparr>items := (items s)(i := Loaded (outbuf s 0))\<rparr>)"
| bump: "unat i < n \<Longrightarrow> items s i = Loaded r \<Longrightarrow>
     gpu_step hit n s (s\<lparr>items := (items s)(i := Bumped (r + 1)), outbuf := (outbuf s)(0 := r + 1)\<rparr>)"
| emit: "unat i < n \<Longrightarrow> items s i = Bumped k \<Longrightarrow>
     gpu_step hit n s (s\<lparr>items := (items s)(i := Returned), outbuf := (outbuf s)(unat k := i)\<rparr>)"

text \<open>\<open>runKernel\<close> has cleared the count; the other words hold whatever was there before.\<close>

definition gpu_start :: "gpu \<Rightarrow> bool" where
  "gpu_start s \<longleftrightarrow> items s = (\<lambda>_. Waiting) \<and> outbuf s 0 = 0"

inductive gpu_reach :: "(u32 \<Rightarrow> bool) \<Rightarrow> nat \<Rightarrow> gpu \<Rightarrow> bool" for hit n where
  start: "gpu_start s \<Longrightarrow> gpu_reach hit n s"
| step: "gpu_reach hit n s \<Longrightarrow> gpu_step hit n s t \<Longrightarrow> gpu_reach hit n t"

definition gpu_done :: "nat \<Rightarrow> gpu \<Rightarrow> bool" where
  "gpu_done n s \<longleftrightarrow> (\<forall>i. unat i < n \<longrightarrow> items s i = Returned)"

inductive_cases gpu_stepE: "gpu_step hit n s t"

text \<open>The items that have already stored a count.\<close>

definition bumped :: "(u32 \<Rightarrow> bool) \<Rightarrow> nat \<Rightarrow> gpu \<Rightarrow> u32 set" where
  "bumped hit n s =
     {i. unat i < n \<and> hit i \<and> (\<exists>k. items s i = Bumped k \<or> items s i = Returned)}"

definition hits :: "(u32 \<Rightarrow> bool) \<Rightarrow> nat \<Rightarrow> u32 set" where
  "hits hit n = {i. unat i < n \<and> hit i}"

text \<open>
  A slot is covered when it holds the nonce of a hit, or an item that is about to store its
  nonce there exists.
\<close>

definition covered :: "(u32 \<Rightarrow> bool) \<Rightarrow> nat \<Rightarrow> gpu \<Rightarrow> nat \<Rightarrow> bool" where
  "covered hit n s k \<longleftrightarrow> outbuf s k \<in> hits hit n \<or> (\<exists>i. unat i < n \<and> items s i = Bumped (of_nat k))"

definition count_ok :: "(u32 \<Rightarrow> bool) \<Rightarrow> nat \<Rightarrow> gpu \<Rightarrow> u32 \<Rightarrow> bool" where
  "count_ok hit n s c \<longleftrightarrow>
     unat c \<le> card (bumped hit n s) \<and> (\<forall>k. 1 \<le> k \<and> k \<le> unat c \<longrightarrow> covered hit n s k)"

definition gpu_inv :: "(u32 \<Rightarrow> bool) \<Rightarrow> nat \<Rightarrow> gpu \<Rightarrow> bool" where
  "gpu_inv hit n s \<longleftrightarrow>
     count_ok hit n s (outbuf s 0)
   \<and> (\<forall>i r. items s i = Loaded r \<longrightarrow> hit i \<and> count_ok hit n s r)
   \<and> (\<forall>i k. items s i = Bumped k \<longrightarrow> hit i \<and> 1 \<le> unat k \<and> unat k \<le> card (bumped hit n s))
   \<and> (bumped hit n s \<noteq> {} \<longrightarrow> 1 \<le> unat (outbuf s 0))"

lemma finite_hits [simp]: "finite (hits hit n)" "finite (bumped hit n s)"
  by simp_all

lemma card_hits_bound: "card (hits hit n) \<le> n"
proof -
  have "inj_on unat (hits hit n)" by (rule inj_onI) (simp add: word_unat_eq_iff)
  moreover have "unat ` hits hit n \<subseteq> {..<n}" by (auto simp: hits_def)
  ultimately show ?thesis using card_inj_on_le [of unat "hits hit n" "{..<n}"] by simp
qed

lemma bumped_subset: "bumped hit n s \<subseteq> hits hit n"
  by (auto simp: bumped_def hits_def)

lemma card_bumped_hits: "card (bumped hit n s) \<le> card (hits hit n)"
  by (rule card_mono) (simp_all add: bumped_subset)

text \<open>A count stays good when the bumped items only grow and covered slots stay covered.\<close>

lemma count_ok_mono:
  assumes "count_ok hit n s c" and "card (bumped hit n s) \<le> card (bumped hit n t)"
    and "\<And>k. 1 \<le> k \<Longrightarrow> k \<le> unat c \<Longrightarrow> covered hit n s k \<Longrightarrow> covered hit n t k"
  shows "count_ok hit n t c"
  using assms by (auto simp: count_ok_def)

lemma gpu_inv_start: "gpu_start s \<Longrightarrow> gpu_inv hit n s"
  by (auto simp: gpu_start_def gpu_inv_def count_ok_def bumped_def)

lemma inv_no_hit:
  assumes "gpu_inv hit n s" and "items s i = Waiting" and "\<not> hit i"
  shows "gpu_inv hit n (s\<lparr>items := (items s)(i := Returned)\<rparr>)"
proof -
  let ?t = "s\<lparr>items := (items s)(i := Returned)\<rparr>"
  have b: "bumped hit n ?t = bumped hit n s" using assms(2,3) by (auto simp: bumped_def)
  have "items ?t j = Bumped x \<longleftrightarrow> items s j = Bumped x" for j x using assms(2) by simp
  then have c: "covered hit n ?t k = covered hit n s k" for k by (simp add: covered_def)
  show ?thesis using assms(1) by (auto simp: gpu_inv_def count_ok_def b c)
qed

lemma inv_load:
  assumes "gpu_inv hit n s" and "items s i = Waiting" and "hit i"
  shows "gpu_inv hit n (s\<lparr>items := (items s)(i := Loaded (outbuf s 0))\<rparr>)"
proof -
  let ?t = "s\<lparr>items := (items s)(i := Loaded (outbuf s 0))\<rparr>"
  have b: "bumped hit n ?t = bumped hit n s" using assms(2) by (auto simp: bumped_def)
  have "items ?t j = Bumped x \<longleftrightarrow> items s j = Bumped x" for j x using assms(2) by simp
  then have c: "covered hit n ?t k = covered hit n s k" for k by (simp add: covered_def)
  show ?thesis using assms(1,3) by (auto simp: gpu_inv_def count_ok_def b c)
qed

lemma unat_Suc_word: "unat r < m \<Longrightarrow> m < 2 ^ 32 \<Longrightarrow> unat (r + 1) = unat r + 1" for r :: u32
  by (simp add: unat_word_ariths)

lemma inv_bump:
  assumes inv: "gpu_inv hit n s" and i: "unat i < n" and pc: "items s i = Loaded r" and n: "n < 2 ^ 32"
  shows "gpu_inv hit n (s\<lparr>items := (items s)(i := Bumped (r + 1)), outbuf := (outbuf s)(0 := r + 1)\<rparr>)"
proof -
  let ?t = "s\<lparr>items := (items s)(i := Bumped (r + 1)), outbuf := (outbuf s)(0 := r + 1)\<rparr>"
  from inv pc have h: "hit i" and r: "count_ok hit n s r" by (auto simp: gpu_inv_def)
  have b: "bumped hit n ?t = insert i (bumped hit n s)" and new: "i \<notin> bumped hit n s"
    using i h pc by (auto simp: bumped_def)
  have "card (bumped hit n s) < card (hits hit n)"
    using new i h bumped_subset [of hit n s] by (intro psubset_card_mono) (auto simp: hits_def)
  then have "unat r < n" using r card_hits_bound [of hit n] by (simp add: count_ok_def)
  then have u: "unat (r + 1) = unat r + 1" using n by (rule unat_Suc_word)
  have card: "card (bumped hit n ?t) = Suc (card (bumped hit n s))" using new by (simp add: b)
  have keep: "covered hit n ?t k" if "1 \<le> k" and "covered hit n s k" for k
    using that pc by (auto simp: covered_def)
  have fresh: "covered hit n ?t (unat (r + 1))"
    using i by (auto simp: covered_def)
  have le: "card (bumped hit n s) \<le> card (bumped hit n ?t)" by (simp add: card)
  have new_ok: "count_ok hit n ?t (r + 1)"
    using r card fresh keep by (auto simp: count_ok_def u le_Suc_eq)
  have old_ok: "count_ok hit n ?t q" if "count_ok hit n s q" for q
    using that le by (rule count_ok_mono) (rule keep)
  have "unat (r + 1) \<le> card (bumped hit n ?t)" using new_ok by (simp add: count_ok_def)
  then show ?thesis
    using inv h new_ok u le by (fastforce simp: gpu_inv_def split: if_splits intro: old_ok)
qed

lemma inv_emit:
  assumes inv: "gpu_inv hit n s" and i: "unat i < n" and pc: "items s i = Bumped k"
  shows "gpu_inv hit n (s\<lparr>items := (items s)(i := Returned), outbuf := (outbuf s)(unat k := i)\<rparr>)"
proof -
  let ?t = "s\<lparr>items := (items s)(i := Returned), outbuf := (outbuf s)(unat k := i)\<rparr>"
  from inv pc have h: "hit i" and k: "1 \<le> unat k" by (auto simp: gpu_inv_def)
  have b: "bumped hit n ?t = bumped hit n s" using i h pc by (auto simp: bumped_def)
  have keep: "covered hit n ?t j" if c: "covered hit n s j" and j: "j < 2 ^ 32" for j
  proof (cases "unat k = j")
    case True
    then show ?thesis using i h by (auto simp: covered_def hits_def)
  next
    case False
    then have "k \<noteq> of_nat j" using j by (auto simp: unat_of_nat take_bit_nat_eq_self)
    then have "items ?t l = Bumped (of_nat j) \<longleftrightarrow> items s l = Bumped (of_nat j)" for l
      using pc by auto
    with c False show ?thesis by (auto simp: covered_def)
  qed
  have z: "outbuf ?t 0 = outbuf s 0" using k by auto
  have "count_ok hit n ?t q" if "count_ok hit n s q" for q
    using that
  proof (rule count_ok_mono)
    fix j assume "j \<le> unat q" and "covered hit n s j"
    moreover have "unat q < 2 ^ 32" using unsigned_less [of q] by simp
    ultimately show "covered hit n ?t j" by (intro keep) auto
  qed (simp add: b)
  then show ?thesis using inv z by (auto simp: gpu_inv_def b split: if_splits)
qed

lemma gpu_step_inv: "gpu_step hit n s t \<Longrightarrow> n < 2 ^ 32 \<Longrightarrow> gpu_inv hit n s \<Longrightarrow> gpu_inv hit n t"
  by (erule gpu_stepE) (auto intro: inv_no_hit inv_load inv_bump inv_emit)

lemma gpu_reach_inv: "gpu_reach hit n s \<Longrightarrow> n < 2 ^ 32 \<Longrightarrow> gpu_inv hit n s"
  by (induction rule: gpu_reach.induct) (auto intro: gpu_inv_start gpu_step_inv)

text \<open>What the host reads after the launch.\<close>

lemma launch_slots:
  assumes "gpu_reach hit n s" and "n < 2 ^ 32" and "gpu_done n s"
    and "1 \<le> k" and "k \<le> unat (outbuf s 0)"
  shows "outbuf s k \<in> hits hit n"
proof -
  have "covered hit n s k"
    using gpu_reach_inv [OF assms(1,2)] assms(4,5) by (auto simp: gpu_inv_def count_ok_def)
  then show ?thesis using assms(3) by (auto simp: covered_def gpu_done_def)
qed

lemma launch_count:
  assumes "gpu_reach hit n s" and "n < 2 ^ 32"
  shows "unat (outbuf s 0) \<le> card (hits hit n)"
  using gpu_reach_inv [OF assms] card_bumped_hits [of hit n s]
  by (auto simp: gpu_inv_def count_ok_def)

lemma launch_reports:
  assumes "gpu_reach hit n s" and "n < 2 ^ 32" and "gpu_done n s" and "hits hit n \<noteq> {}"
  shows "1 \<le> unat (outbuf s 0)"
proof -
  have "bumped hit n s \<noteq> {}"
    using assms(3,4) by (auto simp: bumped_def hits_def gpu_done_def)
  then show ?thesis using gpu_reach_inv [OF assms(1,2)] by (auto simp: gpu_inv_def)
qed

text \<open>Every store of a nonce goes to an index between one and the number of hits.\<close>

lemma launch_index:
  assumes "gpu_reach hit n s" and "n < 2 ^ 32" and "items s i = Bumped k"
  shows "1 \<le> unat k \<and> unat k \<le> card (hits hit n)"
  using gpu_reach_inv [OF assms(1,2)] assms(3) card_bumped_hits [of hit n s]
  by (fastforce simp: gpu_inv_def)

end
