(* ===== verification/Channels.thy ===== *)
theory Channels
  imports Prelude
begin

text \<open>
  Buffered Go channels: \<open>make(chan T, n)\<close>, a send that has to wait while the buffer is full,
  a receive that has to wait while it is empty. The locale \<open>fifo\<close> is the contract its
  users rely on: what was sent comes out once, in order, and never more than the
  capacity is held.
\<close>

record 'a chan =
  chan_cap :: nat
  chan_buf :: "'a list"

definition make_chan :: "nat \<Rightarrow> 'a chan" where
  [go_eval]: "make_chan n = \<lparr>chan_cap = n, chan_buf = []\<rparr>"

text \<open>\<open>None\<close>: the operation would block now.\<close>

definition chan_send :: "'a chan \<Rightarrow> 'a \<Rightarrow> 'a chan option" where
  [go_eval]: "chan_send c x =
     (if length (chan_buf c) < chan_cap c then Some (c\<lparr>chan_buf := chan_buf c @ [x]\<rparr>) else None)"

definition chan_recv :: "'a chan \<Rightarrow> ('a \<times> 'a chan) option" where
  [go_eval]: "chan_recv c =
     (case chan_buf c of [] \<Rightarrow> None | x # xs \<Rightarrow> Some (x, c\<lparr>chan_buf := xs\<rparr>))"

definition chan_ok :: "'a chan \<Rightarrow> bool" where
  [go_eval]: "chan_ok c \<longleftrightarrow> length (chan_buf c) \<le> chan_cap c"

locale fifo =
  fixes send :: "'c \<Rightarrow> 'a \<Rightarrow> 'c option"
    and recv :: "'c \<Rightarrow> ('a \<times> 'c) option"
    and queued :: "'c \<Rightarrow> 'a list"
    and room :: "'c \<Rightarrow> nat"
    and ok :: "'c \<Rightarrow> bool"
  assumes send_queued: "send c x = Some d \<Longrightarrow> queued d = queued c @ [x]"
    and recv_queued: "recv c = Some (x, d) \<Longrightarrow> queued c = x # queued d"
    and recv_None: "recv c = None \<longleftrightarrow> queued c = []"
    and send_None: "ok c \<Longrightarrow> send c x = None \<longleftrightarrow> room c = length (queued c)"
    and send_room: "send c x = Some d \<Longrightarrow> room d = room c"
    and recv_room: "recv c = Some (x, d) \<Longrightarrow> room d = room c"
    and send_ok: "ok c \<Longrightarrow> send c x = Some d \<Longrightarrow> ok d"
    and recv_ok: "ok c \<Longrightarrow> recv c = Some (x, d) \<Longrightarrow> ok d"
    and ok_room: "ok c \<Longrightarrow> length (queued c) \<le> room c"
begin

text \<open>Sending a list of values one after the other, stopping when one would block.\<close>

primrec send_all :: "'c \<Rightarrow> 'a list \<Rightarrow> 'c option" where
  "send_all c [] = Some c"
| "send_all c (x # xs) = (case send c x of None \<Rightarrow> None | Some d \<Rightarrow> send_all d xs)"

lemma send_all_queued: "send_all c xs = Some d \<Longrightarrow> queued d = queued c @ xs"
  by (induction xs arbitrary: c) (auto split: option.splits dest: send_queued)

lemma send_all_room: "send_all c xs = Some d \<Longrightarrow> room d = room c"
  by (induction xs arbitrary: c) (auto split: option.splits dest: send_room)

lemma send_all_Some_iff:
  "ok c \<Longrightarrow> (\<exists>d. send_all c xs = Some d) \<longleftrightarrow> length (queued c) + length xs \<le> room c"
proof (induction xs arbitrary: c)
  case Nil
  then show ?case by (simp add: ok_room)
next
  case (Cons x xs)
  show ?case
  proof (cases "send c x")
    case None
    then show ?thesis using Cons.prems send_None [of c x] by auto
  next
    case (Some d)
    then have "(\<exists>e. send_all d xs = Some e) \<longleftrightarrow> length (queued d) + length xs \<le> room d"
      using Cons.prems by (intro Cons.IH) (rule send_ok)
    then show ?thesis by (simp add: Some send_queued [OF Some] send_room [OF Some])
  qed
qed

lemma recv_after_send:
  "send c x = Some d \<Longrightarrow> queued c = [] \<Longrightarrow> \<exists>e. recv d = Some (x, e) \<and> queued e = []"
  using recv_queued [of d] recv_None [of d] send_queued [of c x d]
  by (cases "recv d") auto

end

interpretation go_chan: fifo chan_send chan_recv chan_buf chan_cap chan_ok
  by unfold_locales (auto simp: chan_send_def chan_recv_def chan_ok_def split: if_splits list.splits)

lemma chan_ok_make [simp]: "chan_ok (make_chan n)"
  by (simp add: chan_ok_def make_chan_def)

end
