(* ===== verification/Work.thy ===== *)
theory Work
  imports Blake3
begin

text \<open>
  Package work (src/work/work.go): the work item and the places of its fields in the
  header tail. A Go pointer that may be nil is an option.
\<close>

definition TimestampWord :: nat where [go_eval, simp]: "TimestampWord = 2"
definition Nonce0Word :: nat where [go_eval, simp]: "Nonce0Word = 3"
definition Nonce1Word :: nat where [go_eval, simp]: "Nonce1Word = 4"
definition Nonce2Word :: nat where [go_eval, simp]: "Nonce2Word = 5"
definition Nonce3Word :: nat where [go_eval, simp]: "Nonce3Word = 6"

record work =
  wData :: bytes
  wTarget :: "nat option"
  wJobTime :: u32
  wTimeReceived :: u32

text \<open>The zero value \<open>work.Work{}\<close>.\<close>

definition zero_work :: work where
  [go_eval]: "zero_work = \<lparr>wData = replicate 192 0, wTarget = None, wJobTime = 0, wTimeReceived = 0\<rparr>"

definition work_ok :: "work \<Rightarrow> bool" where
  [go_eval]: "work_ok w \<longleftrightarrow> length (wData w) = 192"

lemma zero_work_ok [simp]: "work_ok zero_work" "wTarget zero_work = None"
  by (simp_all add: work_ok_def zero_work_def)

section \<open>The tail of the header\<close>

text \<open>Word \<open>i\<close> of the third 64-byte block, which holds the timestamp and the nonces.\<close>

definition tail_word :: "bytes \<Rightarrow> nat \<Rightarrow> u32" where
  [go_eval]: "tail_word data i = get_le32 data (128 + 4 * i)"

definition put_tail :: "bytes \<Rightarrow> nat \<Rightarrow> u32 \<Rightarrow> bytes" where
  [go_eval]: "put_tail data i v = put_le32 data (128 + 4 * i) v"

lemma length_put_tail [simp, go_len]: "length (put_tail data i v) = length data"
  by (simp add: put_tail_def)

lemma tail_word_put:
  "length data = 192 \<Longrightarrow> i < 16 \<Longrightarrow> j < 16 \<Longrightarrow>
   tail_word (put_tail data i v) j = (if i = j then v else tail_word data j)"
  by (auto simp: tail_word_def put_tail_def le32.get_put intro!: le32.get_put_other)

lemma take_put_tail [simp]: "n \<le> 128 \<Longrightarrow> take n (put_tail data i v) = take n data"
  by (simp add: put_tail_def le32.take_put)

lemma midstate_put_tail [simp]: "header_midstate (put_tail data i v) = header_midstate data"
proof -
  have "slice 0 64 (put_tail data i v) = slice 0 64 data"
    by (simp add: slice_def)
  moreover have "slice 64 128 (put_tail data i v) = slice 64 128 data"
    by (simp add: slice_def take_drop)
  ultimately show ?thesis by (simp add: header_midstate_def)
qed

text \<open>
  The final block of a header, read as words: thirteen words of the tail, then zero fill.
\<close>

lemma intoWords_tail:
  assumes "length data = 192" and "i < 16"
  shows "intoWords (slice 128 180 data) ! i = (if i < 13 then tail_word data i else 0)"
proof -
  let ?b = "slice 128 180 data @ replicate 12 0"
  have len: "length (slice 128 180 data) = 52" using assms by (simp add: slice_def)
  have w: "intoWords (slice 128 180 data) ! i = get_le32 ?b (4 * i)"
    using assms by (simp add: intoWords_ref len ref_words_def)
  show ?thesis
  proof (cases "i < 13")
    case True
    have "get_le32 ?b (4 * i) = get_le32 data (128 + 4 * i)"
      using True assms by (intro get_le32_shift) (simp add: nth_append slice_def add.assoc)
    with True w show ?thesis by (simp add: tail_word_def)
  next
    case False
    then have "?b ! (4 * i + k) = 0" if "k < 4" for k
      using that assms len by (simp add: nth_append)
    then have "get_le32 ?b (4 * i) = get_le32 (replicate 4 0) 0"
      by (intro get_le32_shift) simp
    with False w show ?thesis by (simp add: get_le32_def join32_def)
  qed
qed

end
