(* ===== verification/Device.thy ===== *)
theory Device
  imports Util Launch Channels Work
begin

text \<open>
  A mining device (src/device.go, the mining loop of src/device_opencl.go): its nonces, the
  installation of new work, the launch of the kernel, the host's check of the
  candidates, and one iteration of the loop. The OpenCL calls and the clock are
  inputs of an iteration: their statuses, the buffer read back, the time. Everything a
  device sends to \<open>workDone\<close> is in the result, in order.
\<close>

section \<open>State\<close>

datatype dev_error = RandError | ClError int string

text \<open>
  The device fields the mining loop uses; the OpenCL handles are left out.
\<close>

record device =
  dIndex :: nat
  dName :: string
  dWorkSize :: u32
  dDutyCycle :: int
  extraNonce :: u32
  extraNonce2 :: u32
  midstate :: "u32 list"
  lastBlock :: "u32 list"
  dWork :: work
  newWork :: "work chan"
  hasWork :: bool
  dStarted :: u32
  allDiffOneShares :: u64
  hashMismatches :: u64

text \<open>The literal \<open>NewDevice\<close> starts from.\<close>

definition fresh_device :: "nat \<Rightarrow> string \<Rightarrow> device" where
  [go_eval]: "fresh_device index name = \<lparr>dIndex = index, dName = name, dWorkSize = 0, dDutyCycle = 0, extraNonce = 0,
     extraNonce2 = 0, midstate = replicate 8 0, lastBlock = replicate 16 0, dWork = zero_work,
     newWork = make_chan 5, hasWork = False, dStarted = 0, allDiffOneShares = 0,
     hashMismatches = 0\<rparr>"

text \<open>
  The global configuration a device reads, and \<open>standalone.HashToBig\<close>, which is not part of
  the repository and stays a parameter.
\<close>

record mining_env =
  benchmark :: bool
  powLimit :: nat
  hashToBig :: "bytes \<Rightarrow> nat"

section \<open>initNonces\<close>

text \<open>\<open>off1\<close>: \<open>randDeviceOffset1\<close>; \<open>rnd\<close>: the eight random bytes, or a failed read.\<close>

definition initNonces :: "u8 \<Rightarrow> bytes option \<Rightarrow> device \<Rightarrow> dev_error + device" where
  "initNonces off1 rnd d = (case rnd of None \<Rightarrow> Inl RandError
     | Some buf \<Rightarrow>
        let extraNonceRandOffset = get_le32 buf 0;
            extraNonce2RandOffset = get_le32 buf 4;
            deviceOffset = (of_nat (dIndex d) + ucast off1) mod (256 :: u32)
        in Inr (d\<lparr>extraNonce := extraNonceRandOffset,
                  extraNonce2 := push_bit 24 deviceOffset OR (extraNonce2RandOffset AND 0x00ffffff)\<rparr>))"

section \<open>updateCurrentWork\<close>

text \<open>The part after the receive: install \<open>w\<close>, mark it with the device's nonces, hash the
  first two blocks, split the third into words.\<close>

definition device_byte :: "u8 \<Rightarrow> device \<Rightarrow> u8" where
  "device_byte off2 d = ucast ((of_nat (dIndex d) + ucast off2) mod (256 :: u32))"

definition installWork :: "u8 \<Rightarrow> work \<Rightarrow> device \<Rightarrow> device" where
  "installWork off2 w d =
    (let data = put_tail (wData w) Nonce1Word (extraNonce d);
         data = put_tail data Nonce2Word (extraNonce2 d);
         data = put_byte data (128 + 4 * Nonce3Word) (device_byte off2 d);
         ms = Block IV (slice 0 64 data) FlagChunkStart;
         ms = Block ms (slice 64 128 data) 0
     in d\<lparr>hasWork := True, dWork := w\<lparr>wData := data\<rparr>, midstate := ms,
          lastBlock := map (\<lambda>i. tail_word data i) [0..<16]\<rparr>)"

text \<open>What a waiting select takes: the channel, or the cancelled context.\<close>

datatype select = RecvWork | CtxDone

text \<open>\<open>None\<close>: still waiting.\<close>

definition updateCurrentWork :: "u8 \<Rightarrow> select \<Rightarrow> device \<Rightarrow> device option" where
  "updateCurrentWork off2 sel d =
    (if hasWork d then
       (case chan_recv (newWork d) of None \<Rightarrow> Some d
        | Some (w, ch) \<Rightarrow> Some (installWork off2 w (d\<lparr>newWork := ch\<rparr>)))
     else (case sel of CtxDone \<Rightarrow> Some d
        | RecvWork \<Rightarrow> (case chan_recv (newWork d) of None \<Rightarrow> None
           | Some (w, ch) \<Rightarrow> Some (installWork off2 w (d\<lparr>newWork := ch\<rparr>)))))"

section \<open>idleFor\<close>

definition idleFor :: "int \<Rightarrow> int \<Rightarrow> int" where
  "idleFor elapsed dutyCycle =
    (if dutyCycle \<ge> 100 \<or> dutyCycle \<le> 0 then 0
     else go_div (wrap64 (elapsed * wrap64 (100 - dutyCycle))) dutyCycle)"

section \<open>foundCandidate\<close>

text \<open>The header the device assembles for a candidate.\<close>

definition candidate_data :: "device \<Rightarrow> u32 \<Rightarrow> u32 \<Rightarrow> u32 \<Rightarrow> u32 \<Rightarrow> bytes" where
  "candidate_data d ts nonce0 nonce1 nonce2 =
    (let data = go_copy (replicate 192 0) (wData (dWork d));
         data = put_tail data TimestampWord ts;
         data = put_tail data Nonce0Word nonce0;
         data = put_tail data Nonce1Word nonce1
     in put_tail data Nonce2Word nonce2)"

text \<open>
  The second component is the header sent to \<open>workDone\<close>, if any. Comparing with a nil target
  panics.
\<close>

datatype go_panic = NilDereference

definition foundCandidate ::
    "mining_env \<Rightarrow> u32 \<Rightarrow> u32 \<Rightarrow> u32 \<Rightarrow> u32 \<Rightarrow> device \<Rightarrow> go_panic + device \<times> bytes option" where
  "foundCandidate E ts nonce0 nonce1 nonce2 d =
    (let data = candidate_data d ts nonce0 nonce1 nonce2;
         hash = FinalBlock (midstate d) (slice 128 180 data);
         hashNum = hashToBig E hash
     in if get_le32 hash 28 \<noteq> 0 then Inr (d\<lparr>hashMismatches := hashMismatches d + 1\<rparr>, None)
        else if hashNum > powLimit E then Inr (d, None)
        else
          let d' = d\<lparr>allDiffOneShares := allDiffOneShares d + 1\<rparr>
          in if benchmark E then Inr (d', None)
             else (case wTarget (dWork d) of None \<Rightarrow> Inl NilDereference
               | Some target \<Rightarrow> if hashNum > target then Inr (d', None) else Inr (d', Some data)))"

section \<open>SetWork\<close>

text \<open>A send that waits while the channel is full, or gives up when the context ends.\<close>

definition SetWork :: "select \<Rightarrow> work \<Rightarrow> device \<Rightarrow> device option" where
  "SetWork sel w d = (case sel of CtxDone \<Rightarrow> Some d
     | RecvWork \<Rightarrow> map_option (\<lambda>ch. d\<lparr>newWork := ch\<rparr>) (chan_send (newWork d) w))"

section \<open>Kernel arguments and launch\<close>

datatype karg = ArgBuffer | ArgWord u32

text \<open>\<open>st i\<close>: the status \<open>clSetKernelArg\<close> returns for argument \<open>i\<close>; 0 is success.\<close>

primrec set_args :: "(nat \<Rightarrow> int) \<Rightarrow> (nat \<times> karg) list \<Rightarrow> (nat \<rightharpoonup> karg) \<Rightarrow> dev_error + (nat \<rightharpoonup> karg)" where
  "set_args st [] m = Inr m"
| "set_args st (a # as) m =
     (if st (fst a) \<noteq> 0 then Inl (ClError (st (fst a)) ''clSetKernelArg'')
      else set_args st as (m(fst a \<mapsto> snd a)))"

text \<open>The loop over the last block, with its own index that steps over the nonce word.\<close>

fun lastBlock_args :: "u32 list \<Rightarrow> nat \<Rightarrow> nat \<Rightarrow> nat \<Rightarrow> (nat \<times> karg) list" where
  "lastBlock_args lb i i2 0 = []"
| "lastBlock_args lb i i2 (Suc n) =
    (let i2 = (if i2 = Nonce0Word then i2 + 1 else i2)
     in (i + 9, ArgWord (lb ! i2)) # lastBlock_args lb (i + 1) (i2 + 1) n)"

definition setKernelArgs :: "(nat \<Rightarrow> int) \<Rightarrow> device \<Rightarrow> dev_error + (nat \<rightharpoonup> karg)" where
  "setKernelArgs st d =
     set_args st ((0, ArgBuffer) # map (\<lambda>i. (i + 1, ArgWord (midstate d ! i))) [0..<8]
       @ lastBlock_args (lastBlock d) 0 0 12) Map.empty"

record cl_status =
  stArg :: "nat \<Rightarrow> int"
  stWrite :: int
  stLaunch :: int
  stRead :: int

text \<open>The time the launch took and the buffer read back.\<close>

definition runKernel :: "cl_status \<Rightarrow> int \<Rightarrow> u32 list \<Rightarrow> dev_error + (int \<times> u32 list)" where
  "runKernel st elapsed readback =
    (if stWrite st \<noteq> 0 then Inl (ClError (stWrite st) ''clEnqueueWriteBuffer'')
     else if stLaunch st \<noteq> 0 then Inl (ClError (stLaunch st) ''clEnqueueNDRangeKernel'')
     else if stRead st \<noteq> 0 then Inl (ClError (stRead st) ''clEnqueueReadBuffer'')
     else Inr (elapsed, readback))"

section \<open>One iteration of the mining loop\<close>

record iter_env =
  itArrivals :: "work list"
  itSel :: select
  itDone :: bool
  itNow :: int
  itStatus :: cl_status
  itElapsed :: int
  itOut :: "u32 list"
  itIdleDone :: bool

datatype iter_result =
    IterWaiting
  | IterPanic go_panic
  | IterReturn "dev_error option" device "bytes list"
  | IterNext device "bytes list"

text \<open>Between the receive and the launch: roll the second extra nonce, set the timestamp.\<close>

definition prepareLaunch :: "int \<Rightarrow> device \<Rightarrow> device" where
  "prepareLaunch now d =
    (let en2 = RolloverExtraNonce (extraNonce2 d);
         diffSeconds = of_int now - wTimeReceived (dWork d);
         ts = wJobTime (dWork d) + diffSeconds
     in d\<lparr>extraNonce2 := en2, lastBlock := (lastBlock d)[Nonce2Word := en2, TimestampWord := ts]\<rparr>)"

text \<open>The clamped number of candidates, and the loop over them.\<close>

definition candidate_count :: "u32 list \<Rightarrow> nat" where
  "candidate_count out = unat (min (out ! 0) (64 - 1))"

primrec process_candidates ::
    "mining_env \<Rightarrow> u32 list \<Rightarrow> nat list \<Rightarrow> device \<Rightarrow> go_panic + device \<times> bytes list" where
  "process_candidates E out [] d = Inr (d, [])"
| "process_candidates E out (i # is) d =
    bindr (foundCandidate E (lastBlock d ! TimestampWord) (out ! (i + 1))
        (lastBlock d ! Nonce1Word) (lastBlock d ! Nonce2Word) d) (\<lambda>(d1, s1).
    bindr (process_candidates E out is d1) (\<lambda>(d2, s2).
      Inr (d2, (case s1 of None \<Rightarrow> s2 | Some b \<Rightarrow> b # s2))))"

definition run_iteration :: "mining_env \<Rightarrow> u8 \<Rightarrow> iter_env \<Rightarrow> device \<Rightarrow> iter_result" where
  "run_iteration E off2 e d =
    (case updateCurrentWork off2 (itSel e) d of None \<Rightarrow> IterWaiting
     | Some d1 \<Rightarrow>
       if itDone e then IterReturn None d1 []
       else let d2 = prepareLaunch (itNow e) d1 in
         (case setKernelArgs (stArg (itStatus e)) d2 of Inl err \<Rightarrow> IterReturn (Some err) d2 []
          | Inr args \<Rightarrow>
            (case runKernel (itStatus e) (itElapsed e) (itOut e) of Inl err \<Rightarrow> IterReturn (Some err) d2 []
             | Inr (elapsed, out) \<Rightarrow>
               (case process_candidates E out [0..<candidate_count out] d2 of
                 Inl p \<Rightarrow> IterPanic p
               | Inr (d3, sent) \<Rightarrow> if idleFor elapsed (dDutyCycle d3) > 0 \<and> itIdleDone e
                 then IterReturn None d3 sent else IterNext d3 sent))))"

text \<open>
  \<open>runDevice\<close>: the nonces, then iterations until one returns; the list supplies the
  environment of each, beginning with the work other goroutines have sent since the last
  one (a sender that finds the channel full waits, and appears again later).
\<close>

primrec deliver :: "work list \<Rightarrow> device \<Rightarrow> device" where
  "deliver [] d = d"
| "deliver (w # ws) d = (case SetWork RecvWork w d of None \<Rightarrow> d | Some d' \<Rightarrow> deliver ws d')"

datatype run_result = Running | Panicked go_panic | Returned_with "dev_error option"

fun run_loop :: "mining_env \<Rightarrow> u8 \<Rightarrow> iter_env list \<Rightarrow> device \<Rightarrow> run_result \<times> device \<times> bytes list" where
  "run_loop E off2 [] d = (Running, d, [])"
| "run_loop E off2 (e # es) d =
    (let d = deliver (itArrivals e) d in
     case run_iteration E off2 e d of
       IterWaiting \<Rightarrow> run_loop E off2 es d
     | IterPanic p \<Rightarrow> (Panicked p, d, [])
     | IterReturn err d' sent \<Rightarrow> (Returned_with err, d', sent)
     | IterNext d' sent \<Rightarrow>
        (case run_loop E off2 es d' of (r, d'', sent') \<Rightarrow> (r, d'', sent @ sent')))"

definition runDevice :: "mining_env \<Rightarrow> u8 \<Rightarrow> u8 \<Rightarrow> bytes option \<Rightarrow> iter_env list \<Rightarrow> device \<Rightarrow>
    run_result \<times> device \<times> bytes list" where
  "runDevice E off1 off2 rnd es d =
    (case initNonces off1 rnd d of Inl err \<Rightarrow> (Returned_with (Some err), d, [])
     | Inr d' \<Rightarrow> run_loop E off2 es d')"

end
