(* ===== verification/Device_Inv.thy ===== *)
theory Device_Inv
  imports Device
begin

text \<open>
  The invariant of a device and what follows from it. A device with work holds the
  midstate of that work's first 128 bytes, and its last block is the work's tail but for the
  two words the loop rewrites. Every operation keeps this, so what the kernel is given and
  what \<open>foundCandidate\<close> assembles for a nonce are the same header.
\<close>

section \<open>The invariant\<close>

definition queue_ok :: "device \<Rightarrow> bool" where
  "queue_ok d \<longleftrightarrow> chan_ok (newWork d) \<and> list_all work_ok (chan_buf (newWork d))"

definition installed :: "device \<Rightarrow> bool" where
  "installed d \<longleftrightarrow> work_ok (dWork d) \<and> midstate d = header_midstate (wData (dWork d))
     \<and> length (lastBlock d) = 16
     \<and> (\<forall>i < 16. i \<noteq> TimestampWord \<and> i \<noteq> Nonce2Word \<longrightarrow>
           lastBlock d ! i = tail_word (wData (dWork d)) i)
     \<and> tail_word (wData (dWork d)) Nonce1Word = extraNonce d"

definition device_ok :: "device \<Rightarrow> bool" where
  "device_ok d \<longleftrightarrow> queue_ok d \<and> (hasWork d \<longrightarrow> installed d)"

lemma installed_installWork:
  assumes "work_ok w"
  shows "installed (installWork off2 w d)"
proof -
  have len: "length (wData w) = 192" using assms by (simp add: work_ok_def)
  let ?p = "put_tail (put_tail (wData w) Nonce1Word (extraNonce d)) Nonce2Word (extraNonce2 d)"
  have "get_le32 (put_byte ?p 152 (device_byte off2 d)) 144 = get_le32 ?p 144"
    by (rule le32.get_local) (simp add: byte.put_outside)
  then have "tail_word (put_byte ?p 152 (device_byte off2 d)) 4 = extraNonce d"
    using len tail_word_put [of ?p] by (simp add: tail_word_def [of "put_byte _ _ _"])
      (simp add: tail_word_def [symmetric, where i = 4, simplified] tail_word_put)
  then show ?thesis
    using len
    by (simp add: installed_def installWork_def Let_def work_ok_def byte.length_put
        header_midstate_def)
qed

lemma frame_installWork [simp]:
  "newWork (installWork off2 w d) = newWork d" "hasWork (installWork off2 w d)"
  "extraNonce (installWork off2 w d) = extraNonce d"
  "extraNonce2 (installWork off2 w d) = extraNonce2 d"
  "hashMismatches (installWork off2 w d) = hashMismatches d"
  "allDiffOneShares (installWork off2 w d) = allDiffOneShares d"
  "dWorkSize (installWork off2 w d) = dWorkSize d" "dIndex (installWork off2 w d) = dIndex d"
  "dDutyCycle (installWork off2 w d) = dDutyCycle d"
  by (simp_all add: installWork_def Let_def)

lemma queue_ok_recv:
  assumes "queue_ok d" and "chan_recv (newWork d) = Some (w, ch)"
  shows "queue_ok (d\<lparr>newWork := ch\<rparr>)" and "work_ok w"
  using assms go_chan.recv_queued [OF assms(2)] go_chan.recv_ok [OF _ assms(2)]
  by (simp_all add: queue_ok_def)

lemma device_ok_update:
  assumes "device_ok d" and "updateCurrentWork off2 sel d = Some d'"
  shows "device_ok d'"
proof -
  have "device_ok (installWork off2 w (d\<lparr>newWork := ch\<rparr>))"
    if "chan_recv (newWork d) = Some (w, ch)" for w ch
    using that assms(1) queue_ok_recv [of d w ch]
    by (simp add: device_ok_def installed_installWork queue_ok_def)
  with assms show ?thesis
    by (auto simp: updateCurrentWork_def split: if_splits option.splits select.splits)
qed

lemma update_hasWork:
  "updateCurrentWork off2 sel d = Some d' \<Longrightarrow> sel = RecvWork \<or> hasWork d \<Longrightarrow> hasWork d'"
  by (auto simp: updateCurrentWork_def split: if_splits option.splits select.splits)

lemma device_ok_prepare: "device_ok d \<Longrightarrow> device_ok (prepareLaunch now d)"
  by (auto simp: device_ok_def queue_ok_def installed_def prepareLaunch_def Let_def nth_list_update)

lemma device_ok_SetWork:
  "device_ok d \<Longrightarrow> work_ok w \<Longrightarrow> SetWork sel w d = Some d' \<Longrightarrow> device_ok d'"
  by (auto simp: SetWork_def device_ok_def queue_ok_def installed_def
      go_chan.send_queued go_chan.send_ok split: select.splits)

lemma device_ok_initNonces:
  "device_ok d \<Longrightarrow> \<not> hasWork d \<Longrightarrow> initNonces off1 rnd d = Inr d' \<Longrightarrow> device_ok d'"
  by (auto simp: initNonces_def Let_def device_ok_def queue_ok_def split: option.splits)

text \<open>What a candidate may change.\<close>

lemma foundCandidate_frame:
  assumes "foundCandidate E ts n0 n1 n2 d = Inr (d', s)"
  shows "d' = d\<lparr>hashMismatches := hashMismatches d', allDiffOneShares := allDiffOneShares d'\<rparr>"
  using assms by (auto simp: foundCandidate_def Let_def split: if_splits option.splits)

lemma device_ok_counters [simp]:
  "device_ok (d\<lparr>hashMismatches := m, allDiffOneShares := k\<rparr>) = device_ok d"
  by (simp add: device_ok_def queue_ok_def installed_def)

section \<open>The arguments of the kernel\<close>

definition arg_word :: "karg option \<Rightarrow> u32" where
  "arg_word a = (case a of Some (ArgWord v) \<Rightarrow> v | _ \<Rightarrow> 0)"

definition kernel_cv :: "(nat \<rightharpoonup> karg) \<Rightarrow> u32 list" where
  "kernel_cv args = map (\<lambda>i. arg_word (args (i + 1))) [0..<8]"

definition kernel_tail :: "(nat \<rightharpoonup> karg) \<Rightarrow> u32 list" where
  "kernel_tail args = map (\<lambda>i. arg_word (args (i + 9))) [0..<12]"

lemma set_args_Inr: "set_args st as m = Inr m' \<Longrightarrow> m' = fold (\<lambda>a m. m(fst a \<mapsto> snd a)) as m"
  by (induction as arbitrary: m) (auto split: if_splits)

definition tail_args :: "u32 list \<Rightarrow> u32 list" where
  "tail_args lb = map (nth lb) [0, 1, 2, 4, 5, 6, 7, 8, 9, 10, 11, 12]"

lemma upt_args: "[0..<8] = [0, 1, 2, 3, 4, 5, 6, 7 :: nat]"
  "[0..<12] = [0, 1, 2, 3, 4, 5, 6, 7, 8, 9, 10, 11 :: nat]"
  "[0..<16] = [0, 1, 2, 3, 4, 5, 6, 7, 8, 9, 10, 11, 12, 13, 14, 15 :: nat]"
  by (simp_all add: upt_rec)

lemma setKernelArgs_values:
  assumes "setKernelArgs st d = Inr args" and "length (midstate d) = 8"
  shows "kernel_cv args = midstate d" and "kernel_tail args = tail_args (lastBlock d)"
proof -
  have ms: "[midstate d ! 0, midstate d ! 1, midstate d ! 2, midstate d ! 3, midstate d ! 4,
      midstate d ! 5, midstate d ! 6, midstate d ! 7] = midstate d"
    using assms(2) by (intro nth_equalityI) (auto simp: less_Suc_eq numeral_eq_Suc)
  have "lastBlock_args (lastBlock d) 0 0 12 = map (\<lambda>(i, v). (i + 9, ArgWord v))
      (zip [0..<12] (tail_args (lastBlock d)))"
    by (simp add: numeral_eq_Suc tail_args_def)
  note args = set_args_Inr [OF assms(1) [unfolded setKernelArgs_def this]]
  show "kernel_cv args = midstate d"
    by (simp add: args upt_args kernel_cv_def tail_args_def arg_word_def ms [simplified])
  show "kernel_tail args = tail_args (lastBlock d)"
    by (simp add: args upt_args kernel_tail_def tail_args_def arg_word_def)
qed

section \<open>The host assembles the header the kernel hashed\<close>

lemma length_candidate_data [simp, go_len]: "length (candidate_data d ts n0 n1 n2) = 192"
  by (simp add: candidate_data_def Let_def)

lemma candidate_tail_word:
  assumes "work_ok (dWork d)" and "i < 16"
  shows "tail_word (candidate_data d ts n0 n1 n2) i =
    (if i = 2 then ts else if i = 3 then n0 else if i = 4 then n1 else if i = 5 then n2
     else tail_word (wData (dWork d)) i)"
  using assms by (simp add: candidate_data_def Let_def go_copy_full work_ok_def tail_word_put)

lemma candidate_prefix:
  "work_ok (dWork d) \<Longrightarrow> n \<le> 128 \<Longrightarrow>
   take n (candidate_data d ts n0 n1 n2) = take n (wData (dWork d))"
  by (simp add: candidate_data_def Let_def go_copy_full work_ok_def)

lemma candidate_midstate:
  "work_ok (dWork d) \<Longrightarrow>
   header_midstate (candidate_data d ts n0 n1 n2) = header_midstate (wData (dWork d))"
  by (simp add: candidate_data_def Let_def go_copy_full work_ok_def)

text \<open>The header for a nonce of the launch that is being processed.\<close>

definition launch_header :: "device \<Rightarrow> u32 \<Rightarrow> bytes" where
  "launch_header d n = candidate_data d (lastBlock d ! TimestampWord) n
     (lastBlock d ! Nonce1Word) (lastBlock d ! Nonce2Word)"

lemma length_launch_header [simp, go_len]: "length (launch_header d n) = 192"
  by (simp add: launch_header_def)

lemma launch_header_prefix:
  "work_ok (dWork d) \<Longrightarrow> k \<le> 128 \<Longrightarrow> take k (launch_header d n) = take k (wData (dWork d))"
  by (simp add: launch_header_def candidate_prefix)

lemma launch_words:
  assumes "installed d"
  shows "intoWords (slice 128 180 (launch_header d n)) = final_words (tail_args (lastBlock d)) n"
proof (rule nth_equalityI)
  show "length (intoWords (slice 128 180 (launch_header d n))) =
      length (final_words (tail_args (lastBlock d)) n)"
    by (simp add: final_words_def tail_args_def)
  fix i assume "i < length (intoWords (slice 128 180 (launch_header d n)))"
  then have i: "i < 16" by simp
  have w: "work_ok (dWork d)" using assms by (simp add: installed_def)
  have len: "length (launch_header d n) = 192" by (simp add: launch_header_def)
  have lb: "tail_word (launch_header d n) j = (if j = 3 then n else lastBlock d ! j)" if "j < 16" for j
    using assms that by (auto simp: launch_header_def candidate_tail_word [OF w that] installed_def)
  have "i \<in> set [0..<16]" using i by simp
  then show "intoWords (slice 128 180 (launch_header d n)) ! i = final_words (tail_args (lastBlock d)) n ! i"
    using intoWords_tail [OF len i] lb unfolding upt_args
    by (auto simp: final_words_def tail_args_def)
qed

lemma length_slice_tail: "length data = 192 \<Longrightarrow> length (slice 128 180 data) = 52"
  by (simp add: slice_def)

text \<open>The last word of the host's hash is the word the work item tests.\<close>

lemma host_last_word:
  assumes "installed d"
  shows "get_le32 (FinalBlock (midstate d) (slice 128 180 (launch_header d n))) 28 =
    search_word (midstate d) (tail_args (lastBlock d)) n"
proof -
  have "length (launch_header d n) = 192" by (simp add: launch_header_def)
  then have "block (midstate d) (slice 128 180 (launch_header d n)) f =
      compress (midstate d) (final_words (tail_args (lastBlock d)) n) 52 f" for f
    by (simp add: block_def launch_words [OF assms] length_slice_tail)
  then show ?thesis
    using asBytes_word [of "compress (midstate d) (final_words (tail_args (lastBlock d)) n) 52
        (flagChunkEnd OR flagRoot)" 7]
    by (simp add: FinalBlock_def search_word_compress tail_args_def)
qed

text \<open>The hash the device computes is the plain BLAKE3 hash of the 180-byte header.\<close>

lemma host_hash:
  assumes "installed d"
  shows "FinalBlock (midstate d) (slice 128 180 (launch_header d n)) =
    blake3_hash (take 180 (launch_header d n))"
proof -
  have "midstate d = header_midstate (launch_header d n)"
    using assms by (simp add: installed_def launch_header_def candidate_midstate)
  then show ?thesis using midstate_hash [of "launch_header d n"] by (simp add: launch_header_def)
qed

end
