(* ===== verification/Device_Run.thy ===== *)
theory Device_Run
  imports Device_Inv
begin

text \<open>
  What a device does over a whole run: it counts no disagreement with a GPU that executes the
  kernel, every header it sends proves work on a template it was given, and the headers it
  searches are disjoint from those of other devices and from its own earlier ones.
\<close>

section \<open>A GPU that executes the kernel\<close>

text \<open>
  The buffer read back is that of some complete interleaving of the launched items, and
  there are no more hits than the buffer has room for (beyond that the kernel stores out of
  bounds, and OpenCL promises nothing).
\<close>

definition faithful_launch :: "(nat \<rightharpoonup> karg) \<Rightarrow> nat \<Rightarrow> u32 list \<Rightarrow> bool" where
  "faithful_launch args n out \<longleftrightarrow>
     (\<exists>s. gpu_reach (kernel_hit (kernel_cv args) (kernel_tail args)) n s \<and> gpu_done n s
        \<and> card (hits (kernel_hit (kernel_cv args) (kernel_tail args)) n) \<le> 63
        \<and> out = map (outbuf s) [0..<64])"

text \<open>A select takes the cancelled context only when the context is cancelled.\<close>

definition iter_wf :: "iter_env \<Rightarrow> bool" where
  "iter_wf e \<longleftrightarrow> (itSel e = CtxDone \<longrightarrow> itDone e) \<and> list_all work_ok (itArrivals e)"

section \<open>Candidates\<close>

text \<open>A header proves work on a template (the first 128 bytes and the target).\<close>

definition template :: "work \<Rightarrow> bytes \<times> nat option" where
  "template w = (take 128 (wData w), wTarget w)"

definition proves_work :: "mining_env \<Rightarrow> bytes \<times> nat option \<Rightarrow> bytes \<Rightarrow> bool" where
  "proves_work E tp b \<longleftrightarrow> length b = 192 \<and> take 128 b = fst tp
     \<and> get_le32 (blake3_hash (take 180 b)) 28 = 0
     \<and> hashToBig E (blake3_hash (take 180 b)) \<le> powLimit E
     \<and> (\<exists>target. snd tp = Some target \<and> hashToBig E (blake3_hash (take 180 b)) \<le> target)"

lemma foundCandidate_hit:
  assumes "installed d" and "kernel_hit (midstate d) (tail_args (lastBlock d)) n"
    and "foundCandidate E (lastBlock d ! TimestampWord) n (lastBlock d ! Nonce1Word)
      (lastBlock d ! Nonce2Word) d = Inr (d', s)"
  shows "hashMismatches d' = hashMismatches d"
  using assms(2,3) host_last_word [OF assms(1), of n]
  by (auto simp: foundCandidate_def Let_def launch_header_def kernel_hit_def
      split: if_splits option.splits)

lemma foundCandidate_sends:
  assumes "installed d"
    and "foundCandidate E (lastBlock d ! TimestampWord) n (lastBlock d ! Nonce1Word)
      (lastBlock d ! Nonce2Word) d = Inr (d', Some b)"
  shows "proves_work E (template (dWork d)) b" and "b = launch_header d n" and "\<not> benchmark E"
proof -
  have w: "work_ok (dWork d)" using assms(1) by (simp add: installed_def)
  have b: "b = launch_header d n" and h: "\<not> benchmark E"
    "get_le32 (FinalBlock (midstate d) (slice 128 180 (launch_header d n))) 28 = 0"
    "hashToBig E (FinalBlock (midstate d) (slice 128 180 (launch_header d n))) \<le> powLimit E"
    "\<exists>t. wTarget (dWork d) = Some t
       \<and> hashToBig E (FinalBlock (midstate d) (slice 128 180 (launch_header d n))) \<le> t"
    using assms(2)
    by (auto simp: foundCandidate_def Let_def launch_header_def split: if_splits option.splits)
  show "b = launch_header d n" and "\<not> benchmark E" by (fact b, fact h)
  show "proves_work E (template (dWork d)) b"
    using h b w
    by (auto simp: proves_work_def template_def host_hash [OF assms(1)] launch_header_prefix)
qed

lemma foundCandidate_keeps:
  assumes "foundCandidate E ts n0 n1 n2 d = Inr (d', s)"
  shows "installed d' = installed d" "device_ok d' = device_ok d" "midstate d' = midstate d"
    "lastBlock d' = lastBlock d" "dWork d' = dWork d" "extraNonce2 d' = extraNonce2 d"
    "hasWork d' = hasWork d" "newWork d' = newWork d" "launch_header d' = launch_header d"
    "dWorkSize d' = dWorkSize d" "dDutyCycle d' = dDutyCycle d"
  by (subst foundCandidate_frame [OF assms],
      simp add: installed_def launch_header_def candidate_data_def fun_eq_iff)+

lemma process_keeps:
  "process_candidates E out is d = Inr (d', s) \<Longrightarrow>
    installed d' = installed d \<and> device_ok d' = device_ok d \<and> extraNonce2 d' = extraNonce2 d
    \<and> dWork d' = dWork d \<and> hasWork d' = hasWork d \<and> newWork d' = newWork d
    \<and> dWorkSize d' = dWorkSize d \<and> dDutyCycle d' = dDutyCycle d"
proof (induction "is" arbitrary: d d' s)
  case Nil
  then show ?case by simp
next
  case (Cons i "is")
  from Cons.prems obtain d1 s1 s2 where
    f: "foundCandidate E (lastBlock d ! TimestampWord) (out ! (i + 1)) (lastBlock d ! Nonce1Word)
      (lastBlock d ! Nonce2Word) d = Inr (d1, s1)"
    and p: "process_candidates E out is d1 = Inr (d', s2)"
    by (auto simp: bindr_Inr_iff)
  show ?case using Cons.IH [OF p] foundCandidate_keeps [OF f] by simp
qed

lemma process_sends:
  "process_candidates E out is d = Inr (d', s) \<Longrightarrow> installed d \<Longrightarrow> b \<in> set s \<Longrightarrow>
   proves_work E (template (dWork d)) b \<and> (\<exists>i \<in> set is. b = launch_header d (out ! (i + 1)))"
proof (induction "is" arbitrary: d d' s)
  case Nil
  then show ?case by simp
next
  case (Cons i "is")
  from Cons.prems(1) obtain d1 s1 s2 where
    f: "foundCandidate E (lastBlock d ! TimestampWord) (out ! (i + 1)) (lastBlock d ! Nonce1Word)
      (lastBlock d ! Nonce2Word) d = Inr (d1, s1)"
    and p: "process_candidates E out is d1 = Inr (d', s2)"
    and s: "s = (case s1 of None \<Rightarrow> s2 | Some b \<Rightarrow> b # s2)"
    by (auto simp: bindr_Inr_iff)
  note keeps = foundCandidate_keeps [OF f]
  show ?case
  proof (cases "s1 = Some b")
    case True
    then show ?thesis using foundCandidate_sends [OF Cons.prems(2)] f by auto
  next
    case False
    then have "b \<in> set s2" using Cons.prems(3) s by (auto split: option.splits)
    then show ?thesis using Cons.IH [OF p] Cons.prems(2) keeps by auto
  qed
qed

lemma process_agrees:
  "process_candidates E out is d = Inr (d', s) \<Longrightarrow> installed d \<Longrightarrow>
   (\<And>i. i \<in> set is \<Longrightarrow> kernel_hit (midstate d) (tail_args (lastBlock d)) (out ! (i + 1))) \<Longrightarrow>
   hashMismatches d' = hashMismatches d"
proof (induction "is" arbitrary: d d' s)
  case Nil
  then show ?case by simp
next
  case (Cons i "is")
  from Cons.prems(1) obtain d1 s1 s2 where
    f: "foundCandidate E (lastBlock d ! TimestampWord) (out ! (i + 1)) (lastBlock d ! Nonce1Word)
      (lastBlock d ! Nonce2Word) d = Inr (d1, s1)"
    and p: "process_candidates E out is d1 = Inr (d', s2)"
    by (auto simp: bindr_Inr_iff)
  note keeps = foundCandidate_keeps [OF f]
  have "hashMismatches d1 = hashMismatches d"
    using Cons.prems(2,3) f by (intro foundCandidate_hit) auto
  moreover have "hashMismatches d' = hashMismatches d1"
    using Cons.prems(2,3) keeps by (intro Cons.IH [OF p]) auto
  ultimately show ?case by simp
qed

text \<open>With a target, or in benchmark mode, nothing is dereferenced that is nil.\<close>

lemma foundCandidate_total:
  "benchmark E \<or> wTarget (dWork d) \<noteq> None \<Longrightarrow> \<exists>d' s. foundCandidate E ts n0 n1 n2 d = Inr (d', s)"
  by (auto simp: foundCandidate_def Let_def)

lemma process_no_panic:
  "benchmark E \<or> wTarget (dWork d) \<noteq> None \<Longrightarrow> \<exists>d' s. process_candidates E out is d = Inr (d', s)"
proof (induction "is" arbitrary: d)
  case Nil
  then show ?case by simp
next
  case (Cons i "is")
  obtain d1 s1 where
    f: "foundCandidate E (lastBlock d ! TimestampWord) (out ! (i + 1)) (lastBlock d ! Nonce1Word)
      (lastBlock d ! Nonce2Word) d = Inr (d1, s1)"
    using foundCandidate_total [OF Cons.prems] by metis
  then obtain d' s where "process_candidates E out is d1 = Inr (d', s)"
    using Cons foundCandidate_keeps [OF f] by metis
  with f show ?case by (auto simp: bindr_Inr_iff)
qed

section \<open>The host reads candidates only\<close>

lemma faithful_candidates:
  assumes "faithful_launch args n out" and "n < 2 ^ 32" and "i < candidate_count out"
  shows "kernel_hit (kernel_cv args) (kernel_tail args) (out ! (i + 1))"
proof -
  let ?hit = "kernel_hit (kernel_cv args) (kernel_tail args)"
  obtain s where s: "gpu_reach ?hit n s" "gpu_done n s" and out: "out = map (outbuf s) [0..<64]"
    using assms(1) by (auto simp: faithful_launch_def)
  have c: "i + 1 \<le> unat (out ! 0)" "i + 1 < 64"
    using assms(3) by (auto simp: candidate_count_def min_def word_le_nat_alt split: if_splits)
  then have "outbuf s (i + 1) \<in> hits ?hit n"
    using launch_slots [OF s(1) assms(2) s(2), of "i + 1"] out by simp
  then show ?thesis using c out by (simp add: hits_def)
qed

section \<open>One iteration\<close>

text \<open>The templates a device holds: those queued and the one it works on.\<close>

definition held :: "device \<Rightarrow> (bytes \<times> nat option) set" where
  "held d = template ` set (chan_buf (newWork d)) \<union> (if hasWork d then {template (dWork d)} else {})"

definition iter_outcome :: "iter_result \<Rightarrow> (device \<times> bytes list) option" where
  "iter_outcome r = (case r of IterReturn err d s \<Rightarrow> Some (d, s) | IterNext d s \<Rightarrow> Some (d, s) | _ \<Rightarrow> None)"

lemma template_installWork:
  "work_ok w \<Longrightarrow> template (dWork (installWork off2 w d)) = template w"
  by (simp add: template_def installWork_def Let_def byte.take_put work_ok_def)

lemma held_update:
  assumes "device_ok d" and "updateCurrentWork off2 sel d = Some d'"
  shows "held d' \<subseteq> held d"
proof -
  have "held (installWork off2 w (d\<lparr>newWork := ch\<rparr>)) \<subseteq> held d"
    if "chan_recv (newWork d) = Some (w, ch)" for w ch
    using that assms(1) queue_ok_recv [of d w ch] go_chan.recv_queued [OF that]
    by (auto simp: held_def template_installWork device_ok_def)
  with assms show ?thesis
    by (auto simp: updateCurrentWork_def split: if_splits option.splits select.splits)
qed

lemma frame_prepare [simp]:
  "held (prepareLaunch now d) = held d" "hasWork (prepareLaunch now d) = hasWork d"
  "dWork (prepareLaunch now d) = dWork d" "midstate (prepareLaunch now d) = midstate d"
  "hashMismatches (prepareLaunch now d) = hashMismatches d"
  "dWorkSize (prepareLaunch now d) = dWorkSize d"
  "extraNonce2 (prepareLaunch now d) = RolloverExtraNonce (extraNonce2 d)"
  by (simp_all add: prepareLaunch_def Let_def held_def)

lemma frame_update:
  assumes "updateCurrentWork off2 sel d = Some d'"
  shows "extraNonce2 d' = extraNonce2 d" "hashMismatches d' = hashMismatches d"
    "dWorkSize d' = dWorkSize d"
  using assms by (auto simp: updateCurrentWork_def split: if_splits option.splits select.splits)

text \<open>The device as it is when an iteration sets the kernel's arguments.\<close>

definition launching :: "u8 \<Rightarrow> iter_env \<Rightarrow> device \<Rightarrow> device option" where
  "launching off2 e d = (case updateCurrentWork off2 (itSel e) d of None \<Rightarrow> None
     | Some d1 \<Rightarrow> if itDone e then None else Some (prepareLaunch (itNow e) d1))"

lemma launching_ready:
  assumes "device_ok d" and "iter_wf e" and "launching off2 e d = Some d2"
  shows "device_ok d2" "hasWork d2" "installed d2" "held d2 \<subseteq> held d"
    "lastBlock d2 ! Nonce2Word = extraNonce2 d2"
    "extraNonce2 d2 = RolloverExtraNonce (extraNonce2 d)" "hashMismatches d2 = hashMismatches d"
    "dWorkSize d2 = dWorkSize d"
proof -
  obtain d1 where u: "updateCurrentWork off2 (itSel e) d = Some d1" and "\<not> itDone e"
    and d2: "d2 = prepareLaunch (itNow e) d1"
    using assms(3) by (auto simp: launching_def split: option.splits if_splits)
  then have "itSel e = RecvWork"
    using assms(2) by (cases "itSel e") (auto simp: iter_wf_def)
  then have w: "hasWork d1" using update_hasWork [OF u] by simp
  have ok1: "device_ok d1" by (rule device_ok_update [OF assms(1) u])
  show ok2: "device_ok d2" by (simp add: d2 device_ok_prepare ok1)
  show w2: "hasWork d2" by (simp add: d2 w)
  show "installed d2" using ok2 w2 by (simp add: device_ok_def)
  show "held d2 \<subseteq> held d" using held_update [OF assms(1) u] by (simp add: d2)
  have "length (lastBlock d1) = 16" using ok1 w by (simp add: device_ok_def installed_def)
  then show "lastBlock d2 ! Nonce2Word = extraNonce2 d2"
    by (simp add: d2 prepareLaunch_def Let_def)
  show "extraNonce2 d2 = RolloverExtraNonce (extraNonce2 d)" "hashMismatches d2 = hashMismatches d"
    "dWorkSize d2 = dWorkSize d"
    by (simp_all add: d2 frame_update [OF u])
qed

text \<open>The ways an iteration can go.\<close>

lemma iteration_cases:
  assumes "run_iteration E off2 e d = r"
  obtains (waiting) "r = IterWaiting" "updateCurrentWork off2 (itSel e) d = None"
  | (stopped) d1 where "r = IterReturn None d1 []" "updateCurrentWork off2 (itSel e) d = Some d1" "itDone e"
  | (cl_error) d2 err where "launching off2 e d = Some d2" "r = IterReturn (Some err) d2 []"
  | (panic) d2 args p where "launching off2 e d = Some d2" "setKernelArgs (stArg (itStatus e)) d2 = Inr args"
      "process_candidates E (itOut e) [0..<candidate_count (itOut e)] d2 = Inl p" "r = IterPanic p"
  | (ran) d2 args d3 s where "launching off2 e d = Some d2" "setKernelArgs (stArg (itStatus e)) d2 = Inr args"
      "process_candidates E (itOut e) [0..<candidate_count (itOut e)] d2 = Inr (d3, s)"
      "r = IterReturn None d3 s \<or> r = IterNext d3 s"
      "runKernel (itStatus e) (itElapsed e) (itOut e) = Inr (itElapsed e, itOut e)"
proof (cases "updateCurrentWork off2 (itSel e) d")
  case None
  then show ?thesis using assms waiting by (simp add: run_iteration_def)
next
  case u: (Some d1)
  show ?thesis
  proof (cases "itDone e")
    case True
    then show ?thesis using assms u stopped [of d1] by (auto simp: run_iteration_def)
  next
    case False
    then have l: "launching off2 e d = Some (prepareLaunch (itNow e) d1)"
      using u by (simp add: launching_def)
    show ?thesis
    proof (cases "setKernelArgs (stArg (itStatus e)) (prepareLaunch (itNow e) d1)")
      case (Inl err)
      then show ?thesis using assms u False l cl_error [OF l, of err] by (simp add: run_iteration_def)
    next
      case a: (Inr args)
      show ?thesis
      proof (cases "runKernel (itStatus e) (itElapsed e) (itOut e)")
        case (Inl err)
        then show ?thesis using assms u False a l cl_error [OF l, of err] by (simp add: run_iteration_def)
      next
        case k: (Inr eo)
        then have k: "runKernel (itStatus e) (itElapsed e) (itOut e) = Inr (itElapsed e, itOut e)"
          by (auto simp: runKernel_def split: if_splits)
        show ?thesis
        proof (cases "process_candidates E (itOut e) [0..<candidate_count (itOut e)] (prepareLaunch (itNow e) d1)")
          case (Inl p)
          then show ?thesis using assms u False a k l panic [OF l a Inl] by (simp add: run_iteration_def)
        next
          case (Inr ds)
          obtain d3 s where "ds = (d3, s)" by fastforce
          then show ?thesis using assms u False a k l Inr ran [OF l a, of d3 s]
            by (auto simp: run_iteration_def)
        qed
      qed
    qed
  qed
qed

definition all_prove :: "mining_env \<Rightarrow> (bytes \<times> nat option) set \<Rightarrow> bytes list \<Rightarrow> bool" where
  "all_prove E T s \<longleftrightarrow> (\<forall>b \<in> set s. \<exists>tp \<in> T. proves_work E tp b)"

lemma all_prove_Nil [simp]: "all_prove E T []"
  and all_prove_append [simp]: "all_prove E T (s @ s') \<longleftrightarrow> all_prove E T s \<and> all_prove E T s'"
  by (auto simp: all_prove_def)

lemma all_prove_mono: "all_prove E T s \<Longrightarrow> T \<subseteq> T' \<Longrightarrow> all_prove E T' s"
  by (auto simp: all_prove_def)

text \<open>What a device is and has after an iteration, and what it has sent.\<close>

lemma held_process:
  assumes "process_candidates E out is d = Inr (d', s)"
  shows "held d' = held d"
  using process_keeps [OF assms] by (simp add: held_def)

lemma iteration_ok:
  assumes "device_ok d" and "iter_wf e"
    and "iter_outcome (run_iteration E off2 e d) = Some (d', s)"
  shows "device_ok d' \<and> held d' \<subseteq> held d \<and> all_prove E (held d) s"
proof -
  from refl [of "run_iteration E off2 e d"] show ?thesis
  proof (cases rule: iteration_cases)
    case (stopped d1)
    then show ?thesis
      using assms device_ok_update [OF assms(1) stopped(2)] held_update [OF assms(1) stopped(2)]
      by (simp add: iter_outcome_def)
  next
    case (cl_error d2 err)
    then show ?thesis
      using assms launching_ready [OF assms(1,2) cl_error(1)] by (simp add: iter_outcome_def)
  next
    case (ran d2 args d3 s3)
    then have e: "d' = d3" "s = s3" using assms(3) by (auto simp: iter_outcome_def)
    note ready = launching_ready [OF assms(1,2) ran(1)]
    have "template (dWork d2) \<in> held d" using ready(2,4) by (auto simp: held_def)
    then have "all_prove E (held d) s3"
      using process_sends [OF ran(3) ready(3)] by (auto simp: all_prove_def)
    then show ?thesis
      using process_keeps [OF ran(3)] held_process [OF ran(3)] ready by (simp add: e)
  qed (use assms in \<open>simp_all add: iter_outcome_def\<close>)
qed

lemma iteration_agrees:
  assumes "device_ok d" and "iter_wf e" and "dWorkSize d2 = dWorkSize d"
    and "launching off2 e d = Some d2" and "setKernelArgs (stArg (itStatus e)) d2 = Inr args"
    and "faithful_launch args (unat (dWorkSize d2)) (itOut e)"
    and "process_candidates E (itOut e) [0..<candidate_count (itOut e)] d2 = Inr (d3, s)"
  shows "hashMismatches d3 = hashMismatches d"
proof -
  note ready = launching_ready [OF assms(1,2,4)]
  have "length (midstate d2) = 8"
    using ready(3) by (simp add: installed_def header_midstate_def)
  note vals = setKernelArgs_values [OF assms(5) this]
  have "unat (dWorkSize d2) < 2 ^ 32"
    using unsigned_less [of "dWorkSize d2"] by simp
  then have "hashMismatches d3 = hashMismatches d2"
    using faithful_candidates [OF assms(6)]
    by (intro process_agrees [OF assms(7) ready(3)]) (simp add: vals)
  then show ?thesis by (simp add: ready)
qed

section \<open>The whole run\<close>

lemma deliver_ok: "device_ok d \<Longrightarrow> list_all work_ok ws \<Longrightarrow> device_ok (deliver ws d)"
  by (induction ws arbitrary: d) (auto split: option.splits dest: device_ok_SetWork)

lemma frame_SetWork:
  assumes "SetWork sel w d = Some d'"
  shows "extraNonce2 d' = extraNonce2 d" "hashMismatches d' = hashMismatches d"
    "dWorkSize d' = dWorkSize d" "hasWork d' = hasWork d" "held d' \<subseteq> insert (template w) (held d)"
  using assms by (auto simp: SetWork_def held_def go_chan.send_queued split: select.splits)

lemma frame_deliver:
  "extraNonce2 (deliver ws d) = extraNonce2 d \<and> hashMismatches (deliver ws d) = hashMismatches d
   \<and> dWorkSize (deliver ws d) = dWorkSize d \<and> hasWork (deliver ws d) = hasWork d
   \<and> held (deliver ws d) \<subseteq> held d \<union> template ` set ws"
proof (induction ws arbitrary: d)
  case Nil
  then show ?case by simp
next
  case (Cons w ws)
  show ?case
  proof (cases "SetWork RecvWork w d")
    case None
    then show ?thesis by auto
  next
    case (Some d')
    then show ?thesis using Cons.IH [of d'] frame_SetWork [OF Some] by auto
  qed
qed

text \<open>Every header a device sends proves work on a template it held or was sent.\<close>

definition templates :: "iter_env list \<Rightarrow> (bytes \<times> nat option) set" where
  "templates es = (\<Union>e \<in> set es. template ` set (itArrivals e))"

lemma run_loop_sends:
  "device_ok d \<Longrightarrow> list_all iter_wf es \<Longrightarrow> run_loop E off2 es d = (r, d', s) \<Longrightarrow>
   device_ok d' \<and> all_prove E (held d \<union> templates es) s"
proof (induction es arbitrary: d r d' s)
  case Nil
  then show ?case by simp
next
  case (Cons e es)
  let ?d = "deliver (itArrivals e) d" and ?T = "held d \<union> templates (e # es)"
  have wf: "iter_wf e" "list_all iter_wf es" using Cons.prems by simp_all
  then have ok: "device_ok ?d"
    using Cons.prems(1) by (intro deliver_ok) (simp_all add: iter_wf_def)
  have T: "held ?d \<subseteq> ?T" "held ?d \<union> templates es \<subseteq> ?T"
    using frame_deliver [of "itArrivals e" d] by (auto simp: templates_def)
  show ?case
  proof (cases "run_iteration E off2 e ?d")
    case IterWaiting
    then show ?thesis
      using Cons.IH [OF ok wf(2), of r d' s] Cons.prems(3) T all_prove_mono by auto
  next
    case (IterPanic p)
    then show ?thesis using Cons.prems(3) ok by auto
  next
    case (IterReturn err d1 s1)
    then show ?thesis
      using Cons.prems(3) iteration_ok [OF ok wf(1), of E off2 d1 s1] all_prove_mono [OF _ T(1)]
      by (auto simp: iter_outcome_def)
  next
    case (IterNext d1 s1)
    then obtain s2 where rest: "run_loop E off2 es d1 = (r, d', s2)" and s: "s = s1 @ s2"
      using Cons.prems(3) by (auto split: prod.splits)
    have it: "device_ok d1" "held d1 \<subseteq> held ?d" "all_prove E (held ?d) s1"
      using iteration_ok [OF ok wf(1), of E off2 d1 s1] IterNext by (simp_all add: iter_outcome_def)
    moreover have "held d1 \<union> templates es \<subseteq> ?T" using it(2) T(2) by blast
    ultimately show ?thesis
      using Cons.IH [OF it(1) wf(2) rest] T(1) all_prove_mono by (auto simp: s)
  qed
qed

text \<open>The launches of a run: each with its environment and the device as it launches.\<close>

fun launches :: "mining_env \<Rightarrow> u8 \<Rightarrow> iter_env list \<Rightarrow> device \<Rightarrow> (iter_env \<times> device) list" where
  "launches E off2 [] d = []"
| "launches E off2 (e # es) d =
    (let d = deliver (itArrivals e) d in
     (case launching off2 e d of None \<Rightarrow> [] | Some d2 \<Rightarrow> [(e, d2)])
     @ (case run_iteration E off2 e d of IterWaiting \<Rightarrow> launches E off2 es d
        | IterNext d' sent \<Rightarrow> launches E off2 es d' | _ \<Rightarrow> []))"

text \<open>Unless a call of OpenCL fails, the launch is one of a GPU that executes the kernel.\<close>

definition launch_faithful :: "iter_env \<times> device \<Rightarrow> bool" where
  "launch_faithful l = (case setKernelArgs (stArg (itStatus (fst l))) (snd l) of Inl err \<Rightarrow> True
     | Inr args \<Rightarrow> (case runKernel (itStatus (fst l)) (itElapsed (fst l)) (itOut (fst l)) of Inl err \<Rightarrow> True
       | Inr r \<Rightarrow> faithful_launch args (unat (dWorkSize (snd l))) (itOut (fst l))))"

lemma run_loop_agrees:
  "device_ok d \<Longrightarrow> list_all iter_wf es \<Longrightarrow> list_all launch_faithful (launches E off2 es d) \<Longrightarrow>
   run_loop E off2 es d = (r, d', s) \<Longrightarrow> hashMismatches d' = hashMismatches d"
proof (induction es arbitrary: d r d' s)
  case Nil
  then show ?case by simp
next
  case (Cons e es)
  let ?d = "deliver (itArrivals e) d"
  have wf: "iter_wf e" "list_all iter_wf es" using Cons.prems by simp_all
  then have ok: "device_ok ?d"
    using Cons.prems(1) by (intro deliver_ok) (simp_all add: iter_wf_def)
  have m: "hashMismatches ?d = hashMismatches d" by (simp add: frame_deliver)
  from refl [of "run_iteration E off2 e ?d"] show ?case
  proof (cases rule: iteration_cases)
    case waiting
    then show ?thesis using Cons.IH [OF ok wf(2), of r d' s] Cons.prems(3,4) m by (simp add: Let_def)
  next
    case (stopped d1)
    then show ?thesis using Cons.prems(4) frame_update [OF stopped(2)] m by auto
  next
    case (cl_error d2 err)
    then show ?thesis using Cons.prems(4) launching_ready [OF ok wf(1) cl_error(1)] m by auto
  next
    case (panic d2 args p)
    then show ?thesis using Cons.prems(4) m by auto
  next
    case (ran d2 args d3 s3)
    note ready = launching_ready [OF ok wf(1) ran(1)]
    have f: "faithful_launch args (unat (dWorkSize d2)) (itOut e)"
      using Cons.prems(3) ran(1,2,5) by (simp add: Let_def launch_faithful_def)
    have m3: "hashMismatches d3 = hashMismatches d"
      using iteration_agrees [OF ok wf(1) ready(8) ran(1,2) f ran(3)] m by simp
    have "iter_outcome (run_iteration E off2 e ?d) = Some (d3, s3)"
      using ran(4) by (auto simp: iter_outcome_def)
    then have "device_ok d3" using iteration_ok [OF ok wf(1)] by blast
    then show ?thesis
      using Cons.IH [of d3] wf(2) Cons.prems(3,4) ran(4) m3
      by (auto simp: Let_def split: prod.splits)
  qed
qed

text \<open>The second extra nonce of the launches walks round the cycle of \<open>RolloverExtraNonce\<close>.\<close>

lemma launches_nonces:
  "device_ok d \<Longrightarrow> list_all iter_wf es \<Longrightarrow> i < length (launches E off2 es d) \<Longrightarrow>
   (\<forall>l. launches E off2 es d ! i = l \<longrightarrow>
     extraNonce2 (snd l) = (RolloverExtraNonce ^^ Suc i) (extraNonce2 d)
     \<and> installed (snd l) \<and> lastBlock (snd l) ! Nonce2Word = extraNonce2 (snd l))"
proof (induction es arbitrary: d i)
  case Nil
  then show ?case by simp
next
  case (Cons e es)
  let ?d = "deliver (itArrivals e) d"
  have wf: "iter_wf e" "list_all iter_wf es" using Cons.prems by simp_all
  then have ok: "device_ok ?d"
    using Cons.prems(1) by (intro deliver_ok) (simp_all add: iter_wf_def)
  have x: "extraNonce2 ?d = extraNonce2 d" by (simp add: frame_deliver)
  from refl [of "run_iteration E off2 e ?d"] show ?case
  proof (cases rule: iteration_cases)
    case waiting
    then have "launches E off2 (e # es) d = launches E off2 es ?d"
      by (simp add: Let_def launching_def)
    then show ?thesis using Cons.IH [OF ok wf(2), of i] Cons.prems(3) x by simp
  next
    case (stopped d1)
    then show ?thesis using Cons.prems(3) by (simp add: Let_def launching_def)
  next
    case (cl_error d2 err)
    then show ?thesis
      using Cons.prems(3) launching_ready [OF ok wf(1) cl_error(1)] x by (auto simp: Let_def)
  next
    case (panic d2 args p)
    then show ?thesis
      using Cons.prems(3) launching_ready [OF ok wf(1) panic(1)] x by (auto simp: Let_def)
  next
    case (ran d2 args d3 s3)
    note ready = launching_ready [OF ok wf(1) ran(1)]
    have "iter_outcome (run_iteration E off2 e ?d) = Some (d3, s3)"
      using ran(4) by (auto simp: iter_outcome_def)
    then have d3: "device_ok d3" using iteration_ok [OF ok wf(1)] by blast
    have "extraNonce2 d3 = RolloverExtraNonce (extraNonce2 d)"
      using process_keeps [OF ran(3)] ready x by simp
    then show ?thesis
      using Cons.IH [OF d3 wf(2), of "i - 1"] Cons.prems(3) ran(1,4) ready x
      by (cases i) (auto simp: Let_def funpow_swap1 split: if_splits)
  qed
qed

end
