(* ===== verification/Device_Search.thy ===== *)
theory Device_Search
  imports Device_Run
begin

text \<open>
  What follows for whole runs: a complete launch always exists, no nil target is dereferenced,
  the headers a device searches differ from its earlier ones and from those of other devices,
  and the duty cycle is kept.
\<close>

section \<open>A complete launch\<close>

text \<open>Whatever hits there are, some interleaving completes the launch: one item after the other.\<close>

lemma seq_launch:
  "n < 2 ^ 32 \<Longrightarrow> \<exists>s. gpu_reach hit n s \<and> (\<forall>i. items s i = (if unat i < m then Returned else Waiting))"
  if "m \<le> n" for m
  using that
proof (induction m)
  case 0
  have "gpu_reach hit n \<lparr>items = \<lambda>_. Waiting, outbuf = \<lambda>_. 0\<rparr>"
    by (rule gpu_reach.start) (simp add: gpu_start_def)
  then show ?case by force
next
  case (Suc m)
  then obtain s where s: "gpu_reach hit n s" and it: "\<And>i. items s i = (if unat i < m then Returned else Waiting)"
    by force
  define i :: u32 where "i = of_nat m"
  have i: "unat i = m" using Suc.prems by (simp add: i_def unat_of_nat take_bit_nat_eq_self)
  then have w: "items s i = Waiting" and less: "unat i < n" using it Suc.prems by auto
  have eq: "unat j < Suc m \<longleftrightarrow> j = i \<or> unat j < m" for j
    using i by (auto simp: less_Suc_eq word_unat_eq_iff)
  show ?case
  proof (cases "hit i")
    case False
    have "gpu_reach hit n (s\<lparr>items := (items s)(i := Returned)\<rparr>)"
      using s gpu_step.no_hit [of i n s hit] less w False by (blast intro: gpu_reach.step)
    moreover have "\<forall>j. items (s\<lparr>items := (items s)(i := Returned)\<rparr>) j =
        (if unat j < Suc m then Returned else Waiting)"
      by (simp add: eq it)
    ultimately show ?thesis by blast
  next
    case True
    let ?s1 = "s\<lparr>items := (items s)(i := Loaded (outbuf s 0))\<rparr>"
    let ?s2 = "?s1\<lparr>items := (items ?s1)(i := Bumped (outbuf s 0 + 1)), outbuf := (outbuf ?s1)(0 := outbuf s 0 + 1)\<rparr>"
    let ?s3 = "?s2\<lparr>items := (items ?s2)(i := Returned), outbuf := (outbuf ?s2)(unat (outbuf s 0 + 1) := i)\<rparr>"
    have "gpu_reach hit n ?s1"
      using s gpu_step.load [of i n s hit] less w True by (blast intro: gpu_reach.step)
    moreover have "gpu_step hit n ?s1 ?s2" by (rule gpu_step.bump) (simp_all add: less)
    moreover have "gpu_step hit n ?s2 ?s3" by (rule gpu_step.emit) (simp_all add: less)
    ultimately have "gpu_reach hit n ?s3" by (blast intro: gpu_reach.step)
    moreover have "\<forall>j. items ?s3 j = (if unat j < Suc m then Returned else Waiting)"
      by (simp add: eq it)
    ultimately show ?thesis by blast
  qed
qed

lemma faithful_launch_exists:
  assumes "n \<le> 63"
  shows "\<exists>out. faithful_launch args n out"
proof -
  let ?hit = "kernel_hit (kernel_cv args) (kernel_tail args)"
  obtain s where "gpu_reach ?hit n s" and "gpu_done n s"
    using seq_launch [of n n ?hit] assms by (force simp: gpu_done_def)
  moreover have "card (hits ?hit n) \<le> 63" using card_hits_bound [of ?hit n] assms by simp
  ultimately show ?thesis by (auto simp: faithful_launch_def)
qed

section \<open>No nil target is dereferenced\<close>

lemma iteration_no_panic:
  assumes "device_ok d" and "iter_wf e" and "benchmark E \<or> (\<forall>tp \<in> held d. snd tp \<noteq> None)"
  shows "run_iteration E off2 e d \<noteq> IterPanic p"
proof
  assume "run_iteration E off2 e d = IterPanic p"
  then show False
  proof (cases rule: iteration_cases)
    case (panic d2 args p')
    note ready = launching_ready [OF assms(1,2) panic(1)]
    have "template (dWork d2) \<in> held d" using ready(2,4) by (auto simp: held_def)
    then have "benchmark E \<or> wTarget (dWork d2) \<noteq> None"
      using assms(3) by (auto simp: template_def)
    from process_no_panic [OF this] show False using panic(3) by (metis sum.distinct(1))
  qed auto
qed

lemma run_loop_no_panic:
  "device_ok d \<Longrightarrow> list_all iter_wf es \<Longrightarrow>
   benchmark E \<or> (\<forall>tp \<in> held d \<union> templates es. snd tp \<noteq> None) \<Longrightarrow>
   fst (run_loop E off2 es d) \<noteq> Panicked p"
proof (induction es arbitrary: d)
  case Nil
  then show ?case by simp
next
  case (Cons e es)
  let ?d = "deliver (itArrivals e) d"
  have wf: "iter_wf e" "list_all iter_wf es" using Cons.prems by simp_all
  then have ok: "device_ok ?d"
    using Cons.prems(1) by (intro deliver_ok) (simp_all add: iter_wf_def)
  have T: "held ?d \<union> templates es \<subseteq> held d \<union> templates (e # es)"
    using frame_deliver [of "itArrivals e" d] by (auto simp: templates_def)
  have t: "benchmark E \<or> (\<forall>tp \<in> held ?d \<union> templates es. snd tp \<noteq> None)"
    using T Cons.prems(3) by blast
  show ?case
  proof (cases "run_iteration E off2 e ?d")
    case IterWaiting
    then show ?thesis using Cons.IH [OF ok wf(2) t] by (simp add: Let_def)
  next
    case (IterPanic p')
    then show ?thesis using iteration_no_panic [OF ok wf(1), of E off2 p'] t by blast
  next
    case (IterReturn err d1 s1)
    then show ?thesis by (simp add: Let_def)
  next
    case (IterNext d1 s1)
    then have it: "device_ok d1" "held d1 \<subseteq> held ?d"
      using iteration_ok [OF ok wf(1), of E off2 d1 s1] by (simp_all add: iter_outcome_def)
    then have "benchmark E \<or> (\<forall>tp \<in> held d1 \<union> templates es. snd tp \<noteq> None)" using t by blast
    from Cons.IH [OF it(1) wf(2) this] show ?thesis
      using IterNext by (auto simp: Let_def split: prod.splits)
  qed
qed

section \<open>The search space\<close>

lemma initNonces_class:
  assumes "initNonces off1 rnd d = Inr d'"
  shows "nonce_class (extraNonce2 d') = (of_nat (dIndex d) + ucast off1) mod 256"
proof -
  define q where "q = (of_nat (dIndex d) + ucast off1) mod (256 :: u32)"
  have m: "(0x00ffffff :: u32) = mask 24" by (simp add: mask_eq_exp_minus_1)
  obtain x where x: "extraNonce2 d' = push_bit 24 q OR (x AND 0x00ffffff)"
    using assms by (auto simp: initNonces_def Let_def q_def split: option.splits)
  have "q < 256" by (simp add: q_def word_mod_less_divisor)
  then have "unat q < 2 ^ 8" by (simp add: word_less_nat_alt)
  then have "unat (take_bit 8 q) = unat q"
    by (simp only: unsigned_take_bit_eq take_bit_nat_eq_self)
  then have q: "take_bit 8 q = q" by (simp add: word_unat_eq_iff)
  have "drop_bit 24 (push_bit 24 q OR (x AND mask 24)) = take_bit 8 q"
    by (rule bit_word_eqI) (auto simp: bit_simps)
  then show ?thesis by (simp add: nonce_class_def x m q q_def [symmetric])
qed

text \<open>A header names the nonces it was assembled with.\<close>

lemma launch_header_nonce:
  "installed d \<Longrightarrow> tail_word (launch_header d n) 5 = lastBlock d ! Nonce2Word"
  "installed d \<Longrightarrow> tail_word (launch_header d n) 3 = n"
  by (simp_all add: launch_header_def candidate_tail_word installed_def)

lemma launches_distinct:
  assumes "device_ok d" and "list_all iter_wf es"
    and "i < length (launches E off2 es d)" and "j < length (launches E off2 es d)"
    and "i < 2 ^ 24" and "j < 2 ^ 24"
    and "launch_header (snd (launches E off2 es d ! i)) n = launch_header (snd (launches E off2 es d ! j)) m"
  shows "i = j \<and> n = m"
proof -
  note li = launches_nonces [OF assms(1,2,3), rule_format, OF refl]
  note lj = launches_nonces [OF assms(1,2,4), rule_format, OF refl]
  have "(RolloverExtraNonce ^^ i) (RolloverExtraNonce (extraNonce2 d)) =
      (RolloverExtraNonce ^^ j) (RolloverExtraNonce (extraNonce2 d))"
    using assms(7) li lj launch_header_nonce(1) by (metis funpow_Suc_right comp_apply)
  then have "i = j" using assms(5,6) by (intro rollover.iter_inj) auto
  moreover have "n = m" using assms(7) li lj launch_header_nonce(2) by metis
  ultimately show ?thesis ..
qed

lemma launches_disjoint:
  assumes "device_ok d" and "list_all iter_wf es" and "device_ok d'" and "list_all iter_wf es'"
    and "i < length (launches E off2 es d)" and "j < length (launches E off2 es' d')"
    and "nonce_class (extraNonce2 d) \<noteq> nonce_class (extraNonce2 d')"
  shows "launch_header (snd (launches E off2 es d ! i)) n
    \<noteq> launch_header (snd (launches E off2 es' d' ! j)) m"
proof
  note li = launches_nonces [OF assms(1,2,5), rule_format, OF refl]
  note lj = launches_nonces [OF assms(3,4,6), rule_format, OF refl]
  assume "launch_header (snd (launches E off2 es d ! i)) n = launch_header (snd (launches E off2 es' d' ! j)) m"
  then have "(RolloverExtraNonce ^^ Suc i) (extraNonce2 d) = (RolloverExtraNonce ^^ Suc j) (extraNonce2 d')"
    using li lj launch_header_nonce(1) by metis
  with rollover.classes_disjoint [OF assms(7)] show False by blast
qed

section \<open>The duty cycle\<close>

lemma idleFor_exact:
  assumes "0 \<le> elapsed" and "elapsed * 100 < 2 ^ 63" and "1 \<le> dc" and "dc \<le> 100"
  shows "idleFor elapsed dc = elapsed * (100 - dc) div dc"
proof (cases "dc = 100")
  case True
  then show ?thesis by (simp add: idleFor_def)
next
  case False
  have "elapsed * (100 - dc) \<le> elapsed * 100" using assms by (intro mult_left_mono) auto
  then have "in64 (elapsed * (100 - dc))" and "in64 (100 - dc)"
    using assms by (auto simp: in64_def intro: order_trans [OF _ mult_nonneg_nonneg])
  then show ?thesis using False assms by (simp add: idleFor_def wrap64_id go_div_nonneg)
qed

lemma idleFor_duty:
  assumes "0 \<le> elapsed" and "elapsed * 100 < 2 ^ 63" and "1 \<le> dc" and "dc \<le> 100"
  shows "dc * (elapsed + idleFor elapsed dc) \<le> 100 * elapsed"
    and "100 * elapsed < dc * (elapsed + idleFor elapsed dc + 1)"
proof -
  let ?x = "elapsed * (100 - dc)"
  have d: "?x = dc * (?x div dc) + ?x mod dc" by simp
  have m: "0 \<le> ?x mod dc" "?x mod dc < dc" using assms by simp_all
  have e: "100 * elapsed = dc * elapsed + ?x" by (simp add: algebra_simps)
  have D: "dc * (elapsed + ?x div dc) = dc * elapsed + dc * (?x div dc)" by (simp add: algebra_simps)
  show "dc * (elapsed + idleFor elapsed dc) \<le> 100 * elapsed"
    using d m e D by (simp only: idleFor_exact [OF assms])
  have "dc * (elapsed + ?x div dc + 1) = dc * (elapsed + ?x div dc) + dc" by (simp add: algebra_simps)
  then show "100 * elapsed < dc * (elapsed + idleFor elapsed dc + 1)"
    using d m e D by (simp only: idleFor_exact [OF assms])
qed

end
