(* ===== verification/Blake3_Eval.thy ===== *)
theory Blake3_Eval
  imports Blake3
begin

text \<open>
  Evaluation of the hash on concrete words. A word is written \<open>w32 n\<close> with an integer \<open>n\<close>, on
  which the simplifier computes with literals; the quarter round is mirrored there.
\<close>

definition w32 :: "int \<Rightarrow> u32" where
  "w32 n = word_of_int n"

definition rotr :: "nat \<Rightarrow> int \<Rightarrow> int" where
  "rotr k n = n mod 4294967296 div 2 ^ k OR (n mod 2 ^ k) * 2 ^ (32 - k)"

text \<open>One statement of the quarter round per equation, so that each operand is a literal before it
  is used twice.\<close>

definition q8 :: "int \<Rightarrow> int \<Rightarrow> int \<Rightarrow> int \<Rightarrow> int \<times> int \<times> int \<times> int" where
  "q8 a b c d = (a, rotr 7 (b XOR c), c, d)"
definition q7 :: "int \<Rightarrow> int \<Rightarrow> int \<Rightarrow> int \<Rightarrow> int \<times> int \<times> int \<times> int" where
  "q7 a b c d = q8 a b ((c + d) mod 4294967296) d"
definition q6 :: "int \<Rightarrow> int \<Rightarrow> int \<Rightarrow> int \<Rightarrow> int \<times> int \<times> int \<times> int" where
  "q6 a b c d = q7 a b c (rotr 8 (d XOR a))"
definition q5 :: "int \<Rightarrow> int \<Rightarrow> int \<Rightarrow> int \<Rightarrow> int \<Rightarrow> int \<times> int \<times> int \<times> int" where
  "q5 a b c d y = q6 ((a + (b + y) mod 4294967296) mod 4294967296) b c d"
definition q4 :: "int \<Rightarrow> int \<Rightarrow> int \<Rightarrow> int \<Rightarrow> int \<Rightarrow> int \<times> int \<times> int \<times> int" where
  "q4 a b c d y = q5 a (rotr 12 (b XOR c)) c d y"
definition q3 :: "int \<Rightarrow> int \<Rightarrow> int \<Rightarrow> int \<Rightarrow> int \<Rightarrow> int \<times> int \<times> int \<times> int" where
  "q3 a b c d y = q4 a b ((c + d) mod 4294967296) d y"
definition q2 :: "int \<Rightarrow> int \<Rightarrow> int \<Rightarrow> int \<Rightarrow> int \<Rightarrow> int \<times> int \<times> int \<times> int" where
  "q2 a b c d y = q3 a b c (rotr 16 (d XOR a)) y"
definition gi :: "int \<Rightarrow> int \<Rightarrow> int \<Rightarrow> int \<Rightarrow> int \<Rightarrow> int \<Rightarrow> int \<times> int \<times> int \<times> int" where
  "gi a b c d x y = q2 ((a + (b + x) mod 4294967296) mod 4294967296) b c d y"

lemmas gi_eqs = gi_def q2_def q3_def q4_def q5_def q6_def q7_def q8_def

lemma rotr_eqs:
  "rotr 16 n = n mod 4294967296 div 65536 OR (n mod 65536) * 65536"
  "rotr 12 n = n mod 4294967296 div 4096 OR (n mod 4096) * 1048576"
  "rotr 8 n = n mod 4294967296 div 256 OR (n mod 256) * 16777216"
  "rotr 7 n = n mod 4294967296 div 128 OR (n mod 128) * 33554432"
  by (simp_all add: rotr_def)

lemma rotr_bits: "rotr k n = drop_bit k (take_bit 32 n) OR push_bit (32 - k) (take_bit k n)"
  by (simp add: rotr_def drop_bit_eq_div take_bit_eq_mod push_bit_eq_mult)

lemma rotate_w32:
  assumes "0 < k" and "k < 32"
  shows "RotateLeft32 (w32 n) (- int k) = w32 (rotr k n)"
proof -
  have "(- int k) mod 32 = (32 - int k) mod 32" using mod_add_self1 [of 32 "- int k"] by (simp only: diff_conv_add_uminus)
  also have "\<dots> = 32 - int k" using assms by (intro mod_pos_pos_trivial) simp_all
  finally have "nat ((- int k) mod 32) = 32 - k" using assms by linarith
  then have r: "RotateLeft32 (w32 n) (- int k) = push_bit (32 - k) (w32 n) OR drop_bit k (w32 n)"
    using assms by (simp only: RotateLeft32_def Let_def) simp
  show ?thesis
    unfolding r
  proof (rule bit_word_eqI)
    fix i assume "i < LENGTH(32)"
    then show "bit (push_bit (32 - k) (w32 n) OR drop_bit k (w32 n)) i = bit (w32 (rotr k n)) i"
      using assms by (auto simp: w32_def rotr_bits bit_simps)
  qed
qed

lemma w32_mod: "w32 (a mod 4294967296) = w32 a"
proof -
  have "take_bit 32 a = a mod 4294967296" by (simp add: take_bit_eq_mod)
  then have "take_bit 32 (a mod 4294967296) = take_bit 32 a" by (metis take_bit_take_bit min.idem)
  then show ?thesis by (simp add: w32_def word_of_int_eq_iff)
qed

lemma w32_add: "w32 a + w32 b = w32 ((a + b) mod 4294967296)"
  unfolding w32_mod by (simp add: w32_def)

lemma w32_xor: "w32 a XOR w32 b = w32 (a XOR b)"
  by (rule bit_word_eqI) (simp add: w32_def bit_simps)

lemma w32_literal: "numeral k = w32 (numeral k)" "0 = w32 0" "1 = w32 1"
  by (simp_all add: w32_def)

lemma g_w32:
  "g (w32 a) (w32 b) (w32 c) (w32 d) (w32 x) (w32 y) =
    (case gi a b c d x y of (a, b, c, d) \<Rightarrow> (w32 a, w32 b, w32 c, w32 d))"
proof -
  note rot = rotate_w32 [of 16, simplified] rotate_w32 [of 12, simplified] rotate_w32 [of 8, simplified]
    rotate_w32 [of 7, simplified]
  show ?thesis
    by (simp only: g_def gi_eqs Let_def w32_add w32_xor rot prod.case)
qed

lemma round16_eval:
  "round16 (v0, v1, v2, v3, v4, v5, v6, v7, v8, v9, v10, v11, v12, v13, v14, v15)
      x0 x1 x2 x3 x4 x5 x6 x7 x8 x9 x10 x11 x12 x13 x14 x15 =
    (case g v0 v4 v8 v12 x0 x1 of (v0, v4, v8, v12) \<Rightarrow>
     case g v1 v5 v9 v13 x2 x3 of (v1, v5, v9, v13) \<Rightarrow>
     case g v2 v6 v10 v14 x4 x5 of (v2, v6, v10, v14) \<Rightarrow>
     case g v3 v7 v11 v15 x6 x7 of (v3, v7, v11, v15) \<Rightarrow>
     case g v0 v5 v10 v15 x8 x9 of (v0, v5, v10, v15) \<Rightarrow>
     case g v1 v6 v11 v12 x10 x11 of (v1, v6, v11, v12) \<Rightarrow>
     case g v2 v7 v8 v13 x12 x13 of (v2, v7, v8, v13) \<Rightarrow>
     case g v3 v4 v9 v14 x14 x15 of (v3, v4, v9, v14) \<Rightarrow>
       (v0, v1, v2, v3, v4, v5, v6, v7, v8, v9, v10, v11, v12, v13, v14, v15))"
  by (simp only: round16_def Let_def prod.case)

lemma IV_w32: "IV = map w32 [0x6a09e667, 0xbb67ae85, 0x3c6ef372, 0xa54ff53a,
     0x510e527f, 0x9b05688c, 0x1f83d9ab, 0x5be0cd19]"
  by (simp add: IV_def w32_def)

lemmas compress_eval = compress_rounds [unfolded Let_def] round16_eval g_w32 gi_eqs rotr_eqs out16_def w32_xor

end
