(* ===== verification/Device_Demo.thy ===== *)
theory Device_Demo
  imports Device_Search Blake3_Eval
begin

text \<open>
  Concrete devices, work items and iterations, which start from the device \<open>NewDevice\<close>
  allocates, and a real solution: a header whose BLAKE3 hash ends in a zero word.
\<close>

section \<open>Concrete runs\<close>

definition cl_ok :: cl_status where
  [go_eval]: "cl_ok = \<lparr>stArg = \<lambda>_. 0, stWrite = 0, stLaunch = 0, stRead = 0\<rparr>"

definition quiet :: "work list \<Rightarrow> u32 list \<Rightarrow> iter_env" where
  [go_eval]: "quiet ws out = \<lparr>itArrivals = ws, itSel = RecvWork, itDone = False, itNow = 0,
     itStatus = cl_ok, itElapsed = 0, itOut = out, itIdleDone = False\<rparr>"

definition cancelled :: iter_env where
  [go_eval]: "cancelled = \<lparr>itArrivals = [], itSel = CtxDone, itDone = True, itNow = 0,
     itStatus = cl_ok, itElapsed = 0, itOut = [], itIdleDone = False\<rparr>"

lemma device_ok_fresh [simp]: "device_ok (fresh_device i ''gpu'')" "\<not> hasWork (fresh_device i ''gpu'')"
  by (simp_all add: device_ok_def queue_ok_def fresh_device_def make_chan_def chan_ok_def)

lemma quiet_simps [simp]: "itArrivals (quiet ws out) = ws" "itSel (quiet ws out) = RecvWork"
  "\<not> itDone (quiet ws out)" "itNow (quiet ws out) = 0" "itStatus (quiet ws out) = cl_ok"
  "itElapsed (quiet ws out) = 0" "itOut (quiet ws out) = out" "\<not> itIdleDone (quiet ws out)"
  by (simp_all add: quiet_def)

lemma iter_wf_concrete [simp]: "list_all work_ok ws \<Longrightarrow> iter_wf (quiet ws out)" "iter_wf cancelled"
  by (simp_all add: iter_wf_def quiet_def cancelled_def)

lemma set_args_ok: "set_args (\<lambda>_. 0) as m = Inr (fold (\<lambda>a m. m(fst a \<mapsto> snd a)) as m)"
  by (induction as arbitrary: m) simp_all

lemma setKernelArgs_ok: "\<exists>args. setKernelArgs (stArg cl_ok) d = Inr args"
  by (simp add: setKernelArgs_def cl_ok_def set_args_ok)

lemma deliver_one:
  "deliver [w] (fresh_device i ''gpu'') = (fresh_device i ''gpu'')\<lparr>newWork := \<lparr>chan_cap = 5, chan_buf = [w]\<rparr>\<rparr>"
  by (simp add: SetWork_def fresh_device_def make_chan_def chan_send_def)

text \<open>The first launch of a fresh device.\<close>

definition first_launch :: "nat \<Rightarrow> device" where
  "first_launch i = prepareLaunch 0 (installWork 0 zero_work (fresh_device i ''gpu''))"

lemma first_launching:
  "launching 0 (quiet [zero_work] out) (deliver [zero_work] (fresh_device i ''gpu'')) = Some (first_launch i)"
  by (simp add: launching_def updateCurrentWork_def quiet_def SetWork_def chan_send_def
      chan_recv_def first_launch_def fresh_device_def make_chan_def)

lemma first_ready:
  "device_ok (deliver [zero_work] (fresh_device i ''gpu''))" "installed (first_launch i)"
proof -
  show ok: "device_ok (deliver [zero_work] (fresh_device i ''gpu''))" by (rule deliver_ok) simp_all
  show "installed (first_launch i)"
    by (rule launching_ready [OF ok _ first_launching [of "[]"]]) simp
qed

text \<open>A run of one launch of one work item, by a GPU that executes the kernel.\<close>

lemma first_runs:
  assumes "dWorkSize d = 1"
  shows "\<exists>out. launch_faithful (quiet ws out, d)"
proof -
  obtain args where "setKernelArgs (stArg cl_ok) d = Inr args" using setKernelArgs_ok by blast
  moreover obtain out where "faithful_launch args 1 out" using faithful_launch_exists [of 1] by auto
  ultimately show ?thesis using assms by (auto simp: launch_faithful_def quiet_def split: sum.split)
qed

definition small_device :: device where
  [go_eval]: "small_device = (fresh_device 0 ''gpu'')\<lparr>dWorkSize := 1, dDutyCycle := 100\<rparr>"

definition target_work :: work where
  [go_eval]: "target_work = zero_work\<lparr>wTarget := Some 5\<rparr>"

definition demo_env :: mining_env where
  [go_eval]: "demo_env = \<lparr>benchmark = False, powLimit = 9, hashToBig = \<lambda>b. unat (get_le32 b 0)\<rparr>"

lemma small_device_ok [simp]: "device_ok small_device" "\<not> hasWork small_device"
  "chan_buf (newWork small_device) = []" "dIndex small_device = 0"
  by (simp_all add: small_device_def device_ok_def queue_ok_def fresh_device_def make_chan_def chan_ok_def)

lemma target_work_ok [simp]: "work_ok target_work"
  by (simp add: target_work_def work_ok_def zero_work_def)

text \<open>Launches that return an empty buffer.\<close>

lemma empty_iteration:
  assumes "launching off2 (quiet ws (replicate 64 0)) d = Some d2" and "dDutyCycle d2 = 100"
  shows "run_iteration E off2 (quiet ws (replicate 64 0)) d = IterNext d2 []"
proof -
  obtain args where "setKernelArgs (stArg cl_ok) d2 = Inr args" using setKernelArgs_ok by blast
  with assms show ?thesis
    by (auto simp: run_iteration_def launching_def runKernel_def candidate_count_def idleFor_def
        quiet_def cl_ok_def split: option.splits)
qed

definition idle_device :: "nat \<Rightarrow> device" where
  "idle_device i = (fresh_device i ''gpu'')\<lparr>dWorkSize := 1, dDutyCycle := 100, extraNonce2 := of_nat i * 2 ^ 24\<rparr>"

lemma first_update:
  assumes "newWork d = make_chan 5" and "\<not> hasWork d"
  shows "launching off2 (quiet [w] out) (deliver [w] d) = Some (prepareLaunch 0 (installWork off2 w d))"
  using assms by (cases d) (simp add: launching_def updateCurrentWork_def quiet_def SetWork_def
      chan_send_def chan_recv_def make_chan_def)

lemma one_launch:
  assumes "newWork d = make_chan 5" and "\<not> hasWork d"
  shows "launches E off2 [quiet [w] out] d = [(quiet [w] out, prepareLaunch 0 (installWork off2 w d))]"
  using first_update [OF assms, of off2 w out] by (simp add: quiet_def Let_def split: iter_result.split)

lemma two_launches:
  assumes "newWork d = make_chan 5" and "\<not> hasWork d" and "dDutyCycle d = 100"
  shows "length (launches E off2 [quiet [w] (replicate 64 0), quiet [] (replicate 64 0)] d) = 2"
proof -
  let ?z = "replicate 64 0" and ?d2 = "prepareLaunch 0 (installWork off2 w d)"
  have "run_iteration E off2 (quiet [w] ?z) (deliver [w] d) = IterNext ?d2 []"
    using assms by (intro empty_iteration first_update) (simp_all add: prepareLaunch_def Let_def)
  moreover have "launching off2 (quiet [] ?z) ?d2 = Some (prepareLaunch 0 ?d2)"
    using assms by (simp add: launching_def updateCurrentWork_def quiet_def prepareLaunch_def
        Let_def chan_recv_def make_chan_def)
  ultimately show ?thesis
    using first_update [OF assms(1,2), of off2 w ?z]
    by (simp add: quiet_def Let_def split: iter_result.split)
qed

section \<open>A solution\<close>

text \<open>A work item whose target is met by every hash that ends in a zero word.\<close>

definition easy_work :: work where
  [go_eval]: "easy_work = zero_work\<lparr>wTarget := Some (2 ^ 224 - 1)\<rparr>"

definition hash_env :: mining_env where
  [go_eval]: "hash_env = \<lparr>benchmark = False, powLimit = 2 ^ 224 - 1, hashToBig = le_nat\<rparr>"

text \<open>The small device with its nonces, and as it launches its first kernel.\<close>

definition seed :: "bytes option" where
  [go_eval]: "seed = Some [1, 2, 3, 4, 5, 6, 7, 8]"

definition seeded :: device where
  "seeded = small_device\<lparr>extraNonce := 0x04030201, extraNonce2 := 0x00070605\<rparr>"

lemma seeded: "initNonces 0 seed small_device = Inr seeded"
proof -
  have "get_le32 [1, 2, 3, 4, 5, 6, 7, 8] 0 = 0x04030201" "get_le32 [1, 2, 3, 4, 5, 6, 7, 8] 4 = 0x08070605"
    by (simp_all add: get_le32_def join32_def)
  then show ?thesis
    by (simp add: initNonces_def seed_def Let_def seeded_def)
qed

definition solver :: device where
  "solver = prepareLaunch 0 (installWork 0 easy_work seeded)"

lemma header_midstate_take:
  assumes "take 128 a = take 128 b"
  shows "header_midstate a = header_midstate b"
proof -
  have "slice 0 64 x = take 64 (take 128 x)" "slice 64 128 x = drop 64 (take 128 x)" for x :: bytes
    by (simp_all add: slice_def drop_take min_def)
  then show ?thesis by (simp only: header_midstate_def assms)
qed

lemma zero_words: "intoWords (replicate 64 0) = map w32 [0, 0, 0, 0, 0, 0, 0, 0, 0, 0, 0, 0, 0, 0, 0, 0]"
proof -
  have "get_le32 (replicate 64 0) (4 * i) = 0" if "i < 16" for i
    using that by (simp add: get_le32_def join32_def)
  then have "intoWords (replicate 64 0) = replicate 16 (w32 0)"
    by (auto simp: intoWords_def go_copy_def w32_def intro!: nth_equalityI)
  then show ?thesis by (simp add: numeral_eq_Suc)
qed

lemma zero_block1:
  "compress IV (map w32 [0, 0, 0, 0, 0, 0, 0, 0, 0, 0, 0, 0, 0, 0, 0, 0]) (w32 64) (w32 1) = map w32 [2577740178, 3583466483, 3747605348,
      3075538856, 3153296696, 2043687335, 117226914, 1175927084]"
  by (simp add: IV_w32 compress_eval w32_literal(2))

lemma zero_block2:
  "compress (map w32 [2577740178, 3583466483, 3747605348, 3075538856, 3153296696, 2043687335, 117226914,
      1175927084]) (map w32 [0, 0, 0, 0, 0, 0, 0, 0, 0, 0, 0, 0, 0, 0, 0, 0]) (w32 64) (w32 0) = map w32 [0xeb97df51,
      0x0cca3fd7, 0x6444b5bd, 0x26501275, 0x88e0102e, 0x954a5921, 0x50d833a7, 0x38e52b47]"
  by (simp add: IV_w32 compress_eval w32_literal(2))

lemma zero_midstate:
  "header_midstate (replicate 192 0) = map w32 [0xeb97df51, 0x0cca3fd7, 0x6444b5bd, 0x26501275,
     0x88e0102e, 0x954a5921, 0x50d833a7, 0x38e52b47]"
proof -
  have sl: "slice 0 64 (replicate 192 0 :: bytes) = replicate 64 0" "slice 64 128 (replicate 192 0 :: bytes) = replicate 64 0"
    by (simp_all add: slice_def)
  have w: "(of_nat (length (replicate 64 (0 :: u8))) :: u32) = w32 64" "FlagChunkStart = w32 1" "(0 :: u32) = w32 0"
    by (simp_all add: w32_def FlagChunkStart_def)
  show ?thesis
    unfolding header_midstate_def Block_def block_def sl zero_words w(1,2) zero_block1
    by (subst w(3)) (rule zero_block2)
qed

section \<open>The header the small device finds\<close>

lemma seeded_fresh [simp]: "newWork seeded = make_chan 5" "\<not> hasWork seeded" "dDutyCycle seeded = 100"
  "device_ok seeded"
  by (simp_all add: seeded_def small_device_def device_ok_def queue_ok_def fresh_device_def make_chan_def chan_ok_def)

lemma solver_installed: "installed solver"
proof -
  have "installed (installWork 0 easy_work seeded)"
    by (rule installed_installWork) (simp add: easy_work_def work_ok_def zero_work_def)
  then show ?thesis by (simp add: solver_def installed_def prepareLaunch_def Let_def nth_list_update)
qed

lemma solver_midstate: "midstate solver = header_midstate (replicate 192 0)"
proof -
  have "midstate solver = header_midstate (wData (dWork solver))" using solver_installed by (simp add: installed_def)
  moreover have "take 128 (wData (dWork solver)) = take 128 (replicate 192 0)"
    by (simp add: solver_def installWork_def Let_def byte.take_put easy_work_def zero_work_def)
  ultimately show ?thesis using header_midstate_take by metis
qed

lemma zero_tail: "tail_word (replicate 192 0) i = 0" if "i < 16"
  using that by (simp add: tail_word_def get_le32_def join32_def)

lemma solver_tail: "tail_args (lastBlock solver) = map w32 [0, 0, 0, 0x04030201, 0x00070606, 0, 0, 0, 0, 0, 0, 0]"
proof -
  let ?d = "put_tail (put_tail (replicate 192 0) 4 0x04030201) 5 0x00070605"
  have "device_byte 0 seeded = ?d ! 152"
    by (simp add: device_byte_def seeded_def small_device_def fresh_device_def put_tail_def put_le32_def)
  then have "put_byte ?d 152 (device_byte 0 seeded) = ?d" by (simp add: put_byte_def)
  then have lb: "lastBlock solver = (map (tail_word ?d) [0..<16])[5 := RolloverExtraNonce 0x00070605, 2 := 0]"
    by (simp add: solver_def prepareLaunch_def installWork_def Let_def seeded_def easy_work_def zero_work_def)
  have t: "tail_word ?d i = (if i = 5 then 0x00070605 else if i = 4 then 0x04030201 else 0)" if "i < 16" for i
    using that by (simp add: tail_word_put zero_tail)
  have "RolloverExtraNonce 0x00070605 = (0x00070606 :: u32)" by (simp add: RolloverExtraNonce_def)
  then show ?thesis by (simp add: lb tail_args_def nth_list_update t w32_def)
qed

lemma solver_hit: "kernel_hit (midstate solver) (tail_args (lastBlock solver)) 0xc50036e2"
proof -
  have f: "final_words (map w32 [0, 0, 0, 0x04030201, 0x00070606, 0, 0, 0, 0, 0, 0, 0]) (w32 0xc50036e2)
      = map w32 [0, 0, 0, 0xc50036e2, 0x04030201, 0x00070606, 0, 0, 0, 0, 0, 0, 0, 0, 0, 0]"
    by (simp add: final_words_def w32_def)
  have "compress (map w32 [0xeb97df51, 0x0cca3fd7, 0x6444b5bd, 0x26501275, 0x88e0102e, 0x954a5921, 0x50d833a7, 0x38e52b47])
      (map w32 [0, 0, 0, 0xc50036e2, 0x04030201, 0x00070606, 0, 0, 0, 0, 0, 0, 0, 0, 0, 0]) (w32 52) (w32 10) ! 7 = w32 0"
    by (simp add: IV_w32 compress_eval w32_literal(2))
  moreover have "(52 :: u32) = w32 52" "flagChunkEnd OR flagRoot = w32 10" "(0xc50036e2 :: u32) = w32 0xc50036e2"
    by (simp_all add: w32_def flagChunkEnd_def flagRoot_def)
  moreover have "w32 0 = 0" by (simp add: w32_def)
  ultimately show ?thesis
    unfolding kernel_hit_def solver_midstate solver_tail zero_midstate
    by (subst search_word_compress) (simp, simp only: f)
qed

text \<open>Under \<open>hash_env\<close> every hash that ends in a zero word is a solution of the easy work.\<close>

lemma zero_word_small:
  assumes "length b = 32" and "get_le32 b 28 = 0"
  shows "le_nat b \<le> 2 ^ 224 - 1"
proof -
  have "drop 28 b = le_bytes (get_le32 b 28)"
    using assms(1) by (subst le_bytes_get) (simp_all add: slice_def)
  then have "b = take 28 b @ [0, 0, 0, 0]"
    using append_take_drop_id [of 28 b] by (simp add: assms(2) le_bytes_def)
  then have "le_nat b = le_nat (take 28 b)" by (metis add.right_neutral le_nat.simps le_nat_append mult_0_right unsigned_0)
  moreover have "le_nat (take 28 b) < 256 ^ 28" using le_nat_less [of "take 28 b"] assms(1) by simp
  ultimately show ?thesis by simp
qed

definition found_header :: bytes where
  "found_header = launch_header solver 0xc50036e2"

lemma solver_found:
  fixes k :: u64
  defines "d \<equiv> solver\<lparr>allDiffOneShares := k\<rparr>"
  shows "foundCandidate hash_env (lastBlock d ! TimestampWord) 0xc50036e2 (lastBlock d ! Nonce1Word) (lastBlock d ! Nonce2Word) d
    = Inr (solver\<lparr>allDiffOneShares := k + 1\<rparr>, Some found_header)"
proof -
  have h: "candidate_data d (lastBlock d ! TimestampWord) 0xc50036e2 (lastBlock d ! Nonce1Word) (lastBlock d ! Nonce2Word) = found_header"
    by (simp add: d_def found_header_def launch_header_def candidate_data_def)
  have z: "get_le32 (FinalBlock (midstate solver) (slice 128 180 found_header)) 28 = 0"
    using host_last_word [OF solver_installed] solver_hit by (simp add: found_header_def kernel_hit_def)
  have "le_nat (FinalBlock (midstate solver) (slice 128 180 found_header)) \<le> 2 ^ 224 - 1"
    by (rule zero_word_small [OF _ z]) (simp add: FinalBlock_def asBytes_def length_asBytes_loop)
  moreover have "wTarget (dWork solver) = Some (2 ^ 224 - 1)"
    by (simp add: solver_def installWork_def Let_def easy_work_def prepareLaunch_def)
  ultimately show ?thesis
    unfolding foundCandidate_def h using z by (simp add: d_def hash_env_def)
qed

text \<open>A buffer that reports the nonce once, or several times (a driver may return anything).\<close>

definition report :: "nat \<Rightarrow> u32 list" where
  "report m = of_nat m # replicate m 0xc50036e2 @ replicate (63 - m) 0"

lemma solver_process:
  "\<forall>i \<in> set is. out ! (i + 1) = 0xc50036e2 \<Longrightarrow> process_candidates hash_env out is (solver\<lparr>allDiffOneShares := k\<rparr>)
    = Inr (solver\<lparr>allDiffOneShares := k + of_nat (length is)\<rparr>, replicate (length is) found_header)"
proof (induction "is" arbitrary: k)
  case (Cons i "is")
  have "out ! (i + 1) = 0xc50036e2" using Cons.prems by simp
  then show ?case
    using Cons solver_found [of k] by (simp only: process_candidates.simps) (simp add: add.assoc)
qed simp

lemma solver_iteration:
  assumes "m \<le> 63"
  shows "run_iteration hash_env 0 (quiet ws (report m)) (deliver [easy_work] seeded)
    = IterNext (solver\<lparr>allDiffOneShares := of_nat m\<rparr>) (replicate m found_header)"
proof -
  define start where "start = deliver [easy_work] seeded"
  have "launching 0 (quiet [easy_work] (report m)) start = Some solver"
    using first_update [of seeded 0 easy_work "report m"] by (simp add: solver_def start_def del: deliver.simps)
  then obtain d1 where u: "updateCurrentWork 0 RecvWork start = Some d1" and d1: "prepareLaunch 0 d1 = solver"
    by (auto simp: launching_def split: option.splits)
  obtain args where a: "setKernelArgs (stArg cl_ok) solver = Inr args" using setKernelArgs_ok by auto
  have k: "runKernel cl_ok 0 (report m) = Inr (0, report m)"
    by (simp add: runKernel_def cl_ok_def)
  have c: "candidate_count (report m) = m"
    using assms by (simp add: candidate_count_def report_def min_def word_le_nat_alt unat_of_nat take_bit_nat_eq_self)
  have n: "\<forall>i \<in> set [0..<m]. report m ! (i + 1) = 0xc50036e2"
    by (simp add: report_def nth_append)
  have "solver\<lparr>allDiffOneShares := 0\<rparr> = solver"
    by (simp add: solver_def prepareLaunch_def installWork_def Let_def seeded_def small_device_def fresh_device_def)
  with solver_process [OF n, of 0]
  have p: "process_candidates hash_env (report m) [0..<m] solver
      = Inr (solver\<lparr>allDiffOneShares := of_nat m\<rparr>, replicate m found_header)" by simp
  have "dDutyCycle solver = 100"
    by (simp add: solver_def prepareLaunch_def installWork_def Let_def)
  then show ?thesis
    unfolding start_def [symmetric] by (simp add: run_iteration_def u d1 a k c p idleFor_def)
qed

lemma solver_run:
  assumes "m \<le> 63"
  shows "\<exists>d'. runDevice hash_env 0 0 seed [quiet [easy_work] (report m)] small_device = (Running, d', replicate m found_header)"
  using solver_iteration [OF assms, of "[easy_work]"] by (simp add: runDevice_def seeded Let_def del: deliver.simps)

end
