(* ===== verification/Go_Strings.thy ===== *)
theory Go_Strings
  imports Prelude "HOL-Library.Sublist"
begin

text \<open>
  What the program uses of Go's strings, strconv, encoding/hex and net packages. A Go string
  is its sequence of bytes, as a \<open>string\<close> of 8-bit characters.
\<close>

section \<open>Characters\<close>

definition byte_of :: "char \<Rightarrow> nat" where
  [go_eval]: "byte_of c = of_char c"

lemma byte_of_less [simp]: "byte_of c < 256"
  by (simp add: byte_of_def)

lemma byte_of_char [simp]: "n < 256 \<Longrightarrow> byte_of (char_of n) = n"
  by (simp add: byte_of_def)

lemma char_of_byte [simp]: "char_of (byte_of c) = c"
  by (simp add: byte_of_def)

lemma byte_of_eq_iff [simp]: "byte_of c = byte_of d \<longleftrightarrow> c = d"
  by (metis char_of_byte)

section \<open>strings.Split, strings.Join, strings.Cut\<close>

fun Split :: "char \<Rightarrow> string \<Rightarrow> string list" where
  "Split c [] = [[]]"
| "Split c (x # xs) = (if x = c then [] # Split c xs
     else (case Split c xs of [] \<Rightarrow> [[x]] | f # fs \<Rightarrow> (x # f) # fs))"

fun Join :: "string \<Rightarrow> string list \<Rightarrow> string" where
  "Join sep [] = []"
| "Join sep [f] = f"
| "Join sep (f # fs) = f @ sep @ Join sep fs"

text \<open>The part before the first separator, or the whole string.\<close>

definition Cut :: "string \<Rightarrow> char \<Rightarrow> string" where
  [go_eval]: "Cut s c = takeWhile (\<lambda>x. x \<noteq> c) s"

lemma Split_not_Nil [simp]: "Split c s \<noteq> []"
  by (induction s) (auto split: list.splits)

lemma Split_clean: "c \<notin> set f \<Longrightarrow> Split c f = [f]"
  by (induction f) auto

lemma Split_append: "c \<notin> set f \<Longrightarrow> Split c (f @ c # s) = f # Split c s"
  by (induction f) auto

lemma Split_sep: "Split c (s @ c # t) = Split c s @ Split c t"
  by (induction s) (auto split: list.splits)

lemma Split_Join:
  "fs \<noteq> [] \<Longrightarrow> (\<And>f. f \<in> set fs \<Longrightarrow> c \<notin> set f) \<Longrightarrow> Split c (Join [c] fs) = fs"
  by (induction "[c]" fs rule: Join.induct) (auto simp: Split_clean Split_append)

lemma Join_Split: "Join [c] (Split c s) = s"
proof (induction s)
  case Nil
  then show ?case by simp
next
  case (Cons x s)
  then show ?case
    by (cases "Split c s" rule: list.exhaust; cases "tl (Split c s)") (auto split: list.splits)
qed

lemma Split_fields: "f \<in> set (Split c s) \<Longrightarrow> c \<notin> set f"
  by (induction s arbitrary: f) (auto split: if_splits list.splits)

section \<open>strings.TrimSpace, bytes.TrimRight\<close>

text \<open>The UTF-8 encodings of the runes \<open>unicode.IsSpace\<close> accepts.\<close>

definition space_runes :: "string list" where
  [go_eval]: "space_runes = [[CHR 0x09], [CHR 0x0A], [CHR 0x0B], [CHR 0x0C], [CHR 0x0D], [CHR 0x20],
     [CHR 0xC2, CHR 0x85], [CHR 0xC2, CHR 0xA0], [CHR 0xE1, CHR 0x9A, CHR 0x80]]
   @ map (\<lambda>n. [CHR 0xE2, CHR 0x80, char_of n])
       [0x80, 0x81, 0x82, 0x83, 0x84, 0x85, 0x86, 0x87, 0x88, 0x89, 0x8A, 0xA8, 0xA9, 0xAF :: nat]
   @ [[CHR 0xE2, CHR 0x81, CHR 0x9F], [CHR 0xE3, CHR 0x80, CHR 0x80]]"

text \<open>Remove pieces of the list from the front as long as there is one.\<close>

function strip :: "string list \<Rightarrow> string \<Rightarrow> string" where
  "strip ps s = (case find (\<lambda>p. p \<noteq> [] \<and> prefix p s) ps of None \<Rightarrow> s
     | Some p \<Rightarrow> strip ps (drop (length p) s))"
  by pat_completeness auto
termination
proof (relation "measure (\<lambda>(ps, s). length s)")
  fix ps s p
  assume "find (\<lambda>p. p \<noteq> [] \<and> prefix p s) ps = Some p"
  then have "p \<noteq> [] \<and> prefix p s" by (auto simp: find_Some_iff)
  then have "0 < length p" and "length p \<le> length s" by (simp_all add: prefix_length_le)
  then have "length s - length p < length s" by linarith
  then show "((ps, drop (length p) s), (ps, s)) \<in> measure (\<lambda>(ps, s). length s)" by simp
qed simp

declare strip.simps [simp del]

definition TrimSpace :: "string \<Rightarrow> string" where
  [go_eval]: "TrimSpace s = rev (strip (map rev space_runes) (rev (strip space_runes s)))"

definition TrimNul :: "string \<Rightarrow> string" where
  [go_eval]: "TrimNul s = rev (dropWhile (\<lambda>c. c = CHR 0x00) (rev s))"

text \<open>A string with no space at either end is kept.\<close>

lemma strip_keep: "(\<And>p. p \<in> set ps \<Longrightarrow> p \<noteq> [] \<Longrightarrow> \<not> prefix p s) \<Longrightarrow> strip ps s = s"
proof -
  assume "\<And>p. p \<in> set ps \<Longrightarrow> p \<noteq> [] \<Longrightarrow> \<not> prefix p s"
  then have "find (\<lambda>p. p \<noteq> [] \<and> prefix p s) ps = None" by (auto simp: find_None_iff)
  then show ?thesis by (subst strip.simps) simp
qed

lemma prefix_hd: "prefix p s \<Longrightarrow> p \<noteq> [] \<Longrightarrow> s \<noteq> [] \<and> hd s = hd p"
  by (cases p; cases s) auto

lemma TrimSpace_keep:
  assumes "\<And>p. p \<in> set space_runes \<Longrightarrow> s \<noteq> [] \<Longrightarrow> hd s \<noteq> hd p \<and> last s \<noteq> last p"
  shows "TrimSpace s = s"
proof -
  have "strip space_runes s = s"
    using assms prefix_hd by (intro strip_keep) fastforce
  moreover have "strip (map rev space_runes) (rev s) = rev s"
  proof (rule strip_keep)
    fix p assume "p \<in> set (map rev space_runes)" and ne: "p \<noteq> []"
    then obtain q where q: "q \<in> set space_runes" "p = rev q" by auto
    with assms [OF q(1)] ne show "\<not> prefix p (rev s)"
      using prefix_hd [of p "rev s"] by (auto simp: hd_rev)
  qed
  ultimately show ?thesis by (simp add: TrimSpace_def)
qed

text \<open>A string that begins and ends with a graphic ASCII character is kept.\<close>

definition graphic :: "char \<Rightarrow> bool" where
  [go_eval]: "graphic c \<longleftrightarrow> 0x20 < byte_of c \<and> byte_of c < 0x7F"

lemma space_ends:
  "p \<in> set space_runes \<Longrightarrow> \<not> graphic (hd p) \<and> \<not> graphic (last p)"
  by (auto simp: space_runes_def graphic_def byte_of_def)

lemma TrimSpace_graphic: "s = [] \<or> graphic (hd s) \<and> graphic (last s) \<Longrightarrow> TrimSpace s = s"
  using space_ends by (intro TrimSpace_keep) metis

text \<open>Nothing is removed from beyond a graphic character.\<close>

lemma space_not_graphic: "p \<in> set space_runes \<Longrightarrow> c \<in> set p \<Longrightarrow> \<not> graphic c"
  by (auto simp: space_runes_def graphic_def byte_of_def)

lemma strip_stops:
  assumes "\<And>p. p \<in> set ps \<Longrightarrow> c \<notin> set p"
  shows "\<exists>a'. strip ps (a @ c # b) = a' @ c # b"
proof (induction a rule: length_induct)
  case (1 a)
  show ?case
  proof (cases "find (\<lambda>p. p \<noteq> [] \<and> prefix p (a @ c # b)) ps")
    case None
    then show ?thesis by (subst strip.simps) auto
  next
    case (Some p)
    then have p: "p \<in> set ps" "p \<noteq> []" "prefix p (a @ c # b)" by (auto simp: find_Some_iff)
    have "length p \<le> length a"
    proof (rule ccontr)
      assume "\<not> length p \<le> length a"
      moreover obtain z where "a @ c # b = p @ z" using p(3) by (auto simp: prefix_def)
      ultimately have "p ! length a = c" by (metis nth_append nth_append_length not_le)
      then show False using assms [OF p(1)] \<open>\<not> length p \<le> length a\<close> by (metis not_le nth_mem)
    qed
    then have d: "drop (length p) (a @ c # b) = drop (length p) a @ c # b" by simp
    have "length (drop (length p) a) < length a" using p(2) \<open>length p \<le> length a\<close> by (cases p) auto
    with 1 obtain a' where "strip ps (drop (length p) a @ c # b) = a' @ c # b" by blast
    moreover have "strip ps (a @ c # b) = strip ps (drop (length p) (a @ c # b))"
      using Some by (subst strip.simps) (simp only: option.case)
    ultimately show ?thesis by (simp only: d) blast
  qed
qed

lemma TrimSpace_key:
  assumes "k \<noteq> []" and "\<forall>c \<in> set k. graphic c \<and> c \<noteq> e" and "graphic e"
  shows "\<exists>v'. TrimSpace (k @ e # v) = k @ e # v'"
proof -
  have "strip space_runes (k @ e # v) = k @ e # v"
  proof (rule strip_keep)
    fix p assume "p \<in> set space_runes" and "p \<noteq> []"
    then show "\<not> prefix p (k @ e # v)"
      using space_ends [of p] prefix_hd [of p "k @ e # v"] assms(1,2) by (metis hd_append2 hd_in_set)
  qed
  moreover have "e \<notin> set p" if "p \<in> set (map rev space_runes)" for p
    using that space_not_graphic assms(3) by auto
  from strip_stops [OF this, where a = "rev v" and b = "rev k"]
  obtain a' where "strip (map rev space_runes) (rev v @ e # rev k) = a' @ e # rev k" by blast
  ultimately show ?thesis by (simp add: TrimSpace_def)
qed

lemma TrimSpace_hd:
  assumes "graphic c"
  shows "\<exists>t. TrimSpace (c # s) = c # t"
proof -
  have "strip space_runes (c # s) = c # s"
  proof (rule strip_keep)
    fix p assume "p \<in> set space_runes" and "p \<noteq> []"
    then show "\<not> prefix p (c # s)" using space_ends [of p] prefix_hd [of p "c # s"] assms by auto
  qed
  moreover have "c \<notin> set p" if "p \<in> set (map rev space_runes)" for p
    using that space_not_graphic assms by auto
  from strip_stops [OF this, where a = "rev s" and b = "[]"]
  obtain a' where "strip (map rev space_runes) (rev s @ [c]) = a' @ [c]" by blast
  ultimately show ?thesis by (simp add: TrimSpace_def)
qed

text \<open>What is left has lost nothing but its ends.\<close>

lemma suffix_strip: "suffix (strip ps s) s"
proof (induction ps s rule: strip.induct)
  case (1 ps s)
  show ?case
  proof (cases "find (\<lambda>p. p \<noteq> [] \<and> prefix p s) ps")
    case None
    then show ?thesis by (subst strip.simps) simp
  next
    case (Some p)
    have "suffix (strip ps (drop (length p) s)) (drop (length p) s)" using 1 Some by blast
    also have "suffix (drop (length p) s) s" by (rule suffix_drop)
    finally show ?thesis using Some by (subst strip.simps) simp
  qed
qed

lemma strip_hd: "[c] \<in> set ps \<Longrightarrow> strip ps s \<noteq> c # t"
proof (induction ps s rule: strip.induct)
  case (1 ps s)
  show ?case
  proof (cases "find (\<lambda>p. p \<noteq> [] \<and> prefix p s) ps")
    case None
    then have "\<not> prefix [c] s" using 1(2) by (auto simp: find_None_iff)
    then show ?thesis using None by (subst strip.simps) (auto simp: strip.simps)
  next
    case (Some p)
    then show ?thesis using 1 by (subst strip.simps) simp
  qed
qed

lemma TrimSpace_no_newline:
  assumes "CHR 0x0A \<notin> set (butlast l)"
  shows "CHR 0x0A \<notin> set (TrimSpace l)"
proof -
  let ?u = "strip space_runes l" and ?ps = "map rev space_runes"
  obtain y where "l = y @ ?u" using suffix_strip [of space_runes l] by (auto elim: suffixE)
  then have "butlast l = (if ?u = [] then butlast y else y @ butlast ?u)" by (metis butlast_append append_Nil2)
  then have u: "CHR 0x0A \<notin> set (butlast ?u)" using assms by (auto split: if_splits)
  obtain z where z: "rev ?u = z @ strip ?ps (rev ?u)"
    using suffix_strip [of ?ps "rev ?u"] by (auto elim: suffixE)
  have "[CHR 0x0A] \<in> set ?ps" by (simp add: space_runes_def)
  from strip_hd [OF this] have "strip ?ps (rev ?u) \<noteq> CHR 0x0A # t" for t by blast
  then have h: "strip ?ps (rev ?u) = x # t \<Longrightarrow> x \<noteq> CHR 0x0A" for x t by blast
  have tl: "CHR 0x0A \<notin> set (tl (rev ?u))" using u by (metis butlast_rev rev_rev_ident set_rev)
  have "CHR 0x0A \<notin> set (strip ?ps (rev ?u))"
  proof (cases z)
    case Nil
    then have e: "strip ?ps (rev ?u) = rev ?u" using z by simp
    show ?thesis
    proof (cases "rev ?u")
      case (Cons x t)
      then show ?thesis using h [of x t] tl e by simp
    next
      case Nil
      show ?thesis using e unfolding Nil by simp
    qed
  next
    case (Cons x t)
    then have "rev ?u = x # t @ strip ?ps (rev ?u)" using z by (simp only: append_Cons)
    then have "tl (rev ?u) = t @ strip ?ps (rev ?u)" by (metis list.sel(3))
    then show ?thesis using tl by simp
  qed
  then show ?thesis by (simp add: TrimSpace_def)
qed

section \<open>strconv.Itoa, strconv.Atoi\<close>

definition digit_char :: "nat \<Rightarrow> char" where
  [go_eval]: "digit_char d = char_of (48 + d)"

definition is_digit :: "char \<Rightarrow> bool" where
  [go_eval]: "is_digit c \<longleftrightarrow> 48 \<le> byte_of c \<and> byte_of c \<le> 57"

fun digits :: "nat \<Rightarrow> string" where
  "digits n = (if n < 10 then [digit_char n] else digits (n div 10) @ [digit_char (n mod 10)])"

declare digits.simps [simp del]

definition Itoa :: "int \<Rightarrow> string" where
  [go_eval]: "Itoa i = (if i < 0 then CHR ''-'' # digits (nat (- i)) else digits (nat i))"

datatype num_error = ErrSyntax | ErrRange

text \<open>The loop of \<open>ParseUint\<close> in base ten, which stops at the first digit that overflows.\<close>

fun parse_uint :: "string \<Rightarrow> nat \<Rightarrow> num_error + nat" where
  "parse_uint [] n = Inr n"
| "parse_uint (c # cs) n =
    (if \<not> is_digit c then Inl ErrSyntax
     else if 1844674407370955162 \<le> n then Inl ErrRange
     else let n1 = n * 10 + (byte_of c - 48)
          in if 2 ^ 64 \<le> n1 then Inl ErrRange else parse_uint cs n1)"

definition parse_digits :: "string \<Rightarrow> num_error + nat" where
  [go_eval]: "parse_digits s = (if s = [] then Inl ErrSyntax else parse_uint s 0)"

definition Atoi :: "string \<Rightarrow> num_error + int" where
  "Atoi s =
    (case s of
       CHR ''-'' # t \<Rightarrow> bindr (parse_digits t) (\<lambda>n. if 2 ^ 63 < n then Inl ErrRange else Inr (- int n))
     | CHR ''+'' # t \<Rightarrow> bindr (parse_digits t) (\<lambda>n. if 2 ^ 63 \<le> n then Inl ErrRange else Inr (int n))
     | _ \<Rightarrow> bindr (parse_digits s) (\<lambda>n. if 2 ^ 63 \<le> n then Inl ErrRange else Inr (int n)))"

lemma digit_char [simp]:
  "d < 10 \<Longrightarrow> byte_of (digit_char d) = 48 + d" "d < 10 \<Longrightarrow> is_digit (digit_char d)"
  by (simp_all add: digit_char_def is_digit_def)

lemma decimal_chars:
  "char_of (48 :: nat) = CHR ''0''" "char_of (49 :: nat) = CHR ''1''" "char_of (50 :: nat) = CHR ''2''"
  "char_of (51 :: nat) = CHR ''3''" "char_of (52 :: nat) = CHR ''4''" "char_of (53 :: nat) = CHR ''5''"
  "char_of (54 :: nat) = CHR ''6''" "char_of (55 :: nat) = CHR ''7''" "char_of (56 :: nat) = CHR ''8''"
  "char_of (57 :: nat) = CHR ''9''"
  by (simp_all add: char_of_eq_iff)

text \<open>Printing a numeral.\<close>

lemmas Itoa_eval = Itoa_def digits.simps digit_char_def decimal_chars

lemma digits_are_digits: "c \<in> set (digits n) \<Longrightarrow> is_digit c"
proof (induction n rule: digits.induct)
  case (1 n)
  then show ?case by (subst (asm) digits.simps) (auto split: if_splits)
qed

lemma digits_not_Nil [simp]: "digits n \<noteq> []"
  by (subst digits.simps) simp

lemma parse_uint_append:
  "parse_uint s n = Inr m \<Longrightarrow> parse_uint (s @ t) n = parse_uint t m"
  by (induction s n rule: parse_uint.induct) (auto simp: Let_def split: if_splits)

lemma parse_uint_digits: "n < 2 ^ 64 \<Longrightarrow> parse_uint (digits n) 0 = Inr n"
proof (induction n rule: digits.induct)
  case (1 n)
  show ?case
  proof (cases "n < 10")
    case True
    then show ?thesis by (subst digits.simps) simp
  next
    case False
    then have "parse_uint (digits (n div 10)) 0 = Inr (n div 10)"
      using 1 by simp
    note step = parse_uint_append [OF this, of "[digit_char (n mod 10)]"]
    have "n div 10 \<le> 1844674407370955161" using 1(2) by simp
    moreover have "n div 10 * 10 + n mod 10 = n" by simp
    ultimately show ?thesis
      using False 1(2) by (subst digits.simps) (simp add: step)
  qed
qed

lemma digits_hd: "is_digit (hd (digits n))" "is_digit (last (digits n))"
  using digits_are_digits [of "hd (digits n)" n] digits_are_digits [of "last (digits n)" n]
  by simp_all

lemma Atoi_plain:
  "s \<noteq> [] \<Longrightarrow> is_digit (hd s) \<Longrightarrow>
   Atoi s = bindr (parse_digits s) (\<lambda>n. if 2 ^ 63 \<le> n then Inl ErrRange else Inr (int n))"
  by (cases s) (auto simp: Atoi_def is_digit_def byte_of_def split: list.splits char.splits bool.splits)

lemma Atoi_Itoa:
  assumes "in64 i"
  shows "Atoi (Itoa i) = Inr i"
proof (cases "i < 0")
  case True
  then have "nat (- i) \<le> 2 ^ 63" using assms by (simp add: in64_def nat_le_iff)
  then show ?thesis
    using True by (simp add: Itoa_def Atoi_def parse_digits_def parse_uint_digits)
next
  case False
  then have "nat i < 2 ^ 63" using assms by (simp add: in64_def nat_less_iff)
  moreover from this have "parse_digits (digits (nat i)) = Inr (nat i)"
    by (simp add: parse_digits_def parse_uint_digits)
  ultimately show ?thesis
    using False by (simp add: Itoa_def Atoi_plain digits_hd)
qed

lemma Atoi_in64: "Atoi s = Inr i \<Longrightarrow> in64 i"
  by (auto simp: Atoi_def in64_def bindr_Inr_iff split: list.splits if_splits char.splits bool.splits)

lemma Itoa_graphic: "graphic (hd (Itoa i))" "graphic (last (Itoa i))" "Itoa i \<noteq> []"
proof -
  have d: "is_digit c \<Longrightarrow> graphic c" for c by (auto simp: is_digit_def graphic_def)
  show "Itoa i \<noteq> []" by (simp add: Itoa_def)
  show "graphic (hd (Itoa i))"
    using d [OF digits_hd(1)] by (simp add: Itoa_def) (simp add: graphic_def byte_of_def)
  show "graphic (last (Itoa i))"
    using d [OF digits_hd(2)] by (simp add: Itoa_def)
qed

lemma TrimSpace_Itoa [simp]: "TrimSpace (Itoa i) = Itoa i"
  by (simp add: TrimSpace_graphic Itoa_graphic)

lemma Itoa_chars: "c \<in> set (Itoa i) \<Longrightarrow> is_digit c \<or> c = CHR ''-''"
  by (auto simp: Itoa_def split: if_splits dest: digits_are_digits)

lemma Itoa_no_comma [simp]: "CHR '','' \<notin> set (Itoa i)"
  using Itoa_chars [of "CHR '',''" i] by (auto simp: is_digit_def byte_of_def)

section \<open>encoding/hex\<close>

definition hex_digit :: "nat \<Rightarrow> char" where
  [go_eval]: "hex_digit d = (if d < 10 then char_of (48 + d) else char_of (87 + d))"

definition from_hex :: "char \<Rightarrow> nat option" where
  [go_eval]: "from_hex c = (let b = byte_of c in
     if 48 \<le> b \<and> b \<le> 57 then Some (b - 48)
     else if 97 \<le> b \<and> b \<le> 102 then Some (b - 87)
     else if 65 \<le> b \<and> b \<le> 70 then Some (b - 55) else None)"

primrec EncodeToString :: "bytes \<Rightarrow> string" where
  "EncodeToString [] = []"
| "EncodeToString (b # bs) = hex_digit (unat b div 16) # hex_digit (unat b mod 16) # EncodeToString bs"

datatype hex_error = InvalidByte char | ErrLength

fun DecodeString :: "string \<Rightarrow> hex_error + bytes" where
  "DecodeString [] = Inr []"
| "DecodeString [c] = (case from_hex c of None \<Rightarrow> Inl (InvalidByte c) | Some _ \<Rightarrow> Inl ErrLength)"
| "DecodeString (c # d # s) =
     (case from_hex c of None \<Rightarrow> Inl (InvalidByte c)
      | Some a \<Rightarrow> (case from_hex d of None \<Rightarrow> Inl (InvalidByte d)
        | Some b \<Rightarrow> bindr (DecodeString s) (\<lambda>bs. Inr (of_nat (a * 16 + b) # bs))))"

lemma from_hex_digit [simp]: "d < 16 \<Longrightarrow> from_hex (hex_digit d) = Some d"
  by (auto simp: from_hex_def hex_digit_def)

lemma from_hex_less: "from_hex c = Some d \<Longrightarrow> d < 16"
  by (auto simp: from_hex_def Let_def split: if_splits)

lemma unat_byte_less: "unat b < 256" for b :: u8
  using unsigned_less [of b] by simp

lemma DecodeString_Encode: "DecodeString (EncodeToString bs) = Inr bs"
proof (induction bs)
  case Nil
  then show ?case by simp
next
  case (Cons b bs)
  have "unat b div 16 < 16" using unat_byte_less [of b] by simp
  moreover have "of_nat (unat b div 16 * 16 + unat b mod 16) = b" by simp
  ultimately show ?case using Cons by simp
qed

section \<open>strings.EqualFold\<close>

text \<open>
  Simple case folding, exact when one side is ASCII: besides the ASCII letters the Kelvin sign
  (U+212A) folds with k and the long s (U+017F) with s. Other pairs of non-ASCII letters
  that fold together are not identified here.
\<close>

fun fold_case :: "string \<Rightarrow> string" where
  "fold_case [] = []"
| "fold_case (c # s) =
    (if c = CHR 0xE2 \<and> take 2 s = [CHR 0x84, CHR 0xAA] then CHR ''k'' # fold_case (drop 2 s)
     else if c = CHR 0xC5 \<and> take 1 s = [CHR 0xBF] then CHR ''s'' # fold_case (drop 1 s)
     else if 65 \<le> byte_of c \<and> byte_of c \<le> 90 then char_of (byte_of c + 32) # fold_case s
     else c # fold_case s)"

definition EqualFold :: "string \<Rightarrow> string \<Rightarrow> bool" where
  [go_eval]: "EqualFold s t \<longleftrightarrow> fold_case s = fold_case t"

lemma fold_hex: "from_hex c = Some d \<Longrightarrow> fold_case (c # s) = hex_digit d # fold_case s"
  by (auto simp: from_hex_def hex_digit_def Let_def byte_of_def split: if_splits)

lemma hex_digit_not: "d < 16 \<Longrightarrow> hex_digit d \<noteq> CHR ''k''" "d < 16 \<Longrightarrow> hex_digit d \<noteq> CHR ''s''"
  "d < 16 \<Longrightarrow> 48 \<le> byte_of (hex_digit d)"
  "d < 16 \<Longrightarrow> byte_of (hex_digit d) = (if d < 10 then 48 + d else 87 + d)"
proof -
  show b: "d < 16 \<Longrightarrow> byte_of (hex_digit d) = (if d < 10 then 48 + d else 87 + d)" for d
    by (simp add: hex_digit_def)
  show "d < 16 \<Longrightarrow> hex_digit d \<noteq> CHR ''k''"
    using b [of d] by (auto simp: byte_of_def split: if_splits)
  show "d < 16 \<Longrightarrow> hex_digit d \<noteq> CHR ''s''"
    using b [of d] by (auto simp: byte_of_def split: if_splits)
  show "d < 16 \<Longrightarrow> 48 \<le> byte_of (hex_digit d)" by (simp add: b)
qed

lemma fold_is_hex:
  assumes "fold_case s = hex_digit d # t" and "d < 16"
  shows "\<exists>c s'. s = c # s' \<and> from_hex c = Some d \<and> fold_case s' = t"
proof (cases s)
  case Nil
  then show ?thesis using assms by simp
next
  case (Cons c s')
  consider "65 \<le> byte_of c" "byte_of c \<le> 90" "char_of (byte_of c + 32) = hex_digit d" "fold_case s' = t"
    | "\<not> (65 \<le> byte_of c \<and> byte_of c \<le> 90)" "c = hex_digit d" "fold_case s' = t"
    using assms hex_digit_not(1,2) [of d] Cons by (auto split: if_splits)
  then show ?thesis
  proof cases
    case 1
    have "byte_of (char_of (byte_of c + 32)) = byte_of c + 32" using 1 by (intro byte_of_char) simp
    then have "byte_of c + 32 = byte_of (hex_digit d)" using 1(3) by simp
    then have "from_hex c = Some d"
      using 1 assms(2) by (auto simp: from_hex_def Let_def hex_digit_not split: if_splits)
    then show ?thesis using Cons 1 by simp
  next
    case 2
    then show ?thesis using Cons assms(2) by simp
  qed
qed

text \<open>Against a string \<open>EncodeToString\<close> made, folding compares the decoded bytes.\<close>

lemma fold_Encode [simp]: "fold_case (EncodeToString bs) = EncodeToString bs"
proof (induction bs)
  case Nil
  then show ?case by simp
next
  case (Cons b bs)
  have d: "unat b div 16 < 16" "unat b mod 16 < 16" using unat_byte_less [of b] by simp_all
  show ?case
    using Cons d by (simp only: EncodeToString.simps fold_hex [OF from_hex_digit [OF d(1)]]
        fold_hex [OF from_hex_digit [OF d(2)]])
qed

lemma EqualFold_hex: "EqualFold s (EncodeToString bs) \<longleftrightarrow> DecodeString s = Inr bs"
proof (induction bs arbitrary: s)
  case Nil
  have "fold_case s = [] \<longleftrightarrow> s = []" by (cases s) auto
  moreover have "DecodeString s = Inr [] \<longleftrightarrow> s = []"
    by (cases s rule: DecodeString.cases) (auto split: option.splits simp: bindr_Inr_iff)
  ultimately show ?case by (simp add: EqualFold_def)
next
  case (Cons b bs)
  have d: "unat b div 16 < 16" "unat b mod 16 < 16" using unat_byte_less [of b] by simp_all
  have b: "of_nat (unat b div 16 * 16 + unat b mod 16) = b" by simp
  show ?case
  proof
    assume "EqualFold s (EncodeToString (b # bs))"
    then have f: "fold_case s = hex_digit (unat b div 16) # hex_digit (unat b mod 16) # EncodeToString bs"
      by (simp only: EqualFold_def fold_Encode) simp
    then obtain c s1 where 1: "s = c # s1" "from_hex c = Some (unat b div 16)"
        "fold_case s1 = hex_digit (unat b mod 16) # EncodeToString bs"
      using fold_is_hex [OF f d(1)] by auto
    obtain e s2 where 2: "s1 = e # s2" "from_hex e = Some (unat b mod 16)" "fold_case s2 = EncodeToString bs"
      using fold_is_hex [OF 1(3) d(2)] by auto
    then have "DecodeString s2 = Inr bs" using Cons by (simp add: EqualFold_def)
    then show "DecodeString s = Inr (b # bs)" using 1 2 b by simp
  next
    assume "DecodeString s = Inr (b # bs)"
    then obtain c e s2 x y where s: "s = c # e # s2" "from_hex c = Some x" "from_hex e = Some y"
        "DecodeString s2 = Inr bs" "of_nat (x * 16 + y) = b"
      by (cases s rule: DecodeString.cases) (auto split: option.splits simp: bindr_Inr_iff)
    have xy: "x < 16" "y < 16" using s from_hex_less by auto
    then have "unat (of_nat (x * 16 + y) :: u8) = x * 16 + y"
      by (simp only: unat_of_nat) simp
    then have "unat b = x * 16 + y" by (simp only: s(5))
    then have "unat b div 16 = x" "unat b mod 16 = y" using xy by simp_all
    moreover have "fold_case s2 = EncodeToString bs" using Cons s(4) by (simp add: EqualFold_def)
    ultimately show "EqualFold s (EncodeToString (b # bs))"
      unfolding EqualFold_def fold_Encode
      by (simp only: s(1) fold_hex [OF s(2)] fold_hex [OF s(3)] EncodeToString.simps)
  qed
qed

end
