(* ===== verification/Go_Path.thy ===== *)
theory Go_Path
  imports Go_Strings
begin

text \<open>What the program uses of path/filepath: \<open>Clean\<close>, \<open>Join\<close> and \<open>Dir\<close> for Unix paths, \<open>IsAbs\<close> for those of Windows.\<close>

definition slash :: char where [go_eval]: "slash = CHR ''/''"

text \<open>One component after the other: empty ones and dots go, a double dot removes its parent.\<close>

definition clean_step :: "bool \<Rightarrow> string \<Rightarrow> string list \<Rightarrow> string list" where
  "clean_step rooted c acc =
    (if c = [] \<or> c = ''.'' then acc
     else if c = ''..'' then
       (if acc \<noteq> [] \<and> last acc \<noteq> ''..'' then butlast acc else if rooted then acc else acc @ [c])
     else acc @ [c])"

definition Clean :: "string \<Rightarrow> string" where
  "Clean s =
    (if s = [] then ''.''
     else let rooted = (hd s = slash);
              body = Join [slash] (fold (clean_step rooted) (Split slash s) [])
          in if rooted then slash # body else if body = [] then ''.'' else body)"

definition JoinPath :: "string \<Rightarrow> string \<Rightarrow> string" where
  "JoinPath a b = (if a \<noteq> [] then Clean (a @ slash # b) else if b \<noteq> [] then Clean b else [])"

definition Dir :: "string \<Rightarrow> string" where
  "Dir s = Clean (rev (dropWhile (\<lambda>c. c \<noteq> slash) (rev s)))"

text \<open>Joining a plain name to a clean absolute path appends it.\<close>

lemma Join_snoc: "fs \<noteq> [] \<Longrightarrow> Join sep (fs @ [f]) = Join sep fs @ sep @ f"
  by (induction sep fs rule: Join.induct) (auto simp: neq_Nil_conv)

lemma clean_fold_plain:
  "(\<And>c. c \<in> set cs \<Longrightarrow> c \<noteq> [] \<and> c \<noteq> ''.'' \<and> c \<noteq> ''..'') \<Longrightarrow> fold (clean_step r) cs acc = acc @ cs"
  by (induction cs arbitrary: acc) (auto simp: clean_step_def)

definition plain_names :: "string list \<Rightarrow> bool" where
  "plain_names cs \<longleftrightarrow> (\<forall>c \<in> set cs. c \<noteq> [] \<and> c \<noteq> ''.'' \<and> c \<noteq> ''..'' \<and> slash \<notin> set c)"

lemma Clean_rooted:
  assumes "plain_names cs"
  shows "Clean (slash # Join [slash] cs) = slash # Join [slash] cs"
proof -
  have "fold (clean_step True) (Split slash (Join [slash] cs)) [] = cs"
  proof (cases "cs = []")
    case True
    then show ?thesis by (simp add: clean_step_def)
  next
    case False
    then have "Split slash (Join [slash] cs) = cs"
      using assms by (intro Split_Join) (auto simp: plain_names_def)
    then show ?thesis using assms by (simp add: clean_fold_plain plain_names_def)
  qed
  then show ?thesis by (simp add: Clean_def Let_def clean_step_def)
qed

lemma JoinPath_rooted:
  assumes "plain_names cs" and "cs \<noteq> []" and "plain_names [name]"
  shows "JoinPath (slash # Join [slash] cs) name = slash # Join [slash] cs @ slash # name"
proof -
  have "slash # Join [slash] cs @ slash # name = slash # Join [slash] (cs @ [name])"
    by (simp add: Join_snoc assms(2))
  moreover have "plain_names (cs @ [name])" using assms by (auto simp: plain_names_def)
  ultimately show ?thesis using Clean_rooted [of "cs @ [name]"] by (simp add: JoinPath_def)
qed

section \<open>Absolute paths on Windows\<close>

text \<open>
  \<open>filepath.IsAbs\<close> of Windows: a volume name, followed by a separator unless the name begins with two of
  them. Volume names are a drive, a share and a device path.
\<close>

definition path_separator :: "char \<Rightarrow> bool" where
  [go_eval]: "path_separator c \<longleftrightarrow> c = CHR ''/'' \<or> c = CHR 0x5C"

definition starts_with_separator :: "string \<Rightarrow> bool" where
  [go_eval]: "starts_with_separator p \<longleftrightarrow> (case p of [] \<Rightarrow> False | c # r \<Rightarrow> path_separator c)"

definition IsAbs_windows :: "string \<Rightarrow> bool" where
  [go_eval]: "IsAbs_windows p \<longleftrightarrow>
    (case p of a # b # r \<Rightarrow>
       if b = CHR '':'' then starts_with_separator r
       else if path_separator a \<and> path_separator b then True
       else path_separator a \<and> b = CHR ''?'' \<and> prefix ''?'' r \<and> starts_with_separator (tl r)
         \<and> list_ex path_separator (tl (tl r))
     | _ \<Rightarrow> False)"

end
