(* ===== verification/Cl.thy ===== *)
theory Cl
  imports Go_Path
begin

text \<open>
  The OpenCL binding (src/cl/cl.go): names of statuses, the two size-probing queries, creation of a
  program from source, and the search for a library that can be loaded, on Unix
  (src/cl/loader_unix.go) and on Windows (src/cl/loader_windows.go). The entry points of the library
  and the system's loader are inputs.
\<close>

definition Success :: int where [go_eval]: "Success = 0"
definition DeviceNotFound :: int where [go_eval]: "DeviceNotFound = -1"
definition InvalidValue :: int where [go_eval]: "InvalidValue = -30"
definition PlatformNotFound :: int where [go_eval]: "PlatformNotFound = -1001"

definition errorNames :: "(int \<times> string) list" where
  "errorNames = [
    (0, ''CL_SUCCESS''), (-1, ''CL_DEVICE_NOT_FOUND''), (-2, ''CL_DEVICE_NOT_AVAILABLE''),
    (-3, ''CL_COMPILER_NOT_AVAILABLE''), (-4, ''CL_MEM_OBJECT_ALLOCATION_FAILURE''),
    (-5, ''CL_OUT_OF_RESOURCES''), (-6, ''CL_OUT_OF_HOST_MEMORY''),
    (-11, ''CL_BUILD_PROGRAM_FAILURE''), (-12, ''CL_MAP_FAILURE''),
    (-30, ''CL_INVALID_VALUE''), (-31, ''CL_INVALID_DEVICE_TYPE''),
    (-32, ''CL_INVALID_PLATFORM''), (-33, ''CL_INVALID_DEVICE''),
    (-34, ''CL_INVALID_CONTEXT''), (-35, ''CL_INVALID_QUEUE_PROPERTIES''),
    (-36, ''CL_INVALID_COMMAND_QUEUE''), (-38, ''CL_INVALID_MEM_OBJECT''),
    (-42, ''CL_INVALID_BINARY''), (-43, ''CL_INVALID_BUILD_OPTIONS''),
    (-44, ''CL_INVALID_PROGRAM''), (-45, ''CL_INVALID_PROGRAM_EXECUTABLE''),
    (-46, ''CL_INVALID_KERNEL_NAME''), (-47, ''CL_INVALID_KERNEL_DEFINITION''),
    (-48, ''CL_INVALID_KERNEL''), (-49, ''CL_INVALID_ARG_INDEX''),
    (-50, ''CL_INVALID_ARG_VALUE''), (-51, ''CL_INVALID_ARG_SIZE''),
    (-52, ''CL_INVALID_KERNEL_ARGS''), (-53, ''CL_INVALID_WORK_DIMENSION''),
    (-54, ''CL_INVALID_WORK_GROUP_SIZE''), (-55, ''CL_INVALID_WORK_ITEM_SIZE''),
    (-56, ''CL_INVALID_GLOBAL_OFFSET''), (-58, ''CL_INVALID_EVENT''),
    (-59, ''CL_INVALID_OPERATION''), (-61, ''CL_INVALID_BUFFER_SIZE''),
    (-63, ''CL_INVALID_GLOBAL_WORK_SIZE''),
    (-1001, ''CL_PLATFORM_NOT_FOUND_KHR'')]"

definition ErrorName :: "int \<Rightarrow> string" where
  "ErrorName status = (case map_of errorNames status of Some name \<Rightarrow> name
     | None \<Rightarrow> ''unknown OpenCL error '' @ Itoa status)"

section \<open>Queries that probe for the size\<close>

text \<open>
  A query: the status and the size of the probe, the status of the read, the bytes the driver writes
  into a buffer of that size. \<open>DeviceInfoString\<close> and \<open>ProgramBuildLog\<close> have the same body over
  different entry points.
\<close>

record query =
  qProbe :: int
  qSize :: nat
  qRead :: int
  qBytes :: string

definition query_string :: "query \<Rightarrow> string \<times> int" where
  [go_eval]: "query_string q =
    (if qProbe q \<noteq> Success then ([], qProbe q)
     else if qSize q = 0 then ([], Success)
     else if qRead q \<noteq> Success then ([], qRead q)
     else (TrimNul (take (qSize q) (qBytes q @ replicate (qSize q) CHR 0x00)), Success))"

definition DeviceInfoString :: "query \<Rightarrow> string \<times> int" where
  "DeviceInfoString q = query_string q"

definition ProgramBuildLog :: "query \<Rightarrow> string \<times> int" where
  "ProgramBuildLog q = query_string q"

section \<open>Programs and flags\<close>

text \<open>\<open>create\<close>: the entry point, from the source to a handle and a status. Returns handle and status.\<close>

definition CreateProgramWithSource :: "(string \<Rightarrow> nat \<times> int) \<Rightarrow> string \<Rightarrow> nat \<times> int" where
  "CreateProgramWithSource create source = (if source = [] then (0, InvalidValue) else create source)"

definition clBool :: "bool \<Rightarrow> u32" where
  "clBool b = (if b then 1 else 0)"

section \<open>Loading the library\<close>

datatype cl_load_error = NoLibrary "(string \<times> string) list" | MissingSymbol string

definition entry_points :: "string list" where
  "entry_points = [''clGetPlatformIDs'', ''clGetDeviceIDs'', ''clGetDeviceInfo'', ''clCreateContext'',
    ''clCreateCommandQueue'', ''clCreateBuffer'', ''clCreateProgramWithSource'', ''clBuildProgram'',
    ''clGetProgramBuildInfo'', ''clCreateKernel'', ''clSetKernelArg'', ''clEnqueueNDRangeKernel'',
    ''clEnqueueReadBuffer'', ''clEnqueueWriteBuffer'', ''clReleaseMemObject'', ''clReleaseKernel'',
    ''clReleaseProgram'', ''clReleaseCommandQueue'', ''clReleaseContext'']"

text \<open>\<open>has h s\<close>: the library \<open>h\<close> provides the symbol; a missing one makes purego panic, which is
  recovered into an error naming it.\<close>

definition bind :: "(nat \<Rightarrow> string \<Rightarrow> bool) \<Rightarrow> nat \<Rightarrow> cl_load_error option" where
  "bind has h = map_option MissingSymbol (find (\<lambda>s. \<not> has h s) entry_points)"

text \<open>
  The system: which of the two loaders the binary was built with, the functions they call
  (\<open>LoadLibraryEx\<close> with its flags), and the symbols a library provides.
\<close>

record loader =
  ldWindows :: bool
  ldDlopen :: "string \<Rightarrow> string + nat"
  ldLoadLibraryEx :: "string \<Rightarrow> u32 \<Rightarrow> string + nat"
  ldHas :: "nat \<Rightarrow> string \<Rightarrow> bool"

definition libraryCandidates :: "string list" where
  "libraryCandidates = [''libOpenCL.so.1'', ''libOpenCL.so'',
     ''/System/Library/Frameworks/OpenCL.framework/OpenCL'']"

definition libraryCandidates_windows :: "string list" where
  "libraryCandidates_windows = [''OpenCL.dll'']"

definition loadLibrarySearchSystem32 :: u32 where "loadLibrarySearchSystem32 = 0x800"
definition loadWithAlteredSearchPath :: u32 where "loadWithAlteredSearchPath = 0x8"

definition openLibrary :: "(string \<Rightarrow> string + nat) \<Rightarrow> string \<Rightarrow> string + nat" where
  "openLibrary dlopen path = dlopen path"

definition openLibrary_windows :: "(string \<Rightarrow> u32 \<Rightarrow> string + nat) \<Rightarrow> string \<Rightarrow> string + nat" where
  "openLibrary_windows loadLibraryEx path =
    (let flags = (if IsAbs_windows path then loadWithAlteredSearchPath else loadLibrarySearchSystem32)
     in case loadLibraryEx path flags of Inl e \<Rightarrow> Inl e | Inr h \<Rightarrow> Inr h)"

text \<open>The loop: the first candidate that opens, and the attempts before it.\<close>

primrec try_open :: "(string \<Rightarrow> string + nat) \<Rightarrow> string list \<Rightarrow> (string \<times> string) list \<times> nat" where
  "try_open opn [] = ([], 0)"
| "try_open opn (c # cs) = (case opn c of Inr h \<Rightarrow> ([], h)
     | Inl e \<Rightarrow> (case try_open opn cs of (as, h) \<Rightarrow> ((c, e) # as, h)))"

definition candidates :: "loader \<Rightarrow> string \<Rightarrow> string list" where
  "candidates L path = (if path \<noteq> [] then [path]
     else if ldWindows L then libraryCandidates_windows else libraryCandidates)"

definition Load :: "loader \<Rightarrow> string \<Rightarrow> cl_load_error option" where
  "Load L path =
    (case try_open (if ldWindows L then openLibrary_windows (ldLoadLibraryEx L) else openLibrary (ldDlopen L))
        (candidates L path) of
       (attempts, h) \<Rightarrow> if h = 0 then Some (NoLibrary attempts) else bind (ldHas L) h)"

section \<open>What loading establishes\<close>

lemma try_open_handle:
  "try_open opn cs = (as, h) \<Longrightarrow> h \<noteq> 0 \<Longrightarrow> \<exists>c \<in> set cs. opn c = Inr h"
  by (induction cs arbitrary: as) (auto split: sum.splits prod.splits)

lemma try_open_attempts:
  "try_open opn cs = (as, h) \<Longrightarrow> (c, e) \<in> set as \<Longrightarrow> c \<in> set cs \<and> opn c = Inl e"
  by (induction cs arbitrary: as) (auto split: sum.splits prod.splits)

lemma Load_None:
  assumes "Load L path = None"
  obtains c h where "c \<in> set (candidates L path)" "bind (ldHas L) h = None"
    "(if ldWindows L then openLibrary_windows (ldLoadLibraryEx L) else openLibrary (ldDlopen L)) c = Inr h"
proof -
  let ?opn = "if ldWindows L then openLibrary_windows (ldLoadLibraryEx L) else openLibrary (ldDlopen L)"
  obtain as h where t: "try_open ?opn (candidates L path) = (as, h)" by fastforce
  with assms have "h \<noteq> 0" and b: "bind (ldHas L) h = None" by (auto simp: Load_def split: if_splits)
  from try_open_handle [OF t this(1)] that b show ?thesis by blast
qed



end
