(* ===== verification/Commands.thy ===== *)
theory Commands
  imports Cl Device_Search
begin

text \<open>
  The OpenCL objects of a device and the commands a launch puts into the command queue of a device (the enqueue wrappers of
  src/cl/cl.go and their use by \<open>runKernel\<close> of src/device_opencl.go), what an in-order queue does
  with them, and that the buffer the host then reads is that of a launch from a cleared count.
\<close>

section \<open>The objects of a device\<close>

type_synonym cl_handle = u64

definition outputBufferSize :: u64 where [go_eval]: "outputBufferSize = 64"
definition localWorksize :: u64 where [go_eval]: "localWorksize = 64"
definition uint32Size :: u64 where [go_eval]: "uint32Size = 4"
definition zeroSlice :: "u32 list" where [go_eval]: "zeroSlice = [0]"

record cl_handles =
  hContext :: cl_handle
  hQueue :: cl_handle
  hBuffer :: cl_handle
  hProgram :: cl_handle
  hKernel :: cl_handle

text \<open>
  The calls that create them, with the arguments that matter: the device; context, device and properties of the
  queue; context, flags and size of the buffer; the context (the source is the embedded kernel);
  program, device and options; program and name.
\<close>

datatype cl_create =
    CreateContext cl_handle
  | CreateCommandQueue cl_handle cl_handle u64
  | CreateBuffer cl_handle u64 u64
  | CreateProgram cl_handle
  | BuildProgram cl_handle cl_handle string
  | CreateKernel cl_handle string

definition MemReadWrite :: u64 where "MemReadWrite = push_bit 0 1"

definition buildOptions :: string where
  "buildOptions = ''-D WORKSIZE='' @ Itoa (uint localWorksize)"

definition creation_calls :: "cl_handle \<Rightarrow> cl_handles \<Rightarrow> cl_create list" where
  "creation_calls dev h =
    [CreateContext dev, CreateCommandQueue (hContext h) dev 0,
     CreateBuffer (hContext h) MemReadWrite (uint32Size * outputBufferSize), CreateProgram (hContext h),
     BuildProgram (hProgram h) dev buildOptions, CreateKernel (hProgram h) ''search'']"

text \<open>What they leave for the commands: the properties of the queue, the size of the buffer, the options the
  kernel was built with and its name.\<close>

record cl_setting =
  csQueue :: "u64 option"
  csBuffer :: "u64 option"
  csOptions :: "string option"
  csKernel :: "string option"

primrec apply_create :: "cl_create \<Rightarrow> cl_setting \<Rightarrow> cl_setting" where
  "apply_create (CreateContext d) S = S"
| "apply_create (CreateCommandQueue c d props) S = S\<lparr>csQueue := Some props\<rparr>"
| "apply_create (CreateBuffer c flags n) S = S\<lparr>csBuffer := Some n\<rparr>"
| "apply_create (CreateProgram c) S = S"
| "apply_create (BuildProgram p d opts) S = S\<lparr>csOptions := Some opts\<rparr>"
| "apply_create (CreateKernel p name) S = S\<lparr>csKernel := Some name\<rparr>"

definition setting_of :: "cl_create list \<Rightarrow> cl_setting" where
  "setting_of cs = fold apply_create cs \<lparr>csQueue = None, csBuffer = None, csOptions = None, csKernel = None\<rparr>"

lemma creation_setting:
  "setting_of (creation_calls dev h) = \<lparr>csQueue = Some 0, csBuffer = Some 256,
     csOptions = Some (''-D WORKSIZE='' @ Itoa (uint localWorksize)), csKernel = Some ''search''\<rparr>"
  by (simp add: setting_of_def creation_calls_def buildOptions_def uint32Size_def outputBufferSize_def)

section \<open>The enqueue wrappers\<close>

text \<open>
  The C calls. Sizes and offsets are in bytes; the flag of a transfer is a \<open>cl_bool\<close>; the last
  component is the number of events to wait for, with neither a wait list nor an event. The write
  carries the words it points at: they belong to a variable that nothing changes, so it
  does not matter when a write that does not block takes them.
\<close>

datatype cl_command =
    NDRangeKernel cl_handle cl_handle u32 "u64 option" u64 u64 u32
  | ReadBuffer cl_handle cl_handle u32 u64 u64 u32
  | WriteBuffer cl_handle cl_handle u32 u64 u64 "u32 list" u32

definition EnqueueNDRangeKernel :: "cl_handle \<Rightarrow> cl_handle \<Rightarrow> u64 \<Rightarrow> u64 \<Rightarrow> cl_command" where
  [go_eval]: "EnqueueNDRangeKernel queue krnl globalWorkSize localWorkSize =
     NDRangeKernel queue krnl 1 None globalWorkSize localWorkSize 0"

definition EnqueueReadBuffer :: "cl_handle \<Rightarrow> cl_handle \<Rightarrow> bool \<Rightarrow> u64 \<Rightarrow> u64 \<Rightarrow> cl_command" where
  [go_eval]: "EnqueueReadBuffer queue buffer blocking offset n = ReadBuffer queue buffer (clBool blocking) offset n 0"

definition EnqueueWriteBuffer ::
    "cl_handle \<Rightarrow> cl_handle \<Rightarrow> bool \<Rightarrow> u64 \<Rightarrow> u64 \<Rightarrow> u32 list \<Rightarrow> cl_command" where
  [go_eval]: "EnqueueWriteBuffer queue buffer blocking offset n ws =
     WriteBuffer queue buffer (clBool blocking) offset n ws 0"

section \<open>The commands of a launch\<close>

text \<open>What \<open>runKernel\<close> enqueues: each command only when the one before was accepted.\<close>

definition runKernel_commands :: "cl_handles \<Rightarrow> cl_status \<Rightarrow> u32 \<Rightarrow> cl_command list" where
  "runKernel_commands h st globalWorkSize =
    EnqueueWriteBuffer (hQueue h) (hBuffer h) False 0 uint32Size zeroSlice
    # (if stWrite st \<noteq> Success then []
       else EnqueueNDRangeKernel (hQueue h) (hKernel h) (ucast globalWorkSize) localWorksize
       # (if stLaunch st \<noteq> Success then []
          else [EnqueueReadBuffer (hQueue h) (hBuffer h) True 0 (uint32Size * outputBufferSize)]))"

section \<open>Commands that OpenCL accepts\<close>

text \<open>
  The conditions OpenCL puts on the values: a transfer of at least one byte that stays within the
  buffer; a kernel that exists, one dimension, a global size that is not zero, and a local size that divides it
  and is the size of a work group the kernel was compiled for (its \<open>reqd_work_group_size\<close> is \<open>WORKSIZE\<close>).
\<close>

definition in_buffer :: "cl_setting \<Rightarrow> u64 \<Rightarrow> u64 \<Rightarrow> bool" where
  "in_buffer S offset n \<longleftrightarrow> (case csBuffer S of None \<Rightarrow> False
     | Some len \<Rightarrow> 0 < n \<and> unat offset + unat n \<le> unat len)"

primrec cl_legal :: "cl_setting \<Rightarrow> cl_command \<Rightarrow> bool" where
  "cl_legal S (NDRangeKernel q k dim offset gs ls ev) \<longleftrightarrow>
     csKernel S = Some ''search'' \<and> csOptions S = Some (''-D WORKSIZE='' @ Itoa (uint ls))
     \<and> dim = 1 \<and> offset = None \<and> 0 < gs \<and> 0 < ls \<and> unat gs mod unat ls = 0 \<and> ev = 0"
| "cl_legal S (ReadBuffer q b blocking offset n ev) \<longleftrightarrow> in_buffer S offset n \<and> ev = 0"
| "cl_legal S (WriteBuffer q b blocking offset n ws ev) \<longleftrightarrow> in_buffer S offset n \<and> unat n \<le> 4 * length ws \<and> ev = 0"

lemma unat_ucast_size: "unat (ucast n :: u64) = unat n" for n :: u32
proof -
  have "unat n < 2 ^ 64" using unsigned_less [of n, where ?'a = nat] by simp
  then show ?thesis by (simp add: unsigned_ucast_eq take_bit_nat_eq_self)
qed

lemma runKernel_legal:
  assumes "0 < n" and "unat n mod 256 = 0" and "S = setting_of (creation_calls dev objs)"
  shows "list_all (cl_legal S) (runKernel_commands h st n)"
proof -
  have "unat n mod 64 = unat n mod 256 mod 64" by (simp add: mod_mod_cancel)
  then have "unat n mod 64 = 0" using assms(2) by simp
  moreover have "0 < (ucast n :: u64)" using assms(1) by (simp add: word_less_nat_alt unat_ucast_size)
  ultimately show ?thesis
    by (simp add: unat_ucast_size runKernel_commands_def EnqueueWriteBuffer_def EnqueueReadBuffer_def EnqueueNDRangeKernel_def
        in_buffer_def uint32Size_def outputBufferSize_def localWorksize_def zeroSlice_def assms(3) creation_setting)
qed

section \<open>An in-order queue\<close>

text \<open>
  The queue is created without properties (\<open>creation_setting\<close>), so it executes its commands one after the other. The memory is
  that of the output buffer in words, wide enough to show a store beyond its end; the last
  argument is what the reads hand to the host.
\<close>

definition overwrite :: "(nat \<Rightarrow> u32) \<Rightarrow> nat \<Rightarrow> u32 list \<Rightarrow> nat \<Rightarrow> u32" where
  [go_eval]: "overwrite mem k ws i = (if k \<le> i \<and> i < k + length ws then ws ! (i - k) else mem i)"

inductive executes :: "(u32 \<Rightarrow> bool) \<Rightarrow> cl_command list \<Rightarrow> (nat \<Rightarrow> u32) \<Rightarrow> u32 list \<Rightarrow> bool" for hit where
  empty: "executes hit [] mem []"
| put: "executes hit cs (overwrite mem (unat offset div 4) (take (unat n div 4) ws)) out \<Longrightarrow>
     executes hit (WriteBuffer q b blocking offset n ws ev # cs) mem out"
| launch: "(gpu_step hit (unat gs))\<^sup>*\<^sup>* \<lparr>items = \<lambda>_. Waiting, outbuf = mem\<rparr> s \<Longrightarrow> gpu_done (unat gs) s \<Longrightarrow>
     executes hit cs (outbuf s) out \<Longrightarrow>
     executes hit (NDRangeKernel q k dim None gs ls ev # cs) mem out"
| fetch: "executes hit cs mem out \<Longrightarrow>
     executes hit (ReadBuffer q b blocking offset n ev # cs) mem
       (map mem [unat offset div 4..<(unat offset + unat n) div 4] @ out)"

inductive_cases executes_emptyE: "executes hit [] mem out"
inductive_cases executes_writeE: "executes hit (WriteBuffer q b blocking offset n ws ev # cs) mem out"
inductive_cases executes_launchE: "executes hit (NDRangeKernel q k dim offset gs ls ev # cs) mem out"
inductive_cases executes_readE: "executes hit (ReadBuffer q b blocking offset n ev # cs) mem out"

lemma gpu_reach_steps: "(gpu_step hit n)\<^sup>*\<^sup>* s t \<Longrightarrow> gpu_reach hit n s \<Longrightarrow> gpu_reach hit n t"
  by (induction rule: rtranclp_induct) (auto intro: gpu_reach.step)

text \<open>Whatever the buffer held before, the read returns the buffer of a complete launch from a count of zero.\<close>

lemma executes_launch:
  assumes "executes hit (runKernel_commands h st n) mem out" and "stWrite st = Success" "stLaunch st = Success"
  shows "\<exists>s. gpu_reach hit (unat n) s \<and> gpu_done (unat n) s \<and> out = map (outbuf s) [0..<64]"
proof -
  let ?mem = "overwrite mem 0 [0]"
  have cs: "runKernel_commands h st n = [WriteBuffer (hQueue h) (hBuffer h) 0 0 4 [0] 0,
      NDRangeKernel (hQueue h) (hKernel h) 1 None (ucast n) 64 0, ReadBuffer (hQueue h) (hBuffer h) 1 0 256 0]"
    using assms(2,3) by (simp add: runKernel_commands_def clBool_def go_eval)
  have "executes hit (tl (runKernel_commands h st n)) ?mem out"
    using assms(1) unfolding cs by (auto elim!: executes_writeE)
  then obtain s where r: "(gpu_step hit (unat n))\<^sup>*\<^sup>* \<lparr>items = \<lambda>_. Waiting, outbuf = ?mem\<rparr> s"
    and d: "gpu_done (unat n) s" and o: "executes hit [ReadBuffer (hQueue h) (hBuffer h) 1 0 256 0] (outbuf s) out"
    unfolding cs by (auto elim!: executes_launchE simp: unat_ucast_size)
  have "gpu_start \<lparr>items = \<lambda>_. Waiting, outbuf = ?mem\<rparr>" by (simp add: gpu_start_def overwrite_def)
  then have "gpu_reach hit (unat n) s" using gpu_reach_steps [OF r] by (blast intro: gpu_reach.start)
  moreover have "out = map (outbuf s) [0..<64]"
    using o by (auto elim!: executes_readE executes_emptyE)
  ultimately show ?thesis using d by blast
qed

text \<open>And every complete launch of the kernel is one such a queue can execute.\<close>

lemma executes_exists:
  assumes "gpu_reach hit (unat n) s" and "gpu_done (unat n) s" and "stWrite st = Success" "stLaunch st = Success"
  shows "\<exists>mem. executes hit (runKernel_commands h st n) mem (map (outbuf s) [0..<64])"
proof -
  have "\<exists>s0. gpu_start s0 \<and> (gpu_step hit (unat n))\<^sup>*\<^sup>* s0 s"
    using assms(1)
  proof (induction rule: gpu_reach.induct)
    case (start s)
    then show ?case by blast
  next
    case (step s t)
    then show ?case by (meson rtranclp.rtrancl_into_rtrancl)
  qed
  then obtain s0 where s0: "gpu_start s0" and r: "(gpu_step hit (unat n))\<^sup>*\<^sup>* s0 s" by blast
  have e: "overwrite (outbuf s0) 0 [0] = outbuf s0"
    using s0 by (auto simp: overwrite_def gpu_start_def)
  have "s0 = \<lparr>items = \<lambda>_. Waiting, outbuf = outbuf s0\<rparr>" using s0 by (cases s0) (simp add: gpu_start_def)
  with r have r: "(gpu_step hit (unat n))\<^sup>*\<^sup>* \<lparr>items = \<lambda>_. Waiting, outbuf = outbuf s0\<rparr> s" by simp
  have "executes hit [ReadBuffer (hQueue h) (hBuffer h) 1 0 256 0] (outbuf s) (map (outbuf s) [0..<64])"
    using executes.fetch [OF executes.empty, where q = "hQueue h" and b = "hBuffer h" and blocking = 1
        and offset = 0 and n = 256 and ev = 0 and mem = "outbuf s" and hit = hit] by simp
  from executes.launch [OF _ _ this, of "ucast n"] r assms(2)
  have "executes hit [NDRangeKernel (hQueue h) (hKernel h) 1 None (ucast n) 64 0, ReadBuffer (hQueue h) (hBuffer h) 1 0 256 0]
      (outbuf s0) (map (outbuf s) [0..<64])"
    by (simp add: unat_ucast_size)
  then have "executes hit (WriteBuffer (hQueue h) (hBuffer h) 0 0 4 [0] 0 # [NDRangeKernel (hQueue h) (hKernel h) 1 None (ucast n) 64 0, ReadBuffer (hQueue h) (hBuffer h) 1 0 256 0])
      (outbuf s0) (map (outbuf s) [0..<64])"
    by (intro executes.put) (simp add: e)
  then show ?thesis
    using assms(3,4) by (auto simp: runKernel_commands_def clBool_def go_eval)
qed

section \<open>A driver that executes what is enqueued\<close>

text \<open>
  Unless a call fails, the buffer read back is what the device's queue makes of the commands of the
  launch, with the kernel's arguments as they were set; and there are no more hits than the buffer has
  room for (beyond that the kernel stores out of bounds, and OpenCL promises nothing).
\<close>

definition driver_executes :: "cl_handles \<Rightarrow> iter_env \<times> device \<Rightarrow> bool" where
  "driver_executes h l = (case setKernelArgs (stArg (itStatus (fst l))) (snd l) of Inl err \<Rightarrow> True
     | Inr args \<Rightarrow> (case runKernel (itStatus (fst l)) (itElapsed (fst l)) (itOut (fst l)) of Inl err \<Rightarrow> True
       | Inr r \<Rightarrow> (let hit = kernel_hit (kernel_cv args) (kernel_tail args); n = dWorkSize (snd l)
           in card (hits hit (unat n)) \<le> 63
            \<and> (\<exists>mem. executes hit (runKernel_commands h (itStatus (fst l)) n) mem (itOut (fst l))))))"

lemma driver_is_faithful: "driver_executes h l \<Longrightarrow> launch_faithful l"
proof (cases "setKernelArgs (stArg (itStatus (fst l))) (snd l)")
  case (Inr args)
  assume d: "driver_executes h l"
  show ?thesis
  proof (cases "runKernel (itStatus (fst l)) (itElapsed (fst l)) (itOut (fst l))")
    case (Inl err)
    then show ?thesis using Inr by (simp add: launch_faithful_def)
  next
    case k: (Inr r)
    then have "stWrite (itStatus (fst l)) = Success" "stLaunch (itStatus (fst l)) = Success"
      by (auto simp: runKernel_def Success_def split: if_splits)
    with d Inr k executes_launch show ?thesis
      by (fastforce simp: driver_executes_def launch_faithful_def faithful_launch_def Let_def)
  qed
qed (simp add: launch_faithful_def)

lemma faithful_driver_exists:
  assumes "launch_faithful l"
  shows "driver_executes h l"
proof (cases "setKernelArgs (stArg (itStatus (fst l))) (snd l)")
  case (Inr args)
  show ?thesis
  proof (cases "runKernel (itStatus (fst l)) (itElapsed (fst l)) (itOut (fst l))")
    case (Inl err)
    then show ?thesis using Inr by (simp add: driver_executes_def)
  next
    case k: (Inr r)
    then have "stWrite (itStatus (fst l)) = Success" "stLaunch (itStatus (fst l)) = Success"
      by (auto simp: runKernel_def Success_def split: if_splits)
    with assms Inr k executes_exists show ?thesis
      by (fastforce simp: driver_executes_def launch_faithful_def faithful_launch_def Let_def)
  qed
qed (simp add: driver_executes_def)

end
