(* ===== verification/Device_Properties.thy ===== *)
theory Device_Properties
  imports Device_Demo Commands
begin

text \<open>
  The properties of a mining device, from the hash it computes to whole runs, each with a
  concrete instance.
\<close>

section \<open>The hash\<close>





text \<open>C9: What a work item of the kernel tests is what the host checks. For the arguments the
  loop sets before a launch, the item with nonce \<open>n\<close> reports a candidate exactly when the BLAKE3
  hash of the header \<open>foundCandidate\<close> would assemble for \<open>n\<close> ends in a zero word.\<close>
theorem kernel_agrees_with_host:
  assumes "device_ok d" and "iter_wf e" and "launching off2 e d = Some d2"
    and "setKernelArgs st d2 = Inr args"
  shows "kernel_hit (kernel_cv args) (kernel_tail args) n \<longleftrightarrow>
    get_le32 (blake3_hash (take 180 (launch_header d2 n))) 28 = 0"
proof -
  have inst: "installed d2" by (rule launching_ready [OF assms(1-3)])
  then have "length (midstate d2) = 8" by (simp add: installed_def header_midstate_def)
  from setKernelArgs_values [OF assms(4) this] show ?thesis
    using host_last_word [OF inst, of n] host_hash [OF inst, of n] by (simp add: kernel_hit_def)
qed

theorem kernel_agrees_with_host_witness:
  "\<exists>args. setKernelArgs (stArg cl_ok) (first_launch 3) = Inr args \<and>
     (kernel_hit (kernel_cv args) (kernel_tail args) 7 \<longleftrightarrow>
      get_le32 (blake3_hash (take 180 (launch_header (first_launch 3) 7))) 28 = 0)"
proof -
  obtain args where a: "setKernelArgs (stArg cl_ok) (first_launch 3) = Inr args"
    using setKernelArgs_ok by blast
  have "iter_wf (quiet [zero_work] [])" by simp
  from kernel_agrees_with_host [OF first_ready(1) this first_launching a] a show ?thesis by blast
qed

section \<open>A launch\<close>

text \<open>C27: The candidate buffer after a launch, whatever the interleaving of the work items'
  unlocked updates: the count is at most the number of hits, it is positive if there was a
  hit, and every counted slot holds a nonce that hit.\<close>
theorem launch_buffer:
  assumes "gpu_reach hit n s" and "gpu_done n s" and "n < 2 ^ 32"
  shows "(\<forall>k. 1 \<le> k \<and> k \<le> unat (outbuf s 0) \<longrightarrow> outbuf s k \<in> hits hit n)
    \<and> unat (outbuf s 0) \<le> card (hits hit n) \<and> (hits hit n \<noteq> {} \<longrightarrow> 1 \<le> unat (outbuf s 0))"
  using launch_slots [OF assms(1,3,2)] launch_count [OF assms(1,3)] launch_reports [OF assms(1,3,2)]
  by blast

theorem launch_buffer_witness:
  "\<exists>s. gpu_reach (\<lambda>i. i = 1) 2 s \<and> gpu_done 2 s \<and> unat (outbuf s 0) = 1 \<and> outbuf s 1 = 1"
proof -
  obtain s where r: "gpu_reach (\<lambda>i. i = 1) 2 s" and d: "gpu_done 2 s"
    using seq_launch [of 2 2 "\<lambda>i. i = 1"] by (force simp: gpu_done_def)
  have h: "hits (\<lambda>i. i = 1) 2 = {1}" by (auto simp: hits_def)
  have "(2 :: nat) < 2 ^ 32" by simp
  note b = launch_buffer [OF r d this, unfolded h]
  from b have "unat (outbuf s 0) \<le> 1" and "1 \<le> unat (outbuf s 0)" by simp_all
  then have c: "unat (outbuf s 0) = 1" by (rule antisym)
  have "outbuf s 1 \<in> {1}" using b c by (metis order_refl)
  then show ?thesis using c r d by (intro exI [of _ s]) simp
qed

text \<open>The updates are not atomic, and a launch may lose candidates: with two hits there is an
  interleaving after which the buffer counts one.\<close>
lemma launch_may_lose:
  "\<exists>s. gpu_reach (\<lambda>_. True) 2 s \<and> gpu_done 2 s \<and> outbuf s 0 = 1"
proof -
  let ?h = "\<lambda>_ :: u32. True"
  let ?s0 = "\<lparr>items = \<lambda>_. Waiting, outbuf = \<lambda>_. 0\<rparr>"
  let ?s1 = "?s0\<lparr>items := (items ?s0)(0 := Loaded (outbuf ?s0 0))\<rparr>"
  let ?s2 = "?s1\<lparr>items := (items ?s1)(1 := Loaded (outbuf ?s1 0))\<rparr>"
  let ?s3 = "?s2\<lparr>items := (items ?s2)(0 := Bumped (0 + 1)), outbuf := (outbuf ?s2)(0 := 0 + 1)\<rparr>"
  let ?s4 = "?s3\<lparr>items := (items ?s3)(1 := Bumped (0 + 1)), outbuf := (outbuf ?s3)(0 := 0 + 1)\<rparr>"
  let ?s5 = "?s4\<lparr>items := (items ?s4)(0 := Returned), outbuf := (outbuf ?s4)(unat (1 :: u32) := 0)\<rparr>"
  let ?s6 = "?s5\<lparr>items := (items ?s5)(1 := Returned), outbuf := (outbuf ?s5)(unat (1 :: u32) := 1)\<rparr>"
  have "gpu_reach ?h 2 ?s0" by (rule gpu_reach.start) (simp add: gpu_start_def)
  then have "gpu_reach ?h 2 ?s1" by (rule gpu_reach.step) (rule gpu_step.load; simp)
  then have "gpu_reach ?h 2 ?s2" by (rule gpu_reach.step) (rule gpu_step.load; simp)
  then have "gpu_reach ?h 2 ?s3" by (rule gpu_reach.step) (rule gpu_step.bump; simp)
  then have "gpu_reach ?h 2 ?s4" by (rule gpu_reach.step) (rule gpu_step.bump; simp)
  then have "gpu_reach ?h 2 ?s5" by (rule gpu_reach.step) (rule gpu_step.emit; simp)
  then have r: "gpu_reach ?h 2 ?s6" by (rule gpu_reach.step) (rule gpu_step.emit; simp)
  have "unat i < 2 \<longleftrightarrow> i = 0 \<or> i = 1" for i :: u32
    by (auto simp: word_unat_eq_iff)
  then have "gpu_done 2 ?s6" by (simp add: gpu_done_def)
  moreover have "outbuf ?s6 0 = 1" by simp
  ultimately show ?thesis using r by (intro exI [of _ ?s6] conjI)
qed

section \<open>Whole runs\<close>

lemma runDevice_start:
  assumes "device_ok d" and "\<not> hasWork d" and "runDevice E off1 off2 rnd es d = (r, d', s)"
  obtains (failed) "s = []" "d' = d" "r = Returned_with (Some RandError)"
  | (ran) d0 where "initNonces off1 rnd d = Inr d0" "device_ok d0" "\<not> hasWork d0"
      "newWork d0 = newWork d" "hashMismatches d0 = hashMismatches d"
      "run_loop E off2 es d0 = (r, d', s)"
proof (cases "initNonces off1 rnd d")
  case (Inl err)
  then have "err = RandError" by (auto simp: initNonces_def Let_def split: option.splits)
  then show ?thesis using assms(3) Inl by (intro failed) (simp_all add: runDevice_def)
next
  case (Inr d0)
  then have "\<not> hasWork d0 \<and> newWork d0 = newWork d \<and> hashMismatches d0 = hashMismatches d"
    using assms(2) by (auto simp: initNonces_def Let_def split: option.splits)
  then show ?thesis
    using assms(3) Inr device_ok_initNonces [OF assms(1,2) Inr] by (intro ran) (simp_all add: runDevice_def)
qed

lemma templates_image:
  "template ` A \<union> templates es = template ` (A \<union> (\<Union>e \<in> set es. set (itArrivals e)))"
  by (simp add: templates_def image_Un image_UN)

text \<open>C3: Only solutions are sent. Whatever the kernel returns, every header a device sends to the
  submit thread in a whole run has a BLAKE3 hash that ends in a zero word and is not above the
  proof-of-work limit or the target of a work item it was given, and is that item's header
  in its first 128 bytes.\<close>
theorem run_sends_only_solutions:
  assumes "device_ok d" and "\<not> hasWork d" and "list_all iter_wf es"
    and "runDevice E off1 off2 rnd es d = (r, d', s)"
  shows "\<forall>b \<in> set s. \<exists>w \<in> set (chan_buf (newWork d)) \<union> (\<Union>e \<in> set es. set (itArrivals e)).
    proves_work E (template w) b"
  using assms(1,2,4)
proof (cases rule: runDevice_start)
  case failed
  then show ?thesis by simp
next
  case (ran d0)
  have "held d0 = template ` set (chan_buf (newWork d))" using ran by (simp add: held_def)
  then show ?thesis
    using run_loop_sends [OF ran(2) assms(3) ran(6)]
    by (simp add: all_prove_def templates_image)
qed

theorem run_sends_only_solutions_witness:
  "\<exists>d' b. runDevice hash_env 0 0 seed [quiet [easy_work] (report 1)] small_device = (Running, d', [b])
     \<and> proves_work hash_env (template easy_work) b"
proof -
  obtain d' where run: "runDevice hash_env 0 0 seed [quiet [easy_work] (report 1)] small_device = (Running, d', [found_header])"
    using solver_run [of 1] by auto
  have "list_all iter_wf [quiet [easy_work] (report 1)]" by (simp add: easy_work_def work_ok_def zero_work_def)
  from run_sends_only_solutions [OF small_device_ok(1,2) this run] run show ?thesis by auto
qed

text \<open>C4: A GPU that executes the kernel is never reported as disagreeing: if in every launch of the run the
  device's in-order queue executed the commands \<open>runKernel\<close> enqueued (clear the count, run the work
  items in some interleaving, read the buffer), whatever the buffer held before, the mismatch
  counter is what it was at the start.\<close>
theorem faithful_gpu_never_mismatches:
  assumes "device_ok d" and "\<not> hasWork d" and "list_all iter_wf es"
    and "initNonces off1 rnd d = Inr d0" and "list_all (driver_executes h) (launches E off2 es d0)"
    and "runDevice E off1 off2 rnd es d = (r, d', s)"
  shows "hashMismatches d' = hashMismatches d"
  using assms(1,2,6)
proof (cases rule: runDevice_start)
  case failed
  then show ?thesis by simp
next
  case (ran d1)
  have "list_all launch_faithful (launches E off2 es d0)"
    using assms(5) driver_is_faithful by (rule list.pred_mono_strong)
  with ran show ?thesis using run_loop_agrees [OF ran(2) assms(3) _ ran(6)] assms(4) by simp
qed

theorem faithful_gpu_never_mismatches_witness:
  "\<exists>out d0 r d' s. initNonces 0 (Some [1, 2, 3, 4, 5, 6, 7, 8]) small_device = Inr d0
     \<and> list_all (driver_executes \<lparr>hContext = 1, hQueue = 2, hBuffer = 3, hProgram = 4, hKernel = 5\<rparr>) (launches demo_env 0 [quiet [target_work] out] d0)
     \<and> runDevice demo_env 0 0 (Some [1, 2, 3, 4, 5, 6, 7, 8]) [quiet [target_work] out] small_device = (r, d', s)
     \<and> hashMismatches d' = 0"
proof -
  let ?rnd = "Some [1, 2, 3, 4, 5, 6, 7, 8]"
  obtain d0 where d0: "initNonces 0 ?rnd small_device = Inr d0"
    and f: "newWork d0 = make_chan 5" "\<not> hasWork d0" "dWorkSize d0 = 1"
    by (simp add: initNonces_def Let_def small_device_def fresh_device_def)
  obtain out where out: "launch_faithful (quiet [target_work] out, prepareLaunch 0 (installWork 0 target_work d0))"
    using first_runs [of "prepareLaunch 0 (installWork 0 target_work d0)"] f(3) by auto
  have fl: "list_all (driver_executes \<lparr>hContext = 1, hQueue = 2, hBuffer = 3, hProgram = 4, hKernel = 5\<rparr>)
      (launches demo_env 0 [quiet [target_work] out] d0)"
    using faithful_driver_exists [OF out] by (simp only: one_launch [OF f(1,2)] list.pred_inject)
  obtain r d' s where run: "runDevice demo_env 0 0 ?rnd [quiet [target_work] out] small_device = (r, d', s)"
    by (metis prod_cases3)
  have wf: "list_all iter_wf [quiet [target_work] out]" by simp
  have "hashMismatches small_device = 0" by (simp add: small_device_def fresh_device_def)
  with faithful_gpu_never_mismatches [OF small_device_ok(1,2) wf d0 fl run]
  have "hashMismatches d' = 0" by simp
  with d0 fl run show ?thesis by blast
qed



text \<open>C13: One device never searches a header twice within \<open>2^24\<close> launches, whatever work arrives in
  between: different launches, or different nonces of one launch, give different headers.\<close>
theorem search_never_repeats:
  assumes "device_ok d" and "list_all iter_wf es"
    and "i < length (launches E off2 es d)" and "j < length (launches E off2 es d)"
    and "i < 2 ^ 24" and "j < 2 ^ 24" and "(i, n) \<noteq> (j, m)"
  shows "launch_header (snd (launches E off2 es d ! i)) n \<noteq> launch_header (snd (launches E off2 es d ! j)) m"
  using launches_distinct [OF assms(1-6)] assms(7) by blast

theorem search_never_repeats_witness:
  "\<exists>l l'. launches demo_env 0 [quiet [zero_work] (replicate 64 0), quiet [] (replicate 64 0)] (idle_device 0) = [l, l']
     \<and> launch_header (snd l) 9 \<noteq> launch_header (snd l') 9"
proof -
  let ?es = "[quiet [zero_work] (replicate 64 0), quiet [] (replicate 64 0)]"
  have ok: "device_ok (idle_device 0)"
    by (simp add: device_ok_def queue_ok_def idle_device_def fresh_device_def make_chan_def chan_ok_def)
  have wf: "list_all iter_wf ?es" by simp
  have len: "length (launches demo_env 0 ?es (idle_device 0)) = 2"
    by (rule two_launches) (simp_all add: idle_device_def fresh_device_def)
  then obtain l l' where l: "launches demo_env 0 ?es (idle_device 0) = [l, l']"
    by (auto simp del: launches.simps simp: numeral_2_eq_2 length_Suc_conv)
  from search_never_repeats [OF ok wf, where i = 0 and j = 1 and n = 9 and m = 9 and E = demo_env and ?off2.0 = 0]
  have "launch_header (snd l) 9 \<noteq> launch_header (snd l') 9"
    by (simp add: l len del: launches.simps)
  with l show ?thesis by blast
qed

lemma unat_mod_256: "unat ((of_nat i + ucast (off :: u8)) mod (256 :: u32)) = (i + unat off) mod 256"
proof -
  have "unat ((of_nat i + ucast off) mod (256 :: u32)) = unat (of_nat (i + unat off) :: u32) mod 256"
    by (simp add: unat_mod of_nat_unat)
  also have "\<dots> = (i + unat off) mod 2 ^ 32 mod 256"
    by (simp only: unat_of_nat) simp
  also have "\<dots> = (i + unat off) mod 256" by (simp add: mod_mod_cancel)
  finally show ?thesis .
qed

text \<open>C12: Devices whose numbers differ modulo 256 search disjoint sets of headers for their whole
  runs, whatever the random numbers and the work.\<close>
theorem devices_search_disjoint:
  assumes "device_ok d" and "\<not> hasWork d" and "device_ok d'" and "\<not> hasWork d'"
    and "initNonces off1 rnd d = Inr a" and "initNonces off1 rnd' d' = Inr a'"
    and "dIndex d mod 256 \<noteq> dIndex d' mod 256"
    and "list_all iter_wf es" and "list_all iter_wf es'"
    and "i < length (launches E off2 es a)" and "j < length (launches E off2 es' a')"
  shows "launch_header (snd (launches E off2 es a ! i)) n \<noteq> launch_header (snd (launches E off2 es' a' ! j)) m"
proof (rule launches_disjoint [OF _ assms(8) _ assms(9,10,11)])
  show "device_ok a" "device_ok a'" using assms device_ok_initNonces by blast+
  have "(dIndex d + unat off1) mod 256 \<noteq> (dIndex d' + unat off1) mod 256"
    using assms(7) mod_add_cancel_nat by blast
  then show "nonce_class (extraNonce2 a) \<noteq> nonce_class (extraNonce2 a')"
    by (simp add: initNonces_class [OF assms(5)] initNonces_class [OF assms(6)] word_unat_eq_iff
        unat_mod_256)
qed


theorem devices_search_disjoint_witness:
  "\<exists>a a' l l'. initNonces 7 (Some [1, 2, 3, 4, 5, 6, 7, 8]) (idle_device 0) = Inr a
     \<and> initNonces 7 (Some [8, 7, 6, 5, 4, 3, 2, 1]) (idle_device 1) = Inr a'
     \<and> launches demo_env 0 [quiet [zero_work] []] a = [l] \<and> launches demo_env 0 [quiet [zero_work] []] a' = [l']
     \<and> launch_header (snd l) 9 \<noteq> launch_header (snd l') 9"
proof -
  have ok: "device_ok (idle_device i)" "\<not> hasWork (idle_device i)" "dIndex (idle_device i) = i" for i
    by (simp_all add: device_ok_def queue_ok_def idle_device_def fresh_device_def make_chan_def chan_ok_def)
  obtain a where a: "initNonces 7 (Some [1, 2, 3, 4, 5, 6, 7, 8]) (idle_device 0) = Inr a"
    and fa: "newWork a = make_chan 5" "\<not> hasWork a"
    by (simp add: initNonces_def Let_def idle_device_def fresh_device_def)
  obtain a' where a': "initNonces 7 (Some [8, 7, 6, 5, 4, 3, 2, 1]) (idle_device 1) = Inr a'"
    and fa': "newWork a' = make_chan 5" "\<not> hasWork a'"
    by (simp add: initNonces_def Let_def idle_device_def fresh_device_def)
  have wf: "list_all iter_wf [quiet [zero_work] []]" by simp
  have ne: "dIndex (idle_device 0) mod 256 \<noteq> dIndex (idle_device 1) mod 256" by (simp add: ok)
  note one = one_launch [OF fa] one_launch [OF fa']
  from devices_search_disjoint [OF ok(1,2,1,2) a a' ne wf wf, where i = 0 and j = 0 and n = 9 and m = 9
      and E = demo_env and ?off2.0 = 0]
  have "launch_header (snd (launches demo_env 0 [quiet [zero_work] []] a ! 0)) 9
      \<noteq> launch_header (snd (launches demo_env 0 [quiet [zero_work] []] a' ! 0)) 9"
    by (simp only: one list.size) simp
  then show ?thesis using a a' one by simp
qed

text \<open>The device byte and the class of the second extra nonce repeat every 256 devices: device
  numbers that agree modulo 256 give equal bytes in both places, so the pair tells apart 256
  devices and not 65536.\<close>
lemma device_numbers_collide:
  assumes "dIndex d mod 256 = dIndex d' mod 256"
    and "initNonces off1 rnd d = Inr a" and "initNonces off1 rnd' d' = Inr a'"
  shows "device_byte off2 d = device_byte off2 d' \<and> nonce_class (extraNonce2 a) = nonce_class (extraNonce2 a')"
proof -
  have m: "(dIndex d + k) mod 256 = (dIndex d' + k) mod 256" for k
    using assms(1) by (metis mod_add_left_eq)
  then have "(of_nat (dIndex d) + ucast off2) mod (256 :: u32) = (of_nat (dIndex d') + ucast off2) mod 256" for off2 :: u8
    by (simp add: word_unat_eq_iff unat_mod_256)
  then show ?thesis
    by (simp add: device_byte_def initNonces_class [OF assms(2)] initNonces_class [OF assms(3)])
qed

lemma device_numbers_collide_witness:
  "\<exists>a a'. initNonces 7 (Some [1, 2, 3, 4, 5, 6, 7, 8]) (idle_device 1) = Inr a
     \<and> initNonces 7 (Some [8, 7, 6, 5, 4, 3, 2, 1]) (idle_device 257) = Inr a'
     \<and> device_byte 3 (idle_device 1) = device_byte 3 (idle_device 257)
     \<and> nonce_class (extraNonce2 a) = nonce_class (extraNonce2 a')"
proof -
  have i: "dIndex (idle_device i) = i" for i by (simp add: idle_device_def fresh_device_def)
  obtain a where a: "initNonces 7 (Some [1, 2, 3, 4, 5, 6, 7, 8]) (idle_device 1) = Inr a"
    by (simp add: initNonces_def Let_def)
  obtain a' where a': "initNonces 7 (Some [8, 7, 6, 5, 4, 3, 2, 1]) (idle_device 257) = Inr a'"
    by (simp add: initNonces_def Let_def)
  from device_numbers_collide [OF _ a a', of 3] a a' show ?thesis by (simp add: i)
qed

text \<open>C40: The duty cycle is kept to within one nanosecond: with \<open>dc\<close> percent, a launch of \<open>elapsed\<close>
  is followed by the longest idle for which the launch is still \<open>dc\<close> percent of the whole,
  as long as the product fits in 64 bits (launches of up to two years).\<close>
theorem idle_keeps_duty_cycle:
  assumes "0 \<le> elapsed" and "elapsed * 100 < 2 ^ 63" and "1 \<le> dc" and "dc \<le> 100"
  shows "dc * (elapsed + idleFor elapsed dc) \<le> 100 * elapsed
    \<and> 100 * elapsed < dc * (elapsed + idleFor elapsed dc + 1)"
  using idleFor_duty [OF assms] by blast

theorem idle_keeps_duty_cycle_witness: "30 * (70 + idleFor 70 30) \<le> 7000 \<and> 7000 < 30 * (70 + idleFor 70 30 + 1)"
  using idle_keeps_duty_cycle [of 70 30] by simp

text \<open>The second extra nonce keeps its first byte, which names the device, and runs through all
  \<open>2^24\<close> values of the other three before it returns to where it started.\<close>
lemma extra_nonce_cycle:
  "nonce_class ((RolloverExtraNonce ^^ n) v) = nonce_class v
   \<and> ((RolloverExtraNonce ^^ n) v = v \<longleftrightarrow> 2 ^ 24 dvd n)"
proof -
  have e: "(RolloverExtraNonce ^^ n) v = v \<longleftrightarrow> nonce_pos ((RolloverExtraNonce ^^ n) v) = nonce_pos v"
    using rollover.value_eqI [of "(RolloverExtraNonce ^^ n) v" v] by (auto simp: rollover.cls_iter)
  have "(nonce_pos v + n) mod 2 ^ 24 = nonce_pos v \<longleftrightarrow> (n + nonce_pos v) mod 2 ^ 24 = (0 + nonce_pos v) mod 2 ^ 24"
    using nonce_pos_less [of v] by (simp add: add.commute)
  also have "\<dots> \<longleftrightarrow> n mod 2 ^ 24 = 0 mod 2 ^ 24"
    using mod_add_cancel_nat [of n "nonce_pos v" "2 ^ 24" 0] by (metis mod_add_left_eq)
  finally show ?thesis
    by (simp only: e rollover.pos_iter rollover.cls_iter dvd_eq_mod_eq_0 mod_0)
qed

end
