(* ===== verification/Go_Net.thy ===== *)
theory Go_Net
  imports Go_Strings
begin

text \<open>
  \<open>net.SplitHostPort\<close> and \<open>net.JoinHostPort\<close>, and the contract between them: the locale
  \<open>host_port\<close> says which pairs of host and port come back from the joined string.
\<close>

definition IndexByte :: "string \<Rightarrow> char \<Rightarrow> nat option" where
  [go_eval]: "IndexByte s c = (if c \<in> set s then Some (length (takeWhile (\<lambda>x. x \<noteq> c) s)) else None)"

definition LastIndexByte :: "string \<Rightarrow> char \<Rightarrow> nat option" where
  [go_eval]: "LastIndexByte s c = map_option (\<lambda>i. length s - 1 - i) (IndexByte (rev s) c)"

datatype addr_error = MissingPort | TooManyColons | MissingBracket | UnexpectedOpen | UnexpectedClose

definition SplitHostPort :: "string \<Rightarrow> addr_error + string \<times> string" where
  "SplitHostPort hostport =
    (case LastIndexByte hostport CHR '':'' of None \<Rightarrow> Inl MissingPort
     | Some i \<Rightarrow>
       let finish = (\<lambda>host j k.
             if CHR ''['' \<in> set (drop j hostport) then Inl UnexpectedOpen
             else if CHR '']'' \<in> set (drop k hostport) then Inl UnexpectedClose
             else Inr (host, drop (i + 1) hostport))
       in if hostport ! 0 = CHR ''['' then
            (case IndexByte hostport CHR '']'' of None \<Rightarrow> Inl MissingBracket
             | Some e \<Rightarrow>
               if e + 1 = length hostport then Inl MissingPort
               else if e + 1 = i then finish (drop 1 (take e hostport)) 1 (e + 1)
               else if hostport ! (e + 1) = CHR '':'' then Inl TooManyColons
               else Inl MissingPort)
          else let host = take i hostport
               in if CHR '':'' \<in> set host then Inl TooManyColons else finish host 0 0)"

definition JoinHostPort :: "string \<Rightarrow> string \<Rightarrow> string" where
  [go_eval]: "JoinHostPort host port =
    (if CHR '':'' \<in> set host then ''['' @ host @ '']:'' @ port else host @ '':'' @ port)"

section \<open>What is joined can be split\<close>

definition host_ok :: "string \<Rightarrow> bool" where
  [go_eval]: "host_ok h \<longleftrightarrow> CHR ''['' \<notin> set h \<and> CHR '']'' \<notin> set h"

definition port_ok :: "string \<Rightarrow> bool" where
  [go_eval]: "port_ok p \<longleftrightarrow> CHR '':'' \<notin> set p \<and> CHR ''['' \<notin> set p \<and> CHR '']'' \<notin> set p"

lemma takeWhile_neq: "c \<notin> set h \<Longrightarrow> takeWhile (\<lambda>x. x \<noteq> c) (h @ c # p) = h"
  "c \<notin> set h \<Longrightarrow> takeWhile (\<lambda>x. x \<noteq> c) h = h"
  by (induction h) auto

lemma LastIndexByte_append:
  "c \<notin> set p \<Longrightarrow> LastIndexByte (h @ c # p) c = Some (length h)"
  by (simp add: LastIndexByte_def IndexByte_def takeWhile_neq)

lemma IndexByte_append: "c \<notin> set h \<Longrightarrow> IndexByte (h @ c # p) c = Some (length h)"
  by (simp add: IndexByte_def takeWhile_neq)

lemma Split_JoinHostPort:
  assumes "host_ok h" and "port_ok p"
  shows "SplitHostPort (JoinHostPort h p) = Inr (h, p)"
proof (cases "CHR '':'' \<in> set h")
  case False
  have "LastIndexByte (h @ CHR '':'' # p) CHR '':'' = Some (length h)"
    using assms(2) by (intro LastIndexByte_append) (simp add: port_ok_def)
  moreover have "(h @ CHR '':'' # p) ! 0 \<noteq> CHR ''[''"
    using assms(1) by (cases h) (auto simp: host_ok_def)
  ultimately show ?thesis
    using False assms by (simp add: SplitHostPort_def JoinHostPort_def host_ok_def port_ok_def Let_def)
next
  case True
  let ?s = "CHR ''['' # h @ CHR '']'' # CHR '':'' # p"
  have "LastIndexByte ((CHR ''['' # h @ [CHR '']'']) @ CHR '':'' # p) CHR '':'' = Some (length h + 2)"
    using assms(2) by (subst LastIndexByte_append) (simp_all add: port_ok_def)
  then have l: "LastIndexByte ?s CHR '':'' = Some (length h + 2)" by simp
  have "IndexByte ((CHR ''['' # h) @ CHR '']'' # CHR '':'' # p) CHR '']'' = Some (length h + 1)"
    using assms(1) by (subst IndexByte_append) (simp_all add: host_ok_def)
  then have e: "IndexByte ?s CHR '']'' = Some (length h + 1)" by simp
  show ?thesis
    using True assms l e
    by (simp add: SplitHostPort_def JoinHostPort_def host_ok_def port_ok_def Let_def)
qed

text \<open>The parts of a string that splits.\<close>

lemma IndexByte_Some:
  assumes "IndexByte s c = Some i"
  obtains a b where "s = a @ c # b" "c \<notin> set a" "i = length a"
proof -
  have "c \<in> set s" using assms by (auto simp: IndexByte_def split: if_splits)
  then obtain a b where "s = a @ c # b" "c \<notin> set a" using split_list_first by metis
  moreover from this have "i = length a" using assms by (simp add: IndexByte_append)
  ultimately show ?thesis by (rule that)
qed

lemma LastIndexByte_Some:
  assumes "LastIndexByte s c = Some i"
  obtains a b where "s = a @ c # b" "c \<notin> set b" "i = length a"
proof -
  have "c \<in> set s" using assms by (auto simp: LastIndexByte_def IndexByte_def split: if_splits)
  then obtain a b where "s = a @ c # b" "c \<notin> set b" using split_list_last by metis
  moreover from this have "i = length a" using assms by (simp add: LastIndexByte_append)
  ultimately show ?thesis by (rule that)
qed

lemma SplitHostPort_parts:
  assumes "SplitHostPort s = Inr (h, p)"
  shows "host_ok h \<and> port_ok p"
proof -
  obtain i where i: "LastIndexByte s CHR '':'' = Some i"
    using assms by (auto simp: SplitHostPort_def split: option.splits)
  then obtain u v where s: "s = u @ CHR '':'' # v" "CHR '':'' \<notin> set v" "i = length u"
    by (rule LastIndexByte_Some)
  show ?thesis
  proof (cases "s ! 0 = CHR ''[''")
    case False
    then show ?thesis
      using assms i s by (auto simp: SplitHostPort_def Let_def host_ok_def port_ok_def split: if_splits)
  next
    case True
    then obtain e where e: "IndexByte s CHR '']'' = Some e"
      using assms i by (auto simp: SplitHostPort_def Let_def split: option.splits)
    then have a: "e + 1 = i" "h = drop 1 (take e s)" "p = drop (i + 1) s" "CHR ''['' \<notin> set (drop 1 s)"
        "CHR '']'' \<notin> set (drop i s)"
      using assms i True by (auto simp: SplitHostPort_def Let_def split: if_splits)
    obtain x y where x: "s = x @ CHR '']'' # y" "CHR '']'' \<notin> set x" "e = length x"
      using e by (rule IndexByte_Some)
    have "(x @ [CHR '']'']) @ y = u @ CHR '':'' # v" using x(1) s(1) by simp
    moreover have "length (x @ [CHR '']'']) = length u" using a(1) x(3) s(3) by simp
    ultimately have y: "y = CHR '':'' # v" using append_eq_append_conv by blast
    have "x ! 0 = CHR ''[''" and "x \<noteq> []" using True x(1) by (cases x; simp)+
    then obtain x' where x': "x = CHR ''['' # x'" by (cases x) simp_all
    have s': "s = CHR ''['' # x' @ CHR '']'' # CHR '':'' # v" and e': "e = length x' + 1"
      using x(1,3) x' y by simp_all
    have i': "i = Suc (Suc (length x'))" using a(1) e' by simp
    show ?thesis using a(2-5) x(2) x' e' s(2) unfolding s' i' by (simp add: host_ok_def port_ok_def)
  qed
qed

locale host_port =
  fixes join :: "'h \<Rightarrow> 'p \<Rightarrow> 's"
    and split :: "'s \<Rightarrow> 'e + 'h \<times> 'p"
    and hok :: "'h \<Rightarrow> bool"
    and pok :: "'p \<Rightarrow> bool"
  assumes split_join: "hok h \<Longrightarrow> pok p \<Longrightarrow> split (join h p) = Inr (h, p)"
    and split_ok: "split s = Inr (h, p) \<Longrightarrow> hok h \<and> pok p"
begin

lemma join_inject: "hok h \<Longrightarrow> pok p \<Longrightarrow> hok h' \<Longrightarrow> pok p' \<Longrightarrow> join h p = join h' p' \<longleftrightarrow> h = h' \<and> p = p'"
  using split_join by (metis Inr_inject prod.inject)

text \<open>The host of a string that splits may be given another port.\<close>

lemma rejoin: "split s = Inr (h, p) \<Longrightarrow> pok q \<Longrightarrow> split (join h q) = Inr (h, q)"
  using split_ok split_join by metis

end

interpretation hp: host_port JoinHostPort SplitHostPort host_ok port_ok
  by unfold_locales (simp_all add: Split_JoinHostPort SplitHostPort_parts)

end
