(* ===== verification/Config.thy ===== *)
theory Config
  imports Go_Net
begin

text \<open>
  The configuration (src/config.go): \<open>normalizeAddress\<close>, \<open>parseInts\<close> and \<open>loadConfig\<close>. The
  go-flags parsers, the OpenCL loader and the log library are inputs of \<open>loadConfig\<close>; messages
  that are only printed are left out.
\<close>

section \<open>State\<close>

record config =
  ListDevices :: bool
  ShowVersion :: bool
  ConfigFile :: string
  OpenCLLib :: string
  DebugLevel :: string
  Profile :: string
  CPUProfile :: string
  APIListen :: string
  RPCUser :: string
  RPCPassword :: string
  RPCServer :: string
  RPCCert :: string
  Benchmark :: bool
  TestNet :: bool
  SimNet :: bool
  Autocalibrate :: string
  AutocalibrateInts :: "int list"
  Devices :: string
  DeviceIDs :: "int list"
  Intensity :: string
  IntensityInts :: "int list"
  WorkSize :: string
  WorkSizeInts :: "u32 list"
  DutyCycle :: string
  DutyCycleInts :: "int list"
  MiningAddr :: string
  Mond :: string
  AddPeer :: "string list"
  fileMiningAddr :: string

definition zero_config :: config where
  [go_eval]: "zero_config = \<lparr>ListDevices = False, ShowVersion = False, ConfigFile = [], OpenCLLib = [],
     DebugLevel = [], Profile = [], CPUProfile = [], APIListen = [], RPCUser = [], RPCPassword = [],
     RPCServer = [], RPCCert = [], Benchmark = False, TestNet = False, SimNet = False,
     Autocalibrate = [], AutocalibrateInts = [], Devices = [], DeviceIDs = [], Intensity = [],
     IntensityInts = [], WorkSize = [], WorkSizeInts = [], DutyCycle = [], DutyCycleInts = [],
     MiningAddr = [], Mond = [], AddPeer = [], fileMiningAddr = []\<rparr>"

definition defaultAPIPort :: string where [go_eval]: "defaultAPIPort = ''3333''"
definition defaultAutocalibrate :: int where [go_eval]: "defaultAutocalibrate = 500"
definition defaultDutyCycle :: int where [go_eval]: "defaultDutyCycle = 100"
definition minIntensity :: int where [go_eval]: "minIntensity = 8"
definition maxIntensity :: int where [go_eval]: "maxIntensity = 31"
definition maxWorkSize :: u32 where [go_eval]: "maxWorkSize = 0xFFFFFFFF - 255"

datatype config_error =
    FlagError string
  | IniError string
  | LoadError string
  | ListError string
  | NetsClash
  | NotAnInt string string num_error
  | IntensityRange int
  | SmallWorkSize u32
  | BigWorkSize u32
  | UnalignedWorkSize u32
  | DutyCycleRange int
  | InvalidLevel string

section \<open>normalizeAddress\<close>

definition normalizeAddress :: "string \<Rightarrow> string \<Rightarrow> string" where
  "normalizeAddress addr defaultPort =
    (case SplitHostPort addr of Inl err \<Rightarrow> JoinHostPort addr defaultPort
     | Inr (host, port) \<Rightarrow> if port = [] then JoinHostPort host defaultPort else addr)"

section \<open>parseInts\<close>

text \<open>The loop over the fields; it stops at the first that is not an int.\<close>

primrec parseInts_loop :: "string \<Rightarrow> string list \<Rightarrow> config_error + int list" where
  "parseInts_loop name [] = Inr []"
| "parseInts_loop name (f # fs) =
     (case Atoi (TrimSpace f) of Inl err \<Rightarrow> Inl (NotAnInt name f err)
      | Inr v \<Rightarrow> bindr (parseInts_loop name fs) (\<lambda>vs. Inr (v # vs)))"

definition parseInts :: "string \<Rightarrow> string \<Rightarrow> config_error + int list" where
  "parseInts name s = parseInts_loop name (Split CHR '','' s)"

section \<open>The checks of loadConfig\<close>

text \<open>A setting that is empty keeps its default.\<close>

definition parse_setting :: "string \<Rightarrow> string \<Rightarrow> int list \<Rightarrow> config_error + int list" where
  "parse_setting name s dflt = (if s \<noteq> [] then parseInts name s else Inr dflt)"

primrec check_all :: "('a \<Rightarrow> config_error option) \<Rightarrow> 'a list \<Rightarrow> config_error + unit" where
  "check_all chk [] = Inr ()"
| "check_all chk (x # xs) = (case chk x of Some err \<Rightarrow> Inl err | None \<Rightarrow> check_all chk xs)"

definition check_intensity :: "int \<Rightarrow> config_error option" where
  "check_intensity i = (if i < minIntensity \<or> i > maxIntensity then Some (IntensityRange i) else None)"

definition check_worksize :: "u32 \<Rightarrow> config_error option" where
  "check_worksize w = (if w < 256 then Some (SmallWorkSize w)
     else if w > maxWorkSize then Some (BigWorkSize w)
     else if w mod 256 \<noteq> 0 then Some (UnalignedWorkSize w) else None)"

definition check_dutycycle :: "int \<Rightarrow> config_error option" where
  "check_dutycycle d = (if d < 1 \<or> d > 100 then Some (DutyCycleRange d) else None)"

definition listenAddress :: "config \<Rightarrow> string" where
  "listenAddress cfg = (if APIListen cfg \<noteq> [] then normalizeAddress (APIListen cfg) defaultAPIPort
     else APIListen cfg)"

text \<open>Everything between the device listing and the return. \<open>known\<close>: \<open>slog.LevelFromString\<close>.\<close>

definition validate :: "(string \<Rightarrow> bool) \<Rightarrow> config \<Rightarrow> config_error + config" where
  "validate known cfg =
    (if TestNet cfg \<and> SimNet cfg then Inl NetsClash else
     bindr (parse_setting ''autocalibration'' (Autocalibrate cfg) [defaultAutocalibrate]) (\<lambda>autos.
     bindr (parse_setting ''device'' (Devices cfg) (DeviceIDs cfg)) (\<lambda>devs.
     bindr (parse_setting ''intensity'' (Intensity cfg) (IntensityInts cfg)) (\<lambda>intens.
     bindr (check_all check_intensity intens) (\<lambda>_.
     bindr (if WorkSize cfg \<noteq> [] then bindr (parseInts ''worksize'' (WorkSize cfg)) (\<lambda>ws. Inr (map of_int ws))
            else Inr (WorkSizeInts cfg)) (\<lambda>sizes.
     bindr (check_all check_worksize sizes) (\<lambda>_.
     bindr (parse_setting ''duty cycle'' (DutyCycle cfg) [defaultDutyCycle]) (\<lambda>duties.
     bindr (check_all check_dutycycle duties) (\<lambda>_.
     if \<not> known (DebugLevel cfg) then Inl (InvalidLevel (DebugLevel cfg))
     else Inr (cfg\<lparr>AutocalibrateInts := autos, DeviceIDs := devs, IntensityInts := intens,
                   WorkSizeInts := sizes, DutyCycleInts := duties, APIListen := listenAddress cfg\<rparr>))))))))))"

section \<open>loadConfig\<close>

datatype ini_result = IniOk | IniNoFile | IniBad string

text \<open>The environment: the home directory could be made; the three parses; the library.\<close>

record load_env =
  leMkdir :: bool
  leDefaultFile :: string
  lePreParse :: "config \<Rightarrow> string + config"
  leIni :: "string \<Rightarrow> config \<Rightarrow> ini_result \<times> config"
  leParse :: "config \<Rightarrow> string + config \<times> string list"
  leLoad :: "string \<Rightarrow> string option"
  leList :: "string + string list"
  leLevel :: "string \<Rightarrow> bool"

datatype network = MainNet | TestNet3 | SimNetwork

datatype load_result = Exit int | Failed config_error | Configured config "string list" network

definition loadConfig :: "load_env \<Rightarrow> load_result" where
  "loadConfig E =
    (let cfg = zero_config\<lparr>ConfigFile := leDefaultFile E, DebugLevel := ''info''\<rparr>
     in if \<not> leMkdir E then Exit (-1) else
       (case lePreParse E cfg of Inl e \<Rightarrow> Failed (FlagError e)
        | Inr preCfg \<Rightarrow>
          if ShowVersion preCfg then Exit 0 else
          (case leIni E (ConfigFile preCfg) cfg of (IniBad e, _) \<Rightarrow> Failed (IniError e)
           | (_, cfg) \<Rightarrow>
             let cfg = cfg\<lparr>fileMiningAddr := MiningAddr cfg\<rparr>
             in (case leParse E cfg of Inl e \<Rightarrow> Failed (FlagError e)
              | Inr (cfg, remainingArgs) \<Rightarrow>
                (case leLoad E (OpenCLLib cfg) of Some e \<Rightarrow> Failed (LoadError e)
                 | None \<Rightarrow>
                   if ListDevices cfg then (case leList E of Inl e \<Rightarrow> Failed (ListError e) | Inr names \<Rightarrow> Exit 0)
                   else (case validate (leLevel E) cfg of Inl err \<Rightarrow> Failed err
                     | Inr cfg \<Rightarrow> Configured cfg remainingArgs
                         (if TestNet cfg then TestNet3 else if SimNet cfg then SimNetwork else MainNet)))))))"

section \<open>What the checks establish\<close>

lemma check_all_iff: "check_all chk xs = Inr u \<longleftrightarrow> (\<forall>x \<in> set xs. chk x = None)"
  by (induction xs) (auto split: option.splits)

lemma parseInts_loop_iff:
  "parseInts_loop name fs = Inr vs \<longleftrightarrow> list_all2 (\<lambda>f v. Atoi (TrimSpace f) = Inr v) fs vs"
proof (induction fs arbitrary: vs)
  case Nil
  then show ?case by auto
next
  case (Cons f fs)
  then show ?case
    by (cases vs) (auto simp: bindr_Inr_iff split: sum.splits)
qed

lemma parseInts_not_Nil: "parseInts name s = Inr vs \<Longrightarrow> vs \<noteq> []"
  by (auto simp: parseInts_def parseInts_loop_iff)

lemma parseInts_in64: "parseInts name s = Inr vs \<Longrightarrow> v \<in> set vs \<Longrightarrow> in64 v"
  using Atoi_in64 by (force simp: parseInts_def parseInts_loop_iff in_set_conv_nth list_all2_conv_all_nth)

text \<open>A list written the way \<open>saveDeviceChoice\<close> writes it is read back.\<close>

lemma parseInts_Itoa:
  assumes "vs \<noteq> []" and "\<forall>v \<in> set vs. in64 v"
  shows "parseInts name (Join '','' (map Itoa vs)) = Inr vs"
proof -
  have "Split CHR '','' (Join '','' (map Itoa vs)) = map Itoa vs"
    using assms(1) by (intro Split_Join) auto
  then show ?thesis
    using assms(2) by (simp add: parseInts_def parseInts_loop_iff list_all2_map1 list.rel_refl_strong Atoi_Itoa)
qed

definition config_ok :: "config \<Rightarrow> bool" where
  "config_ok cfg \<longleftrightarrow> \<not> (TestNet cfg \<and> SimNet cfg)
     \<and> AutocalibrateInts cfg \<noteq> []
     \<and> (\<forall>i \<in> set (IntensityInts cfg). 8 \<le> i \<and> i \<le> 31)
     \<and> (\<forall>w \<in> set (WorkSizeInts cfg). 256 \<le> unat w \<and> unat w mod 256 = 0)
     \<and> DutyCycleInts cfg \<noteq> [] \<and> (\<forall>d \<in> set (DutyCycleInts cfg). 1 \<le> d \<and> d \<le> 100)"

lemma check_worksize_None: "check_worksize w = None \<longleftrightarrow> 256 \<le> unat w \<and> unat w mod 256 = 0"
proof -
  have m: "w mod 256 = 0 \<longleftrightarrow> unat w mod 256 = 0"
    by (simp add: word_unat_eq_iff unat_mod)
  have "w \<le> maxWorkSize" if "unat w mod 256 = 0"
  proof -
    have "unat w < 2 ^ 32" using unsigned_less [of w] by simp
    moreover have "unat w = 256 * (unat w div 256)"
      using that div_mult_mod_eq [of "unat w" 256] by simp
    ultimately have "unat w div 256 \<le> 16777215" by simp
    then have "unat w \<le> 4294967040" using \<open>unat w = 256 * (unat w div 256)\<close> by linarith
    then show ?thesis by (simp add: maxWorkSize_def word_le_nat_alt)
  qed
  moreover have "w < 256 \<longleftrightarrow> unat w < 256" by (simp add: word_less_nat_alt)
  ultimately show ?thesis by (auto simp: check_worksize_def m)
qed

lemma parse_setting_Inr:
  "parse_setting name s dflt = Inr vs \<Longrightarrow> dflt \<noteq> [] \<Longrightarrow> vs \<noteq> []"
  by (auto simp: parse_setting_def parseInts_not_Nil split: if_splits)

lemma validate_Inr:
  assumes "validate known cfg = Inr cfg'"
  obtains autos devs intens sizes duties where
    "\<not> (TestNet cfg \<and> SimNet cfg)"
    "parse_setting ''autocalibration'' (Autocalibrate cfg) [defaultAutocalibrate] = Inr autos"
    "parse_setting ''device'' (Devices cfg) (DeviceIDs cfg) = Inr devs"
    "\<forall>i \<in> set intens. check_intensity i = None"
    "\<forall>w \<in> set sizes. check_worksize w = None"
    "parse_setting ''duty cycle'' (DutyCycle cfg) [defaultDutyCycle] = Inr duties"
    "\<forall>d \<in> set duties. check_dutycycle d = None" "known (DebugLevel cfg)"
    "cfg' = cfg\<lparr>AutocalibrateInts := autos, DeviceIDs := devs, IntensityInts := intens,
       WorkSizeInts := sizes, DutyCycleInts := duties, APIListen := listenAddress cfg\<rparr>"
  using assms unfolding validate_def
  by (simp only: bindr_Inr_iff check_all_iff if_Inl_Inr_iff not_not sum.inject) blast

lemma validate_ok:
  assumes "validate known cfg = Inr cfg'"
  shows "config_ok cfg'"
  using assms
proof (rule validate_Inr)
  fix autos devs intens sizes duties
  assume a: "parse_setting ''autocalibration'' (Autocalibrate cfg) [defaultAutocalibrate] = Inr autos"
    and d: "parse_setting ''duty cycle'' (DutyCycle cfg) [defaultDutyCycle] = Inr duties"
    and c: "\<forall>i \<in> set intens. check_intensity i = None" "\<forall>w \<in> set sizes. check_worksize w = None"
      "\<forall>d \<in> set duties. check_dutycycle d = None" "\<not> (TestNet cfg \<and> SimNet cfg)"
    and cfg': "cfg' = cfg\<lparr>AutocalibrateInts := autos, DeviceIDs := devs, IntensityInts := intens,
       WorkSizeInts := sizes, DutyCycleInts := duties, APIListen := listenAddress cfg\<rparr>"
  have "autos \<noteq> []" "duties \<noteq> []" using parse_setting_Inr [OF a] parse_setting_Inr [OF d] by simp_all
  moreover have "\<forall>i \<in> set intens. 8 \<le> i \<and> i \<le> 31"
    using c(1) by (auto simp: check_intensity_def minIntensity_def maxIntensity_def split: if_splits)
  moreover have "\<forall>d \<in> set duties. 1 \<le> d \<and> d \<le> 100"
    using c(3) by (auto simp: check_dutycycle_def split: if_splits)
  ultimately show ?thesis
    using c(2,4) by (simp add: cfg' config_ok_def check_worksize_None)
qed

lemma validate_keeps:
  assumes "validate known cfg = Inr cfg'"
  shows "TestNet cfg' = TestNet cfg" "SimNet cfg' = SimNet cfg" "MiningAddr cfg' = MiningAddr cfg"
    "fileMiningAddr cfg' = fileMiningAddr cfg" "ConfigFile cfg' = ConfigFile cfg"
    "Benchmark cfg' = Benchmark cfg"
  using assms by (rule validate_Inr, simp)+

lemma loadConfig_Configured:
  assumes "loadConfig E = Configured cfg args net"
  obtains cfg0 cfg1 ini where "validate (leLevel E) cfg0 = Inr cfg"
    "leParse E (cfg1\<lparr>fileMiningAddr := MiningAddr cfg1\<rparr>) = Inr (cfg0, args)"
    "net = (if TestNet cfg then TestNet3 else if SimNet cfg then SimNetwork else MainNet)"
    "leLoad E (OpenCLLib cfg0) = None" "\<not> ListDevices cfg0"
  using assms
  by (auto simp: loadConfig_def Let_def split: if_splits sum.splits prod.splits ini_result.splits option.splits)

section \<open>normalizeAddress\<close>

lemma normalize_splits:
  assumes "port_ok p" and "p \<noteq> []" and "host_ok addr \<or> (\<exists>h q. SplitHostPort addr = Inr (h, q))"
  shows "\<exists>h q. SplitHostPort (normalizeAddress addr p) = Inr (h, q) \<and> q \<noteq> []"
proof (cases "SplitHostPort addr")
  case (Inl err)
  then show ?thesis using assms hp.split_join [of addr p] by (auto simp: normalizeAddress_def)
next
  case (Inr hq)
  then show ?thesis
    using assms(1,2) hp.rejoin [of addr "fst hq" "snd hq" p]
    by (cases hq) (auto simp: normalizeAddress_def)
qed

lemma normalize_again:
  "SplitHostPort (normalizeAddress addr p) = Inr (h, q) \<Longrightarrow> q \<noteq> [] \<Longrightarrow>
   normalizeAddress (normalizeAddress addr p) p' = normalizeAddress addr p"
  by (simp add: normalizeAddress_def [of "normalizeAddress addr p"])

section \<open>Properties\<close>


text \<open>A run with a list of intensities on the command line.\<close>

definition demo_load :: "string \<Rightarrow> load_env" where
  [go_eval]: "demo_load worksize = \<lparr>leMkdir = True, leDefaultFile = ''c'', lePreParse = Inr,
     leIni = (\<lambda>f c. (IniOk, c\<lparr>MiningAddr := ''Vs1''\<rparr>)),
     leParse = (\<lambda>c. Inr (c\<lparr>WorkSize := worksize, SimNet := True\<rparr>, [])),
     leLoad = (\<lambda>_. None), leList = Inr [], leLevel = (\<lambda>l. l = ''info'')\<rparr>"

lemma demo_load_runs:
  assumes "parseInts ''worksize'' ws = Inr vs" and "ws \<noteq> []"
    and "\<forall>w \<in> set (map of_int vs). check_worksize w = None"
  shows "\<exists>cfg. loadConfig (demo_load ws) = Configured cfg [] SimNetwork \<and> WorkSizeInts cfg = map of_int vs
    \<and> fileMiningAddr cfg = ''Vs1'' \<and> DeviceIDs cfg = [] \<and> IntensityInts cfg = []"
proof -
  have c: "check_all check_worksize (map of_int vs) = Inr ()" using assms(3) by (simp only: check_all_iff)
  have d: "check_all check_dutycycle [defaultDutyCycle] = Inr ()"
    by (simp add: check_dutycycle_def defaultDutyCycle_def)
  show ?thesis
    using c d assms(1,2)
    by (simp add: loadConfig_def demo_load_def Let_def zero_config_def validate_def parse_setting_def
        listenAddress_def)
qed

lemma parse_worksizes: "parseInts ''worksize'' ''65536,4294967040'' = Inr [65536, 4294967040]"
  using parseInts_Itoa [of "[65536, 4294967040]" "''worksize''"] by (simp add: Itoa_eval in64_def)


text \<open>The range checks of a work size see only its low 32 bits: \<open>--worksize=4294967552\<close> is accepted as
  256, and \<open>--worksize=-256\<close> as the largest size allowed.\<close>
lemma worksize_wraps:
  "(\<exists>cfg. loadConfig (demo_load ''4294967552'') = Configured cfg [] SimNetwork \<and> WorkSizeInts cfg = [256])
   \<and> (\<exists>cfg. loadConfig (demo_load ''-256'') = Configured cfg [] SimNetwork \<and> WorkSizeInts cfg = [maxWorkSize])"
proof -
  have p: "parseInts ''worksize'' ''4294967552'' = Inr [4294967552]" "parseInts ''worksize'' ''-256'' = Inr [-256]"
    using parseInts_Itoa [of "[4294967552]" "''worksize''"] parseInts_Itoa [of "[-256]" "''worksize''"]
    by (simp_all add: Itoa_eval in64_def)
  have w: "(of_int 4294967552 :: u32) = 256" "(of_int (-256) :: u32) = maxWorkSize"
    by (simp_all add: maxWorkSize_def word_eq_iff_unsigned)
  have "check_worksize (256 :: u32) = None" by (simp add: check_worksize_None)
  moreover have "check_worksize maxWorkSize = None" by (simp add: check_worksize_None maxWorkSize_def)
  ultimately show ?thesis
    using demo_load_runs [OF p(1)] demo_load_runs [OF p(2)] unfolding list.map w by auto
qed

text \<open>An address for the status API always gets a port: if the configured text has no brackets, or
  already splits into host and port, the normalised address splits into a host and a port
  that is not empty, and normalising it again changes nothing.\<close>
lemma normalized_address_has_port:
  assumes "host_ok addr \<or> (\<exists>h q. SplitHostPort addr = Inr (h, q))"
  shows "(\<exists>h q. SplitHostPort (normalizeAddress addr defaultAPIPort) = Inr (h, q) \<and> q \<noteq> [])
    \<and> normalizeAddress (normalizeAddress addr defaultAPIPort) defaultAPIPort = normalizeAddress addr defaultAPIPort"
proof -
  have "port_ok defaultAPIPort" "defaultAPIPort \<noteq> []" by (simp_all add: port_ok_def defaultAPIPort_def)
  from normalize_splits [OF this assms] show ?thesis using normalize_again by blast
qed

lemma normalized_address_has_port_witness:
  "\<exists>h q. SplitHostPort (normalizeAddress ''::1'' defaultAPIPort) = Inr (h, q) \<and> q \<noteq> []"
  using normalized_address_has_port [of "''::1''"] by (simp add: host_ok_def)

text \<open>An IPv6 address in brackets without a port is bracketed a second time, and what results is not
  an address that splits into host and port.\<close>
lemma bracketed_address_is_broken:
  "normalizeAddress ''[::1]'' ''3333'' = ''[[::1]]:3333'' \<and> SplitHostPort ''[[::1]]:3333'' = Inl MissingPort"
  by code_simp

end
