(* ===== verification/Go_Float.thy ===== *)
theory Go_Float
  imports Complex_Main Prelude "HOL-Library.Log_Nat"
begin

text \<open>
  Go's \<open>float64\<close> where the program computes with it: correctly rounded results (53 bits, ties to
  even) of the values that occur, which are far from the ends of the exponent range. A
  value that is not finite is \<open>None\<close>.
\<close>

section \<open>Rounding\<close>

text \<open>The integer nearest to a rational, the even one of two.\<close>

definition round_even :: "rat \<Rightarrow> int" where
  "round_even x = (let f = \<lfloor>x\<rfloor>; d = x - of_int f
     in if d < 1 / 2 then f else if d > 1 / 2 then f + 1 else if even f then f else f + 1)"

text \<open>The exponent: \<open>2 ^ e \<le> x < 2 ^ (e + 1)\<close>.\<close>

definition ilog2 :: "rat \<Rightarrow> int" where
  "ilog2 x = (case quotient_of x of (p, q) \<Rightarrow>
     let e = bitlen p - bitlen q in if 2 powi e \<le> x then e else e - 1)"

definition fl64 :: "rat \<Rightarrow> rat" where
  "fl64 x = (if x = 0 then 0
     else let u = 2 powi (ilog2 \<bar>x\<bar> - 52) in of_int (round_even (x / u)) * u)"

definition fl_div :: "rat \<Rightarrow> rat \<Rightarrow> rat option" where
  "fl_div x y = (if y = 0 then None else Some (fl64 (x / y)))"

text \<open>Integers below \<open>2 ^ 53\<close> are exact.\<close>

lemma round_even_int [simp]: "round_even (of_int k) = k"
  by (simp add: round_even_def Let_def)

lemma fl64_exact:
  assumes "0 \<le> n" and "n < 2 ^ 53"
  shows "fl64 (of_int n) = of_int n"
proof (cases "n = 0")
  case True
  then show ?thesis by (simp add: fl64_def)
next
  case False
  have "bitlen n \<le> 53" using assms bitlen_le_iff_power [of n 53] by simp
  moreover have "bitlen (1 :: int) = 1" by (simp add: bitlen_def compute_floorlog)
  ultimately have "ilog2 (of_int n) \<le> 52"
    by (simp add: ilog2_def quotient_of_int Let_def)
  then obtain k where k: "ilog2 (of_int n) - 52 = - int k"
    by (metis diff_le_0_iff_le minus_minus nonneg_int_cases neg_0_le_iff_le)
  have "(of_int n :: rat) / 2 powi (- int k) = of_int (n * 2 ^ k)"
    by (simp add: power_int_minus field_simps)
  then have "of_int (round_even ((of_int n :: rat) / 2 powi (- int k))) * (2 powi (- int k) :: rat) = of_int n"
    by (simp only: round_even_int) (simp add: power_int_minus)
  then show ?thesis using False assms(1) by (simp add: fl64_def Let_def k)
qed
end
