(* ===== verification/Device_Setup.thy ===== *)
theory Device_Setup
  imports Config Commands Go_Float "HOL-Library.Multiset"
begin

text \<open>
  Finding and building the devices (src/device_opencl.go: \<open>getCLPlatforms\<close>, \<open>getCLDevices\<close>,
  \<open>listDevices\<close>, \<open>NewDevice\<close>, \<open>newMinerDevs\<close>; src/calibrate.go). What the OpenCL entry points
  return, and the clock, are inputs.
\<close>

section \<open>Platforms and devices\<close>

record cl_device =
  cdId :: cl_handle
  cdHandles :: cl_handles
  cdName :: query
  cdContext :: int
  cdQueue :: int
  cdBuffer :: int
  cdProgram :: int
  cdBuild :: int
  cdKernel :: int
  cdNow :: int
  cdLaunches :: "(cl_status \<times> int \<times> u32 list) list"

record platform =
  plProbe :: int
  plCount :: nat
  plStatus :: int
  plDevices :: "cl_device list"

record cl_system =
  syProbe :: int
  syCount :: nat
  syStatus :: int
  syPlatforms :: "platform list"

text \<open>The text \<open>clError\<close> gives an error.\<close>

definition clError :: "int \<Rightarrow> string \<Rightarrow> string" where
  "clError status f = f @ '' returned error '' @ ErrorName status @ '' ('' @ Itoa status @ '')''"

definition deviceName :: "query \<Rightarrow> string" where
  "deviceName q = (case DeviceInfoString q of (name, status) \<Rightarrow>
     if status \<noteq> Success then ''<unknown: '' @ clError status ''clGetDeviceInfo'' @ ''>'' else name)"

definition getCLPlatforms :: "cl_system \<Rightarrow> dev_error + platform list" where
  "getCLPlatforms S =
    (if syProbe S = PlatformNotFound \<or> syProbe S = Success \<and> syCount S = 0 then Inr []
     else if syProbe S \<noteq> Success then Inl (ClError (syProbe S) ''clGetPlatformIDs'')
     else if syStatus S \<noteq> Success then Inl (ClError (syStatus S) ''clGetPlatformIDs'')
     else Inr (syPlatforms S))"

definition getCLDevices :: "platform \<Rightarrow> dev_error + cl_device list" where
  "getCLDevices p =
    (if plProbe p \<noteq> Success \<and> plProbe p \<noteq> DeviceNotFound then Inl (ClError (plProbe p) ''clGetDeviceIDs'')
     else if plCount p = 0 then Inr []
     else if plStatus p \<noteq> Success then Inl (ClError (plStatus p) ''clGetDeviceIDs'')
     else Inr (plDevices p))"

primrec list_loop :: "platform list \<Rightarrow> dev_error + string list" where
  "list_loop [] = Inr []"
| "list_loop (p # ps) = bindr (getCLDevices p) (\<lambda>ds.
     bindr (list_loop ps) (\<lambda>names. Inr (map (\<lambda>d. deviceName (cdName d)) ds @ names)))"

definition listDevices :: "cl_system \<Rightarrow> dev_error + string list" where
  "listDevices S = bindr (getCLPlatforms S) list_loop"

section \<open>Calibration\<close>

text \<open>
  The result of converting a float to \<open>uint32\<close> that it cannot represent depends on the
  implementation: \<open>undef\<close>. The product before the division by 256 is with a power of two and exact.
\<close>

definition to_uint32 :: "u32 \<Rightarrow> rat option \<Rightarrow> u32" where
  "to_uint32 undef x = (case x of None \<Rightarrow> undef
     | Some r \<Rightarrow> if 0 \<le> \<lceil>r\<rceil> \<and> \<lceil>r\<rceil> < 2 ^ 32 then of_int \<lceil>r\<rceil> else undef)"

definition adjustSize :: "u32 \<Rightarrow> int \<Rightarrow> int \<Rightarrow> u32 \<Rightarrow> u32" where
  "adjustSize undef target execTime workSize =
    (let adj = map_option (\<lambda>q. fl64 (fl64 (of_nat (unat workSize) * q) / 256))
                 (fl_div (fl64 (of_int target)) (fl64 (of_int execTime)));
         adjMultiple256 = to_uint32 undef adj
     in adjMultiple256 * 256)"

text \<open>One launch of the kernel with the arguments of a device that has no work.\<close>

definition getKernelExecutionTime :: "device \<Rightarrow> cl_status \<times> int \<times> u32 list \<Rightarrow> dev_error + int" where
  "getKernelExecutionTime d launch = (case launch of (st, elapsed, out) \<Rightarrow>
     bindr (setKernelArgs (stArg st) (d\<lparr>dWork := zero_work\<rparr>)) (\<lambda>args.
     bindr (runKernel st elapsed out) (\<lambda>(elapsedTime, readback). Inr elapsedTime)))"

text \<open>The loop; the list holds the time each launch takes, and \<open>None\<close> is a loop still running.\<close>

fun calibrate_loop :: "u32 \<Rightarrow> int \<Rightarrow> u32 \<Rightarrow> (dev_error + int) list \<Rightarrow> (dev_error + u32) option" where
  "calibrate_loop undef target workSize [] = None"
| "calibrate_loop undef target workSize (t # ts) =
    (case t of Inl e \<Rightarrow> Some (Inl e)
     | Inr execTime \<Rightarrow>
       if execTime < target \<and> workSize < push_bit 30 1 then calibrate_loop undef target (push_bit 1 workSize) ts
       else Some (Inr (adjustSize undef target execTime workSize)))"

definition calcWorkSizeForMilliseconds :: "u32 \<Rightarrow> int \<Rightarrow> (dev_error + int) list \<Rightarrow> (dev_error + u32) option" where
  "calcWorkSizeForMilliseconds undef ms ts = calibrate_loop undef (wrap64 (ms * 1000000)) (push_bit 10 1) ts"

section \<open>NewDevice\<close>

text \<open>The first value applies to every device, one at the device's own position overrides it.
  An empty list has no first value: indexing it panics.\<close>

definition pick :: "'a list \<Rightarrow> nat \<Rightarrow> 'a option" where
  [go_eval]: "pick xs order = (case xs of [] \<Rightarrow> None | x # _ \<Rightarrow> Some (if order < length xs then xs ! order else x))"

datatype build_fault = BuildError dev_error | IndexPanic | StillCalibrating

text \<open>The creation calls in order, each with its status; the handles are those the calls return.\<close>

primrec call_name :: "cl_create \<Rightarrow> string" where
  "call_name (CreateContext d) = ''clCreateContext''"
| "call_name (CreateCommandQueue c d props) = ''clCreateCommandQueue''"
| "call_name (CreateBuffer c flags n) = ''clCreateBuffer''"
| "call_name (CreateProgram c) = ''clCreateProgramWithSource''"
| "call_name (BuildProgram p d opts) = ''clBuildProgram''"
| "call_name (CreateKernel p name) = ''clCreateKernel''"

definition creation :: "cl_device \<Rightarrow> (cl_create \<times> int) list" where
  "creation cd = zip (creation_calls (cdId cd) (cdHandles cd))
     [cdContext cd, cdQueue cd, cdBuffer cd, cdProgram cd, cdBuild cd, cdKernel cd]"

primrec run_creation :: "(cl_create \<times> int) list \<Rightarrow> dev_error option" where
  "run_creation [] = None"
| "run_creation (c # cs) =
    (if snd c \<noteq> Success then Some (ClError (snd c) (call_name (fst c))) else run_creation cs)"

definition intensity_size :: "int \<Rightarrow> u32" where
  "intensity_size i = push_bit (unat (of_int i :: u32)) 1"

definition globalWorkSize :: "u32 \<Rightarrow> config \<Rightarrow> nat \<Rightarrow> device \<Rightarrow> cl_device \<Rightarrow> build_fault + u32" where
  "globalWorkSize undef cfg order d cd =
    (if IntensityInts cfg = [] \<and> WorkSizeInts cfg = [] then
       (case pick (AutocalibrateInts cfg) order of None \<Rightarrow> Inl IndexPanic
        | Some ms \<Rightarrow> (case calcWorkSizeForMilliseconds undef ms
              (map (getKernelExecutionTime d) (cdLaunches cd)) of
            None \<Rightarrow> Inl StillCalibrating | Some (Inl e) \<Rightarrow> Inl (BuildError e) | Some (Inr s) \<Rightarrow> Inr s))
     else (case pick (WorkSizeInts cfg) order of Some s \<Rightarrow> Inr s
       | None \<Rightarrow> (case pick (IntensityInts cfg) order of Some i \<Rightarrow> Inr (intensity_size i) | None \<Rightarrow> Inr 0)))"

definition NewDevice :: "u32 \<Rightarrow> config \<Rightarrow> nat \<Rightarrow> nat \<Rightarrow> cl_device \<Rightarrow> build_fault + device" where
  "NewDevice undef cfg index order cd =
    (case run_creation (creation cd) of Some e \<Rightarrow> Inl (BuildError e)
     | None \<Rightarrow>
       let d = (fresh_device index (deviceName (cdName cd)))\<lparr>dStarted := of_int (cdNow cd),
             dDutyCycle := (case pick (DutyCycleInts cfg) order of None \<Rightarrow> defaultDutyCycle | Some dc \<Rightarrow> dc)\<rparr>
       in bindr (globalWorkSize undef cfg order d cd) (\<lambda>s. Inr (d\<lparr>dWorkSize := s\<rparr>)))"

section \<open>Release\<close>

datatype cl_release =
    ReleaseKernel cl_handle
  | ReleaseProgram cl_handle
  | ReleaseCommandQueue cl_handle
  | ReleaseMemObject cl_handle
  | ReleaseContext cl_handle

definition Release :: "cl_handles \<Rightarrow> cl_release list" where
  "Release h = [ReleaseKernel (hKernel h), ReleaseProgram (hProgram h), ReleaseCommandQueue (hQueue h),
     ReleaseMemObject (hBuffer h), ReleaseContext (hContext h)]"

text \<open>What undoes a creation call; building a program makes nothing new.\<close>

primrec undo :: "cl_handles \<Rightarrow> cl_create \<Rightarrow> cl_release list" where
  "undo h (CreateContext d) = [ReleaseContext (hContext h)]"
| "undo h (CreateCommandQueue c d props) = [ReleaseCommandQueue (hQueue h)]"
| "undo h (CreateBuffer c flags n) = [ReleaseMemObject (hBuffer h)]"
| "undo h (CreateProgram c) = [ReleaseProgram (hProgram h)]"
| "undo h (BuildProgram p d opts) = []"
| "undo h (CreateKernel p name) = [ReleaseKernel (hKernel h)]"

text \<open>Every object is released once, and none before the objects made from it.\<close>

lemma Release_releases_created:
  "mset (Release h) = mset (concat (map (undo h) (creation_calls dev h))) \<and> last (Release h) = ReleaseContext (hContext h)"
  by (simp add: Release_def creation_calls_def)

section \<open>newMinerDevs\<close>

text \<open>\<open>i\<close>: \<open>deviceListIndex\<close>; \<open>k\<close>: \<open>deviceListEnabledCount\<close>.\<close>

primrec build_platform :: "u32 \<Rightarrow> config \<Rightarrow> cl_device list \<Rightarrow> nat \<times> nat \<times> device list \<Rightarrow>
    build_fault + nat \<times> nat \<times> device list" where
  "build_platform undef cfg [] st = Inr st"
| "build_platform undef cfg (cd # cds) st = (case st of (i, k, devs) \<Rightarrow>
     if DeviceIDs cfg = [] \<or> int i \<in> set (DeviceIDs cfg) then
       bindr (NewDevice undef cfg i k cd) (\<lambda>d. build_platform undef cfg cds (i + 1, k + 1, devs @ [d]))
     else build_platform undef cfg cds (i + 1, k, devs))"

primrec build_all :: "u32 \<Rightarrow> config \<Rightarrow> platform list \<Rightarrow> nat \<times> nat \<times> device list \<Rightarrow>
    build_fault + nat \<times> nat \<times> device list" where
  "build_all undef cfg [] st = Inr st"
| "build_all undef cfg (p # ps) st = (case getCLDevices p of Inl e \<Rightarrow> Inl (BuildError e)
     | Inr cds \<Rightarrow> bindr (build_platform undef cfg cds st) (build_all undef cfg ps))"

definition newMinerDevs :: "u32 \<Rightarrow> config \<Rightarrow> cl_system \<Rightarrow> build_fault + device list" where
  "newMinerDevs undef cfg S = (case getCLPlatforms S of Inl e \<Rightarrow> Inl (BuildError e)
     | Inr ps \<Rightarrow> bindr (build_all undef cfg ps (0, 0, [])) (\<lambda>(i, k, devs). Inr devs))"

section \<open>A built device\<close>

lemma pick_Some: "pick xs order = Some x \<Longrightarrow> x \<in> set xs"
proof -
  assume a: "pick xs order = Some x"
  then have ne: "xs \<noteq> []" by (auto simp: pick_def)
  then have "pick xs order = Some (if order < length xs then xs ! order else hd xs)"
    by (cases xs) (simp_all add: pick_def)
  with a ne show ?thesis by (cases "order < length xs") auto
qed

lemma pick_None: "pick xs order = None \<longleftrightarrow> xs = []"
  by (simp add: pick_def split: list.splits)

lemma times_256: "unat (x * 256) mod 256 = 0" for x :: u32
proof -
  have "unat (x * 256) = unat x * 256 mod 2 ^ 32" by (simp add: unat_word_ariths)
  moreover have "(256 :: nat) dvd 2 ^ 32" by (simp add: dvd_eq_mod_eq_0)
  then have "unat x * 256 mod 2 ^ 32 mod 256 = unat x * 256 mod 256" by (rule mod_mod_cancel)
  ultimately show ?thesis by simp
qed

lemma calibrate_multiple:
  "calibrate_loop undef target ws ts = Some (Inr s) \<Longrightarrow> unat s mod 256 = 0"
  by (induction undef target ws ts rule: calibrate_loop.induct)
    (auto simp: adjustSize_def Let_def times_256 split: sum.splits if_splits)

lemma unat_push_1: "k < 32 \<Longrightarrow> unat (push_bit k (1 :: u32)) = 2 ^ k"
proof -
  assume "k < 32"
  then have "(2 :: nat) ^ k < 2 ^ 32" by (intro power_strict_increasing) simp_all
  moreover have "push_bit k (1 :: u32) = of_nat (2 ^ k)" by simp
  ultimately show ?thesis by (simp only: unat_of_nat take_bit_nat_eq_self) simp
qed

lemma intensity_size:
  assumes "8 \<le> i" and "i \<le> 31"
  shows "unat (intensity_size i) = 2 ^ nat i"
proof -
  have "unat (of_int i :: u32) = nat i"
    using assms by (simp add: unsigned_of_int take_bit_int_eq_self)
  moreover have "nat i < 32" using assms by simp
  ultimately show ?thesis by (simp only: intensity_size_def unat_push_1)
qed

text \<open>What the loop needs of a device.\<close>

definition device_tuned :: "config \<Rightarrow> device \<Rightarrow> bool" where
  "device_tuned cfg d \<longleftrightarrow> device_ok d \<and> \<not> hasWork d \<and> chan_buf (newWork d) = [] \<and> chan_cap (newWork d) = 5
     \<and> 1 \<le> dDutyCycle d \<and> dDutyCycle d \<le> 100 \<and> unat (dWorkSize d) mod 256 = 0
     \<and> (IntensityInts cfg \<noteq> [] \<or> WorkSizeInts cfg \<noteq> [] \<longrightarrow> 256 \<le> unat (dWorkSize d))"

lemma globalWorkSize_tuned:
  assumes "config_ok cfg" and "globalWorkSize undef cfg order d cd = Inr s"
  shows "unat s mod 256 = 0 \<and> (IntensityInts cfg \<noteq> [] \<or> WorkSizeInts cfg \<noteq> [] \<longrightarrow> 256 \<le> unat s)"
proof (cases "IntensityInts cfg = [] \<and> WorkSizeInts cfg = []")
  case True
  then show ?thesis
    using assms(2) calibrate_multiple
    by (auto simp: globalWorkSize_def calcWorkSizeForMilliseconds_def split: option.splits sum.splits)
next
  case False
  show ?thesis
  proof (cases "pick (WorkSizeInts cfg) order")
    case (Some w)
    then show ?thesis
      using assms False pick_Some [OF Some] by (auto simp: globalWorkSize_def config_ok_def)
  next
    case None
    then obtain i where i: "pick (IntensityInts cfg) order = Some i"
      using False pick_None [of "WorkSizeInts cfg" order] pick_None [of "IntensityInts cfg" order]
      by (cases "pick (IntensityInts cfg) order") simp_all
    then have b: "8 \<le> i" "i \<le> 31" using assms(1) pick_Some [OF i] by (auto simp: config_ok_def)
    have "(2 :: nat) ^ nat i = 256 * 2 ^ (nat i - 8)"
    proof -
      have "nat i = 8 + (nat i - 8)" using b by simp
      then have "(2 :: nat) ^ nat i = 2 ^ 8 * 2 ^ (nat i - 8)" by (metis power_add)
      then show ?thesis by simp
    qed
    moreover have "s = intensity_size i" using assms(2) None False i by (auto simp: globalWorkSize_def)
    ultimately have "unat s = 256 * 2 ^ (nat i - 8)" using intensity_size [OF b] by simp
    then show ?thesis by simp
  qed
qed

lemma NewDevice_tuned:
  assumes "config_ok cfg" and "NewDevice undef cfg index order cd = Inr d"
  shows "device_tuned cfg d" and "dIndex d = index" and "dName d = deviceName (cdName cd)"
proof -
  obtain s d0 where s: "globalWorkSize undef cfg order d0 cd = Inr s"
    and d: "d = (fresh_device index (deviceName (cdName cd)))\<lparr>dStarted := of_int (cdNow cd),
      dDutyCycle := (case pick (DutyCycleInts cfg) order of None \<Rightarrow> defaultDutyCycle | Some dc \<Rightarrow> dc),
      dWorkSize := s\<rparr>"
    using assms(2) by (auto simp: NewDevice_def Let_def bindr_Inr_iff split: option.splits)
  have dc: "1 \<le> dDutyCycle d \<and> dDutyCycle d \<le> 100"
    using assms(1) pick_Some by (fastforce simp: d defaultDutyCycle_def config_ok_def split: option.splits)
  show "device_tuned cfg d"
    using globalWorkSize_tuned [OF assms(1) s] dc
    by (simp add: d device_tuned_def device_ok_def queue_ok_def fresh_device_def make_chan_def chan_ok_def)
  show "dIndex d = index" "dName d = deviceName (cdName cd)" by (simp_all add: d fresh_device_def)
qed

text \<open>A loaded configuration has a calibration time, so nothing indexes an empty list.\<close>

lemma NewDevice_no_panic:
  assumes "config_ok cfg"
  shows "NewDevice undef cfg i k cd \<noteq> Inl IndexPanic"
proof -
  have "pick (AutocalibrateInts cfg) k \<noteq> None" using assms by (simp add: pick_None config_ok_def)
  then have "globalWorkSize undef cfg k d cd \<noteq> Inl IndexPanic" for d
    by (auto simp: globalWorkSize_def split: option.splits sum.splits)
  then show ?thesis
    by (auto simp: NewDevice_def Let_def bindr_Inl_iff split: option.splits sum.splits)
qed

lemma newMinerDevs_no_panic:
  assumes "config_ok cfg"
  shows "newMinerDevs undef cfg S \<noteq> Inl IndexPanic"
proof -
  note nd = NewDevice_no_panic [OF assms]
  have pl: "build_platform undef cfg cds st \<noteq> Inl IndexPanic" for cds st
  proof (induction cds arbitrary: st)
    case (Cons cd cds)
    obtain i k devs where "st = (i, k, devs)" by (cases st)
    then show ?case using Cons.IH nd by (auto simp: bindr_Inl_iff split: sum.splits)
  qed simp
  have "build_all undef cfg ps st \<noteq> Inl IndexPanic" for ps st
  proof (induction ps arbitrary: st)
    case (Cons p ps)
    then show ?case using pl by (auto simp: bindr_Inl_iff split: sum.splits)
  qed simp
  then show ?thesis by (auto simp: newMinerDevs_def bindr_Inl_iff split: sum.splits)
qed

section \<open>The devices built are the devices chosen\<close>

definition chosen :: "config \<Rightarrow> nat \<Rightarrow> bool" where
  "chosen cfg i \<longleftrightarrow> DeviceIDs cfg = [] \<or> int i \<in> set (DeviceIDs cfg)"

definition built_from :: "config \<Rightarrow> nat \<Rightarrow> cl_device list \<Rightarrow> device list \<Rightarrow> bool" where
  "built_from cfg i cds new \<longleftrightarrow> map dIndex new = filter (chosen cfg) [i..<i + length cds]
     \<and> (\<forall>d \<in> set new. device_tuned cfg d \<and> dName d = deviceName (cdName (cds ! (dIndex d - i))))"

lemma built_from_append:
  assumes "built_from cfg i a n" and "built_from cfg (i + length a) b m"
  shows "built_from cfg i (a @ b) (n @ m)"
proof -
  note n = assms(1) [unfolded built_from_def] and m = assms(2) [unfolded built_from_def]
  have idx: "[i..<i + length (a @ b)] = [i..<i + length a] @ [i + length a..<i + length a + length b]"
    using upt_add_eq_append [of i "i + length a" "length b"] by (simp add: add.assoc)
  have "map dIndex (n @ m) = filter (chosen cfg) [i..<i + length (a @ b)]"
    unfolding idx map_append filter_append n [THEN conjunct1] m [THEN conjunct1] by (rule refl)
  moreover have "device_tuned cfg d \<and> dName d = deviceName (cdName ((a @ b) ! (dIndex d - i)))"
    if d: "d \<in> set (n @ m)" for d
  proof (cases "d \<in> set n")
    case True
    then have "dIndex d \<in> set (map dIndex n)" by simp
    then have "dIndex d \<in> set (filter (chosen cfg) [i..<i + length a])" by (simp only: n [THEN conjunct1])
    then have "dIndex d - i < length a" by auto
    then have "(a @ b) ! (dIndex d - i) = a ! (dIndex d - i)" by (simp add: nth_append)
    then show ?thesis using n True by simp
  next
    case False
    then have e: "d \<in> set m" using d by simp
    then have "dIndex d \<in> set (map dIndex m)" by simp
    then have "dIndex d \<in> set (filter (chosen cfg) [i + length a..<i + length a + length b])" by (simp only: m [THEN conjunct1])
    then have "i + length a \<le> dIndex d" by simp
    then have "\<not> dIndex d - i < length a" and "dIndex d - i - length a = dIndex d - (i + length a)" by arith+
    then have "(a @ b) ! (dIndex d - i) = b ! (dIndex d - (i + length a))" by (simp only: nth_append if_False)
    then show ?thesis using m e by simp
  qed
  ultimately show ?thesis by (simp only: built_from_def) blast
qed

lemma build_platform_built:
  assumes "config_ok cfg"
  shows "build_platform undef cfg cds (i, k, devs) = Inr (i', k', devs') \<Longrightarrow>
    i' = i + length cds \<and> (\<exists>new. devs' = devs @ new \<and> built_from cfg i cds new)"
proof (induction cds arbitrary: i k devs)
  case Nil
  then show ?case by (simp add: built_from_def)
next
  case (Cons cd cds)
  show ?case
  proof (cases "chosen cfg i")
    case True
    then obtain d where d: "NewDevice undef cfg i k cd = Inr d"
      and rest: "build_platform undef cfg cds (i + 1, k + 1, devs @ [d]) = Inr (i', k', devs')"
      using Cons.prems by (auto simp: chosen_def bindr_Inr_iff)
    from Cons.IH [OF rest] obtain new where n: "i' = i + 1 + length cds" "devs' = devs @ [d] @ new"
      "built_from cfg (i + 1) cds new" by auto
    have "built_from cfg i [cd] [d]"
      using True NewDevice_tuned [OF assms d] by (simp add: built_from_def)
    from built_from_append [OF this, of cds new] n show ?thesis by simp
  next
    case False
    then have rest: "build_platform undef cfg cds (i + 1, k, devs) = Inr (i', k', devs')"
      using Cons.prems by (simp add: chosen_def)
    from Cons.IH [OF rest] obtain new where n: "i' = i + 1 + length cds" "devs' = devs @ new"
      "built_from cfg (i + 1) cds new" by auto
    have "built_from cfg i [cd] []" using False by (simp add: built_from_def)
    from built_from_append [OF this, of cds new] n show ?thesis by simp
  qed
qed

lemma build_all_built:
  assumes "config_ok cfg"
  shows "build_all undef cfg ps (i, k, devs) = Inr (i', k', devs') \<Longrightarrow>
    \<exists>cds new. list_loop ps = Inr (map (\<lambda>d. deviceName (cdName d)) cds)
      \<and> devs' = devs @ new \<and> built_from cfg i cds new"
proof (induction ps arbitrary: i k devs)
  case Nil
  then show ?case by (auto simp: built_from_def)
next
  case (Cons p ps)
  then obtain cds i1 k1 devs1 where p: "getCLDevices p = Inr cds"
    and b: "build_platform undef cfg cds (i, k, devs) = Inr (i1, k1, devs1)"
    and rest: "build_all undef cfg ps (i1, k1, devs1) = Inr (i', k', devs')"
    by (auto simp: bindr_Inr_iff split: sum.splits)
  from build_platform_built [OF assms b] obtain new1
    where 1: "i1 = i + length cds" "devs1 = devs @ new1" "built_from cfg i cds new1" by blast
  from Cons.IH [OF rest] obtain cds2 new2 where 2: "list_loop ps = Inr (map (\<lambda>d. deviceName (cdName d)) cds2)"
    "devs' = devs1 @ new2" "built_from cfg i1 cds2 new2" by blast
  have "built_from cfg i (cds @ cds2) (new1 @ new2)"
    using 1 2(3) by (intro built_from_append) simp_all
  with p 1 2 show ?case by (intro exI [of _ "cds @ cds2"] exI [of _ "new1 @ new2"]) simp
qed

lemma newMinerDevs_built:
  assumes "config_ok cfg" and "newMinerDevs undef cfg S = Inr devs"
  shows "\<exists>names. listDevices S = Inr names
    \<and> map dIndex devs = filter (chosen cfg) [0..<length names]
    \<and> (\<forall>d \<in> set devs. device_tuned cfg d \<and> dIndex d < length names \<and> dName d = names ! dIndex d)"
proof -
  obtain ps i k where ps: "getCLPlatforms S = Inr ps" and b: "build_all undef cfg ps (0, 0, []) = Inr (i, k, devs)"
    using assms(2) by (auto simp: newMinerDevs_def bindr_Inr_iff split: sum.splits)
  from build_all_built [OF assms(1) b] obtain cds
    where l: "list_loop ps = Inr (map (\<lambda>d. deviceName (cdName d)) cds)" and bf: "built_from cfg 0 cds devs"
    by auto
  have "dIndex d < length cds" if "d \<in> set devs" for d
  proof -
    have "map dIndex devs = filter (chosen cfg) [0..<0 + length cds]"
      using bf unfolding built_from_def by blast
    moreover have "dIndex d \<in> set (map dIndex devs)" using that by simp
    ultimately have "dIndex d \<in> set (filter (chosen cfg) [0..<0 + length cds])" by (simp only:)
    then show ?thesis by simp
  qed
  with bf l ps show ?thesis by (auto simp: built_from_def listDevices_def)
qed

section \<open>Calibration ends\<close>

lemma calibrate_ends:
  "k \<le> 30 \<Longrightarrow> 30 - k < length ts \<Longrightarrow> calibrate_loop undef target (push_bit k 1) ts \<noteq> None"
proof (induction ts arbitrary: k)
  case Nil
  then show ?case by simp
next
  case (Cons t ts)
  have p: "push_bit 1 (push_bit k (1 :: u32)) = push_bit (Suc k) 1" by (simp only: push_bit_push_bit) simp
  show ?case
  proof (cases "k = 30")
    case True
    then show ?thesis by (simp split: sum.split)
  next
    case False
    then have "calibrate_loop undef target (push_bit (Suc k) 1) ts \<noteq> None"
      using Cons.prems by (intro Cons.IH) simp_all
    then show ?thesis by (cases t) (simp_all only: calibrate_loop.simps p sum.case, simp_all)
  qed
qed

end
