(* ===== verification/Files.thy ===== *)
theory Files
  imports Go_Strings
begin

text \<open>
  The terminal and the two files the program writes (the helpers of src/payout.go): permission
  checks, appending a setting, asking a question. A file is its permission bits and its
  content; system errors are inputs.
\<close>

section \<open>The world outside\<close>

record disk_file =
  fMode :: u32
  fBody :: string

text \<open>What one read of the terminal returns; when the list ends the input does.\<close>

datatype chunk = Chunk string | ReadFault string

record world =
  files :: "string \<rightharpoonup> disk_file"
  statFault :: "string \<Rightarrow> string option"
  windows :: bool
  umask :: u32
  stdin :: "chunk list"
  ttyIn :: bool
  ttyOut :: bool

datatype stat_result = NotExist | StatFault string | Stat disk_file

definition go_stat :: "world \<Rightarrow> string \<Rightarrow> stat_result" where
  [go_eval]: "go_stat w path = (case statFault w path of Some e \<Rightarrow> StatFault e
     | None \<Rightarrow> (case files w path of None \<Rightarrow> NotExist | Some f \<Rightarrow> Stat f))"

section \<open>checkPerms\<close>

datatype file_error = IOError string | TooPermissive string u32 u32

definition permsWritable :: u32 where [go_eval]: "permsWritable = 18"
definition permsPrivate :: u32 where [go_eval]: "permsPrivate = 63"

text \<open>Permission bits in decimal: 18 is 0022, 63 is 0077, 384 is 0600, 511 is 0777. The error
  carries the mode and the mode \<open>chmod\<close> is to set.\<close>

definition checkPerms :: "world \<Rightarrow> string \<Rightarrow> u32 \<Rightarrow> file_error option" where
  "checkPerms w path msk =
    (case go_stat w path of NotExist \<Rightarrow> None
     | StatFault e \<Rightarrow> Some (IOError e)
     | Stat f \<Rightarrow>
       if windows w then None
       else let perm = fMode f AND 511
            in if perm AND msk \<noteq> 0 then Some (TooPermissive path perm (perm AND NOT msk)) else None)"

section \<open>appendSetting\<close>

record append_faults =
  afOpen :: "string option"
  afStat :: "string option"
  afRead :: "string option"
  afWrite :: "(nat \<times> string) option"

definition nl :: char where [go_eval]: "nl = CHR 0x0A"

text \<open>\<open>O_CREATE\<close> with mode 0600; an existing file is opened as it is.\<close>

definition open_append :: "string \<Rightarrow> world \<Rightarrow> world" where
  [go_eval]: "open_append path w = (case files w path of Some f \<Rightarrow> w
     | None \<Rightarrow> w\<lparr>files := (files w)(path \<mapsto> \<lparr>fMode = 384 AND NOT (umask w), fBody = []\<rparr>)\<rparr>)"

definition body_of :: "string \<Rightarrow> world \<Rightarrow> string" where
  [go_eval]: "body_of path w = (case files w path of None \<Rightarrow> [] | Some f \<Rightarrow> fBody f)"

definition append_body :: "string \<Rightarrow> string \<Rightarrow> world \<Rightarrow> world" where
  [go_eval]: "append_body path text w = w\<lparr>files := (files w)(path :=
     map_option (\<lambda>f. f\<lparr>fBody := fBody f @ text\<rparr>) (files w path))\<rparr>"

text \<open>A write that fails may have written a part.\<close>

definition appendSetting :: "append_faults \<Rightarrow> string \<Rightarrow> string \<Rightarrow> world \<Rightarrow> string option \<times> world" where
  "appendSetting af path text w =
    (case afOpen af of Some e \<Rightarrow> (Some e, w)
     | None \<Rightarrow>
       let w = open_append path w
       in (case afStat af of Some e \<Rightarrow> (Some e, w)
        | None \<Rightarrow>
          let body = body_of path w
          in if body \<noteq> [] \<and> afRead af \<noteq> None then (afRead af, w)
             else let prefx = (if body \<noteq> [] \<and> last body \<noteq> nl then [nl] else []);
                      out = prefx @ text
                  in (case afWrite af of Some (n, e) \<Rightarrow> (Some e, append_body path (take n out) w)
                      | None \<Rightarrow> (None, append_body path out w))))"

section \<open>Asking on the terminal\<close>

definition interactive :: "world \<Rightarrow> bool" where
  [go_eval]: "interactive w \<longleftrightarrow> ttyIn w \<and> ttyOut w"

text \<open>
  \<open>bufio.NewReader(os.Stdin).ReadString\<close>: what follows the newline in its chunk stays in the reader's
  buffer, which is dropped.
\<close>

fun ReadString :: "chunk list \<Rightarrow> (string + string) \<times> chunk list" where
  "ReadString [] = (Inr [], [])"
| "ReadString (ReadFault e # cs) = (Inl e, cs)"
| "ReadString (Chunk c # cs) =
    (if nl \<in> set c then (Inr (takeWhile (\<lambda>x. x \<noteq> nl) c @ [nl]), cs)
     else (case ReadString cs of (r, cs') \<Rightarrow> (map_sum id (\<lambda>l. c @ l) r, cs')))"

definition promptLine :: "world \<Rightarrow> (string + string) \<times> world" where
  "promptLine w = (case ReadString (stdin w) of (r, cs) \<Rightarrow> (map_sum id TrimSpace r, w\<lparr>stdin := cs\<rparr>))"

section \<open>What is appended\<close>

text \<open>The lines of a file that are not empty.\<close>

definition file_lines :: "string \<Rightarrow> string list" where
  "file_lines s = filter (\<lambda>l. l \<noteq> []) (Split nl s)"

lemma file_lines_join: "file_lines (s @ nl # t) = file_lines s @ file_lines t"
  by (simp add: file_lines_def Split_sep)

lemma file_lines_Nil [simp]: "file_lines [] = []"
  by (simp add: file_lines_def)

lemma file_lines_end: "file_lines (s @ [nl]) = file_lines s"
  using file_lines_join [of s "[]"] by simp

lemma file_lines_append:
  "s = [] \<or> last s = nl \<Longrightarrow> file_lines (s @ t) = file_lines s @ file_lines t"
proof (cases s rule: rev_cases)
  case (snoc u x)
  assume "s = [] \<or> last s = nl"
  with snoc show ?thesis by (simp add: file_lines_join file_lines_end)
qed simp

lemma appendSetting_ok:
  assumes "appendSetting af path text w = (None, w')"
  shows "file_lines (body_of path w') = file_lines (body_of path w) @ file_lines text"
    and "\<exists>extra. body_of path w' = body_of path w @ extra"
    and "q \<noteq> path \<Longrightarrow> files w' q = files w q"
    and "files w path = Some f \<Longrightarrow> \<exists>f'. files w' path = Some f' \<and> fMode f' = fMode f"
    and "files w path = None \<Longrightarrow> files w' path = Some \<lparr>fMode = 384 AND NOT (umask w), fBody = text\<rparr>"
  using assms
  by (auto simp: appendSetting_def open_append_def body_of_def append_body_def Let_def
      file_lines_append file_lines_join split: option.splits if_splits)

lemma appendSetting_others:
  "appendSetting af path text w = (r, w') \<Longrightarrow> q \<noteq> path \<Longrightarrow> files w' q = files w q"
  "appendSetting af path text w = (r, w') \<Longrightarrow> \<exists>extra. body_of path w' = body_of path w @ extra"
  by (auto simp: appendSetting_def open_append_def body_of_def append_body_def Let_def
      split: option.splits if_splits prod.splits)

section \<open>What is read\<close>

lemma ReadString_line: "ReadString cs = (Inr l, cs') \<Longrightarrow> nl \<notin> set (butlast l)"
proof (induction cs arbitrary: l cs' rule: ReadString.induct)
  case (3 c cs)
  show ?case
  proof (cases "nl \<in> set c")
    case True
    then show ?thesis using 3(2) by (auto dest: set_takeWhileD)
  next
    case False
    then obtain l' where "ReadString cs = (Inr l', cs')" and l: "l = c @ l'"
      using 3(2) by (cases "ReadString cs") (auto simp: map_sum_def split: sum.splits)
    with 3(1) [OF False] have "nl \<notin> set (butlast l')" by simp
    with False show ?thesis by (auto simp: l butlast_append dest: in_set_butlastD)
  qed
qed auto

end
