(* ===== verification/Payout.thy ===== *)
theory Payout
  imports Config Files
begin

text \<open>
  The payout address (src/payout.go): the one configured, or one asked for and saved.
  \<open>decode\<close> is \<open>stdaddr.DecodeAddress\<close> of the node's library: the payment script of an address
  on a network, or an error.
\<close>

type_synonym decoder = "network \<Rightarrow> string \<Rightarrow> string + bytes"

datatype payout_error =
    Disagrees string string string
  | NoAddress
  | InvalidAddress string network string
  | Perms file_error
  | NoTerminal string
  | ReadError string
  | WriteError string

definition payoutAddress :: "string \<Rightarrow> string \<Rightarrow> string \<Rightarrow> payout_error + string" where
  "payoutAddress effective fromFile filePath =
    (if effective = [] then Inr []
     else if fromFile \<noteq> [] \<and> effective \<noteq> fromFile then Inl (Disagrees effective filePath fromFile)
     else Inr effective)"

definition validatePayout :: "decoder \<Rightarrow> string \<Rightarrow> network \<Rightarrow> payout_error option" where
  "validatePayout decode addr net =
    (if addr = [] then Some NoAddress
     else (case decode net addr of Inl e \<Rightarrow> Some (InvalidAddress addr net e) | Inr _ \<Rightarrow> None))"

definition promptPayout :: "world \<Rightarrow> (string + string) \<times> world" where
  "promptPayout w = promptLine w"

definition resolvePayout ::
    "decoder \<Rightarrow> network \<Rightarrow> append_faults \<Rightarrow> config \<Rightarrow> world \<Rightarrow> (payout_error + string) \<times> world" where
  "resolvePayout decode net af cfg w =
    (case checkPerms w (ConfigFile cfg) permsWritable of Some e \<Rightarrow> (Inl (Perms e), w)
     | None \<Rightarrow>
       (case payoutAddress (MiningAddr cfg) (fileMiningAddr cfg) (ConfigFile cfg) of Inl e \<Rightarrow> (Inl e, w)
        | Inr addr \<Rightarrow>
          if addr \<noteq> [] then
            (case validatePayout decode addr net of Some e \<Rightarrow> (Inl e, w) | None \<Rightarrow> (Inr addr, w))
          else if \<not> interactive w then (Inl (NoTerminal (ConfigFile cfg)), w)
          else (case promptPayout w of (Inl e, w) \<Rightarrow> (Inl (ReadError e), w)
            | (Inr addr, w) \<Rightarrow>
              (case validatePayout decode addr net of Some e \<Rightarrow> (Inl e, w)
               | None \<Rightarrow>
                 (case appendSetting af (ConfigFile cfg) (''miningaddr='' @ addr @ [nl]) w of
                    (Some e, w) \<Rightarrow> (Inl (WriteError e), w)
                  | (None, w) \<Rightarrow> (Inr addr, w))))))"

section \<open>What is returned and what is written\<close>

lemma promptLine_frame: "promptLine w = (r, w') \<Longrightarrow> files w' = files w"
  by (auto simp: promptLine_def split: prod.splits)

lemma promptLine_no_newline: "promptLine w = (Inr l, w') \<Longrightarrow> nl \<notin> set l"
  using ReadString_line TrimSpace_no_newline
  by (auto simp: promptLine_def nl_def map_sum_def split: prod.splits sum.splits)

lemma file_lines_one: "nl \<notin> set l \<Longrightarrow> file_lines (l @ [nl]) = (if l = [] then [] else [l])"
  by (simp add: file_lines_end) (simp add: file_lines_def Split_clean)

text \<open>The three ways an address can be settled, and the frame otherwise.\<close>

lemma resolvePayout_cases:
  assumes "resolvePayout decode net af cfg w = (r, w')"
  obtains (refused) e where "r = Inl e" "files w' = files w"
  | (configured) script where "r = Inr (MiningAddr cfg)" "w' = w" "MiningAddr cfg \<noteq> []"
      "fileMiningAddr cfg = [] \<or> fileMiningAddr cfg = MiningAddr cfg"
      "decode net (MiningAddr cfg) = Inr script" "checkPerms w (ConfigFile cfg) permsWritable = None"
  | (asked) addr script w1 e where "MiningAddr cfg = []" "interactive w" "promptLine w = (Inr addr, w1)"
      "addr \<noteq> []" "decode net addr = Inr script" "checkPerms w (ConfigFile cfg) permsWritable = None"
      "appendSetting af (ConfigFile cfg) (''miningaddr='' @ addr @ [nl]) w1 = (e, w')"
      "r = (case e of None \<Rightarrow> Inr addr | Some e \<Rightarrow> Inl (WriteError e))"
proof (cases "checkPerms w (ConfigFile cfg) permsWritable")
  case (Some e)
  then show ?thesis using assms refused by (auto simp: resolvePayout_def)
next
  case perms: None
  show ?thesis
  proof (cases "MiningAddr cfg = []")
    case False
    then show ?thesis
      using assms perms refused configured
      by (auto simp: resolvePayout_def payoutAddress_def validatePayout_def
          split: if_splits sum.splits option.splits)
  next
    case True
    note r = assms [unfolded resolvePayout_def payoutAddress_def promptPayout_def True perms, simplified]
    show ?thesis
    proof (cases "interactive w")
      case False
      then show ?thesis using r refused by auto
    next
      case tty: True
      obtain l w1 where l: "promptLine w = (l, w1)" by fastforce
      note fr = promptLine_frame [OF l]
      show ?thesis
      proof (cases l)
        case (Inl e)
        then show ?thesis using r tty l fr refused by auto
      next
        case (Inr addr)
        show ?thesis
        proof (cases "validatePayout decode addr net")
          case (Some e)
          then show ?thesis using r tty l fr Inr refused by auto
        next
          case None
          obtain e w2 where a: "appendSetting af (ConfigFile cfg) (''miningaddr='' @ addr @ [nl]) w1 = (e, w2)"
            by fastforce
          from None obtain script where "addr \<noteq> []" "decode net addr = Inr script"
            by (auto simp: validatePayout_def split: if_splits sum.splits)
          with r tty l Inr None a perms True show ?thesis
            by (intro asked [of addr w1 script e]) (auto split: option.splits)
        qed
      qed
    qed
  qed
qed

section \<open>Properties\<close>

definition demo_decode :: decoder where
  [go_eval]: "demo_decode net a = (if a = ''Vs1'' \<and> net = MainNet then Inr [0x76, 0xa9] else Inl ''bad checksum'')"

definition no_faults :: append_faults where
  [go_eval]: "no_faults = \<lparr>afOpen = None, afStat = None, afRead = None, afWrite = None\<rparr>"

text \<open>A terminal with an answer waiting, and a configuration file without a final newline.\<close>

definition demo_world :: "string \<Rightarrow> u32 \<Rightarrow> world" where
  [go_eval]: "demo_world answer mode = \<lparr>files = [''c'' \<mapsto> \<lparr>fMode = mode, fBody = ''testnet=0''\<rparr>],
     statFault = (\<lambda>_. None), windows = False, umask = 18, stdin = [Chunk (answer @ [CHR 0x0D, nl])],
     ttyIn = True, ttyOut = True\<rparr>"

definition demo_config :: config where
  [go_eval]: "demo_config = zero_config\<lparr>ConfigFile := ''c''\<rparr>"

lemma demo_resolve:
  "resolvePayout demo_decode MainNet no_faults demo_config (demo_world ''Vs1'' 384) =
    (Inr ''Vs1'', (demo_world ''Vs1'' 384)\<lparr>stdin := [], files := [''c'' \<mapsto>
       \<lparr>fMode = 384, fBody = ''testnet=0'' @ [nl] @ ''miningaddr=Vs1'' @ [nl]\<rparr>]\<rparr>)"
proof -
  have t: "TrimSpace [CHR ''V'', CHR ''s'', CHR ''1'', CHR 0x0D, CHR 0x0A] = ''Vs1''" by code_simp
  show ?thesis
    by (simp add: resolvePayout_def demo_world_def demo_config_def zero_config_def no_faults_def
        checkPerms_def go_stat_def permsWritable_def payoutAddress_def interactive_def promptPayout_def
        promptLine_def nl_def t validatePayout_def demo_decode_def appendSetting_def open_append_def
        body_of_def append_body_def Let_def)
qed





end
