(* ===== verification/Devices.thy ===== *)
theory Devices
  imports Device_Setup Payout Commands
begin

text \<open>
  Choosing the devices (src/devices.go): the question, its answer, and saving it. The theory also
  states what holds of the devices that are then built.
\<close>

datatype choice_error =
    NothingChosen
  | BadList config_error
  | NoSuchDevice int nat
  | ListFailed dev_error
  | UnsafeConfig file_error
  | AskFailed string

primrec check_ids :: "nat \<Rightarrow> int list \<Rightarrow> choice_error option" where
  "check_ids numDevices [] = None"
| "check_ids numDevices (v # vs) =
     (if v < 0 \<or> v \<ge> int numDevices then Some (NoSuchDevice v numDevices) else check_ids numDevices vs)"

definition parseDeviceChoice :: "string \<Rightarrow> nat \<Rightarrow> choice_error + int list" where
  "parseDeviceChoice line numDevices =
    (let line = TrimSpace line
     in if line = [] then Inl NothingChosen
        else (case parseInts ''device'' line of Inl e \<Rightarrow> Inl (BadList e)
          | Inr ids \<Rightarrow> (case check_ids numDevices ids of Some e \<Rightarrow> Inl e | None \<Rightarrow> Inr ids)))"

definition promptDevices :: "string list \<Rightarrow> world \<Rightarrow> (choice_error + int list) \<times> world" where
  "promptDevices names w = (case promptLine w of (Inl e, w) \<Rightarrow> (Inl (AskFailed e), w)
     | (Inr line, w) \<Rightarrow> (parseDeviceChoice line (length names), w))"

text \<open>The boolean: whether it asked.\<close>

definition resolveDevices :: "cl_system \<Rightarrow> config \<Rightarrow> world \<Rightarrow> (choice_error + bool \<times> config) \<times> world" where
  "resolveDevices S cfg w =
    (if DeviceIDs cfg \<noteq> [] then (Inr (False, cfg), w)
     else (case listDevices S of Inl e \<Rightarrow> (Inl (ListFailed e), w)
       | Inr names \<Rightarrow>
         if \<not> interactive w then (Inr (False, cfg), w)
         else if length names < 2 then (Inr (False, cfg), w)
         else (case checkPerms w (ConfigFile cfg) permsWritable of Some e \<Rightarrow> (Inl (UnsafeConfig e), w)
           | None \<Rightarrow> (case promptDevices names w of (Inl e, w) \<Rightarrow> (Inl e, w)
               | (Inr ids, w) \<Rightarrow> (Inr (True, cfg\<lparr>DeviceIDs := ids\<rparr>), w)))))"

definition choice_text :: "device list \<Rightarrow> string" where
  "choice_text devices = concat (map (\<lambda>d. ''; '' @ dName d @ [nl]) devices)
     @ ''devices='' @ Join '','' (map (\<lambda>d. Itoa (int (dIndex d))) devices) @ [nl]"

definition saveDeviceChoice :: "append_faults \<Rightarrow> config \<Rightarrow> device list \<Rightarrow> world \<Rightarrow> string option \<times> world" where
  "saveDeviceChoice af cfg devices w = appendSetting af (ConfigFile cfg) (choice_text devices) w"

section \<open>The answer\<close>

lemma check_ids_None: "check_ids n ids = None \<longleftrightarrow> (\<forall>id \<in> set ids. 0 \<le> id \<and> id < int n)"
  by (induction ids) auto

lemma parseDeviceChoice_Inr:
  "parseDeviceChoice line n = Inr ids \<Longrightarrow> ids \<noteq> [] \<and> (\<forall>id \<in> set ids. 0 \<le> id \<and> id < int n)"
  using parseInts_not_Nil
  by (auto simp: parseDeviceChoice_def Let_def check_ids_None split: if_splits sum.splits option.splits)

section \<open>The saved lines\<close>

lemma file_lines_cons: "nl \<notin> set l \<Longrightarrow> l \<noteq> [] \<Longrightarrow> file_lines (l @ nl # t) = l # file_lines t"
  by (simp add: file_lines_join) (simp add: file_lines_def Split_clean)

lemma choice_lines:
  assumes "\<forall>d \<in> set devices. nl \<notin> set (dName d)"
  shows "file_lines (choice_text devices) = map (\<lambda>d. ''; '' @ dName d) devices
    @ [''devices='' @ Join '','' (map (\<lambda>d. Itoa (int (dIndex d))) devices)]"
proof -
  have join: "nl \<notin> set (Join '','' fs)" if "\<forall>f \<in> set fs. nl \<notin> set f" for fs
    using that by (induction "'',''" fs rule: Join.induct) (auto simp: nl_def)
  have itoa: "nl \<notin> set (Itoa i)" for i
    using Itoa_chars [of nl i] by (auto simp: is_digit_def nl_def byte_of_def)
  have last: "file_lines ((''devices='' @ Join '','' (map (\<lambda>d. Itoa (int (dIndex d))) devices)) @ [nl])
      = [''devices='' @ Join '','' (map (\<lambda>d. Itoa (int (dIndex d))) devices)]"
    using join [of "map (\<lambda>d. Itoa (int (dIndex d))) devices"] itoa
    by (subst file_lines_one) (simp_all add: nl_def)
  have comments: "file_lines (concat (map (\<lambda>d. ''; '' @ dName d @ [nl]) ds) @ t)
      = map (\<lambda>d. ''; '' @ dName d) ds @ file_lines t"
    if "\<forall>d \<in> set ds. nl \<notin> set (dName d)" for ds :: "device list" and t
    using that
  proof (induction ds)
    case (Cons d ds)
    have "file_lines ((''; '' @ dName d) @ nl # concat (map (\<lambda>d. ''; '' @ dName d @ [nl]) ds) @ t)
        = (''; '' @ dName d) # file_lines (concat (map (\<lambda>d. ''; '' @ dName d @ [nl]) ds) @ t)"
      using Cons.prems by (intro file_lines_cons) (auto simp: nl_def)
    then show ?case using Cons by simp
  qed simp
  show ?thesis
    using comments [OF assms, of "(''devices='' @ Join '','' (map (\<lambda>d. Itoa (int (dIndex d))) devices)) @ [nl]"] last
    by (simp add: choice_text_def)
qed

section \<open>Properties\<close>

text \<open>C20: The devices that get built are exactly the chosen ones, in the order the prompt and the
  listing number them: their indices are the chosen indices of the listing, and each has the
  name the listing shows under its index.\<close>
theorem built_devices_are_the_chosen:
  assumes "config_ok cfg" and "newMinerDevs undef cfg S = Inr devs"
  shows "\<exists>names. listDevices S = Inr names
    \<and> map dIndex devs = filter (\<lambda>i. DeviceIDs cfg = [] \<or> int i \<in> set (DeviceIDs cfg)) [0..<length names]
    \<and> (\<forall>d \<in> set devs. dIndex d < length names \<and> dName d = names ! dIndex d)"
  using newMinerDevs_built [OF assms] by (auto simp: chosen_def [abs_def])

text \<open>A system with one platform of two devices.\<close>

definition demo_gpu :: "string \<Rightarrow> cl_device" where
  [go_eval]: "demo_gpu name = \<lparr>cdId = 7, cdHandles = \<lparr>hContext = 1, hQueue = 2, hBuffer = 3, hProgram = 4, hKernel = 5\<rparr>,
     cdName = \<lparr>qProbe = 0, qSize = length name + 1, qRead = 0, qBytes = name\<rparr>,
     cdContext = 0, cdQueue = 0, cdBuffer = 0, cdProgram = 0, cdBuild = 0, cdKernel = 0, cdNow = 1700000000,
     cdLaunches = []\<rparr>"

definition demo_system :: cl_system where
  [go_eval]: "demo_system = \<lparr>syProbe = 0, syCount = 1, syStatus = 0, syPlatforms =
     [\<lparr>plProbe = 0, plCount = 2, plStatus = 0, plDevices = [demo_gpu ''one'', demo_gpu ''two'']\<rparr>]\<rparr>"

lemma demo_NewDevice:
  assumes "WorkSizeInts cfg = w # ws"
  shows "\<exists>d. NewDevice undef cfg i k (demo_gpu name) = Inr d"
  using assms by (simp add: NewDevice_def creation_def creation_calls_def demo_gpu_def Success_def globalWorkSize_def pick_def)

lemma demo_build:
  assumes "WorkSizeInts cfg = w # ws" and "DeviceIDs cfg = []"
  shows "\<exists>d1 d2. newMinerDevs undef cfg demo_system = Inr [d1, d2]"
proof -
  obtain d1 where "NewDevice undef cfg 0 0 (demo_gpu ''one'') = Inr d1" using demo_NewDevice [OF assms(1)] by blast
  moreover obtain d2 where "NewDevice undef cfg 1 1 (demo_gpu ''two'') = Inr d2" using demo_NewDevice [OF assms(1)] by blast
  ultimately show ?thesis
    using assms(2) by (simp add: newMinerDevs_def demo_system_def getCLPlatforms_def getCLDevices_def
        PlatformNotFound_def DeviceNotFound_def Success_def)
qed

definition sized_config :: config where
  [go_eval]: "sized_config = zero_config\<lparr>AutocalibrateInts := [500], WorkSizeInts := [512], DutyCycleInts := [50]\<rparr>"

lemma sized_config_ok: "config_ok sized_config"
  by (simp add: sized_config_def zero_config_def config_ok_def)

theorem built_devices_are_the_chosen_witness:
  "\<exists>devs names. newMinerDevs 0 sized_config demo_system = Inr devs \<and> listDevices demo_system = Inr names
     \<and> map dIndex devs = [0..<length names] \<and> length devs = 2"
proof -
  have c: "WorkSizeInts sized_config = [512]" "DeviceIDs sized_config = []"
    by (simp_all add: sized_config_def zero_config_def)
  obtain d1 d2 where d: "newMinerDevs 0 sized_config demo_system = Inr [d1, d2]"
    using demo_build [OF c] by blast
  from built_devices_are_the_chosen [OF sized_config_ok d] d c show ?thesis by auto
qed



text \<open>C33: Calibration ends after at most 21 launches, whatever time they take.\<close>
theorem calibration_ends:
  assumes "21 \<le> length ts"
  shows "calcWorkSizeForMilliseconds undef ms ts \<noteq> None"
  unfolding calcWorkSizeForMilliseconds_def by (rule calibrate_ends) (use assms in simp_all)

theorem calibration_ends_witness: "calcWorkSizeForMilliseconds 0 500 (replicate 21 (Inr 1)) \<noteq> None"
  by (rule calibration_ends) simp

text \<open>C35: When the devices were asked for, there was a terminal and more than one device, and the
  answer names at least one device, each of them one that exists; otherwise nothing was read and
  the configuration is unchanged.\<close>
theorem asked_devices_exist:
  assumes "resolveDevices S cfg w = (Inr (asked, cfg'), w')"
  shows "if asked then interactive w \<and> DeviceIDs cfg = [] \<and> DeviceIDs cfg' \<noteq> []
      \<and> (\<exists>names. listDevices S = Inr names \<and> 2 \<le> length names
          \<and> (\<forall>id \<in> set (DeviceIDs cfg'). 0 \<le> id \<and> id < int (length names)))
      \<and> files w' = files w
    else cfg' = cfg \<and> w' = w"
proof -
  have "if asked then interactive w \<and> DeviceIDs cfg = []
      \<and> (\<exists>names w1 line. listDevices S = Inr names \<and> 2 \<le> length names \<and> promptLine w = (Inr line, w1) \<and> w' = w1
          \<and> parseDeviceChoice line (length names) = Inr (DeviceIDs cfg'))
    else cfg' = cfg \<and> w' = w"
    using assms by (auto simp: resolveDevices_def promptDevices_def
        split: if_splits sum.splits option.splits prod.splits)
  then show ?thesis using parseDeviceChoice_Inr promptLine_frame by (auto split: if_splits)
qed

theorem asked_devices_exist_witness:
  "\<exists>cfg'. fst (resolveDevices demo_system demo_config (demo_world ''1'' 384)) = Inr (True, cfg')
     \<and> DeviceIDs cfg' = [1]"
proof -
  have names: "listDevices demo_system = Inr [''one'', ''two'']"
    by (simp add: listDevices_def getCLPlatforms_def getCLDevices_def demo_system_def demo_gpu_def
        PlatformNotFound_def DeviceNotFound_def deviceName_def DeviceInfoString_def query_string_def
        TrimNul_def Success_def)
  have trim: "TrimSpace ''1'' = ''1''" by code_simp
  have ints: "parseInts ''device'' ''1'' = Inr [1]"
    using parseInts_Itoa [of "[1]" "''device''"] by (simp add: Itoa_eval in64_def)
  have choice: "parseDeviceChoice ''1'' (Suc (Suc 0)) = Inr [1]"
    by (simp add: parseDeviceChoice_def trim ints)
  have i: "interactive (demo_world ''1'' 384)" "DeviceIDs demo_config = []"
    "checkPerms (demo_world ''1'' 384) (ConfigFile demo_config) permsWritable = None"
    by (simp_all add: interactive_def demo_world_def demo_config_def zero_config_def checkPerms_def go_stat_def
        permsWritable_def)
  have line: "TrimSpace [CHR ''1'', CHR 0x0D, CHR 0x0A] = ''1''" by code_simp
  have "\<exists>w1. promptLine (demo_world ''1'' 384) = (Inr ''1'', w1)"
    by (simp add: promptLine_def demo_world_def nl_def line)
  then obtain w' where p: "promptLine (demo_world ''1'' 384) = (Inr ''1'', w')" by blast
  have r: "resolveDevices demo_system demo_config (demo_world ''1'' 384)
      = (Inr (True, demo_config\<lparr>DeviceIDs := [1]\<rparr>), w')"
    by (simp add: resolveDevices_def i names promptDevices_def p choice)
  from asked_devices_exist [OF r] r show ?thesis by simp
qed

text \<open>C34: Saving the choice appends one comment line per device and one setting whose value the
  configuration parser reads back as the indices of the devices, provided the names the driver
  gives have no line break.\<close>
theorem saved_choice_reads_back:
  assumes "saveDeviceChoice af cfg devices w = (None, w')" and "devices \<noteq> []"
    and "\<forall>d \<in> set devices. nl \<notin> set (dName d) \<and> dIndex d < 2 ^ 63"
  shows "\<exists>v. file_lines (body_of (ConfigFile cfg) w') = file_lines (body_of (ConfigFile cfg) w)
      @ map (\<lambda>d. ''; '' @ dName d) devices @ [''devices='' @ v]
    \<and> parseInts ''device'' v = Inr (map (\<lambda>d. int (dIndex d)) devices)"
proof -
  let ?v = "Join '','' (map Itoa (map (\<lambda>d. int (dIndex d)) devices))"
  have "parseInts ''device'' ?v = Inr (map (\<lambda>d. int (dIndex d)) devices)"
    using assms(2,3) by (intro parseInts_Itoa) (auto simp: in64_def)
  moreover have "file_lines (choice_text devices) = map (\<lambda>d. ''; '' @ dName d) devices @ [''devices='' @ ?v]"
    using choice_lines [of devices] assms(3) by (simp add: comp_def)
  ultimately show ?thesis
    using appendSetting_ok(1) [OF assms(1) [unfolded saveDeviceChoice_def]] by auto
qed

theorem saved_choice_reads_back_witness:
  "\<exists>w' v. saveDeviceChoice no_faults demo_config [fresh_device 1 ''two''] (demo_world [] 384) = (None, w')
     \<and> file_lines (body_of ''c'' w') = [''testnet=0'', ''; two'', ''devices='' @ v]
     \<and> parseInts ''device'' v = Inr [1]"
proof -
  obtain r w' where r: "saveDeviceChoice no_faults demo_config [fresh_device 1 ''two''] (demo_world [] 384) = (r, w')"
    by fastforce
  then have n: "r = None"
    by (auto simp: saveDeviceChoice_def appendSetting_def no_faults_def Let_def)
  have b: "file_lines (body_of ''c'' (demo_world [] 384)) = [''testnet=0'']" by code_simp
  have c: "ConfigFile demo_config = ''c''" by (simp add: demo_config_def zero_config_def)
  have d: "\<forall>d \<in> set [fresh_device 1 ''two'']. nl \<notin> set (dName d) \<and> dIndex d < 2 ^ 63"
    by (simp add: fresh_device_def nl_def)
  from saved_choice_reads_back [OF r [unfolded n] _ d] r n show ?thesis
    by (auto simp: c b fresh_device_def)
qed

lemma calibrate_doubles:
  assumes "1 < target"
  shows "k + n \<le> 30 \<Longrightarrow> calibrate_loop undef target (push_bit k 1) (replicate n (Inr 1) @ ts)
    = calibrate_loop undef target (push_bit (k + n) 1) ts"
proof (induction n arbitrary: k)
  case 0
  then show ?case by simp
next
  case (Suc n)
  have "push_bit k (1 :: u32) < push_bit 30 1"
    unfolding word_less_nat_alt using Suc.prems power_strict_increasing [of k 30 "2 :: nat"]
    by (subst (1 2) unat_push_1) simp_all
  moreover have "push_bit 1 (push_bit k (1 :: u32)) = push_bit (Suc k) 1"
    by (simp only: push_bit_push_bit) simp
  ultimately have "calibrate_loop undef target (push_bit k 1) (replicate (Suc n) (Inr 1) @ ts)
      = calibrate_loop undef target (push_bit (Suc k) 1) (replicate n (Inr 1) @ ts)"
    using assms by (simp only: replicate_Suc append_Cons calibrate_loop.simps sum.case if_True simp_thms)
  with Suc.IH [of "Suc k"] Suc.prems show ?case by simp
qed

text \<open>A calibrated work size can wrap to zero: a device that is still faster than the default target
  at the largest size, and needs 125 ms for it, would ideally get four times that size, which
  does not fit in 32 bits.\<close>
lemma calibration_wraps:
  "calcWorkSizeForMilliseconds undef 500 (replicate 20 (Inr 1) @ [Inr 125000000]) = Some (Inr 0)"
proof -
  have fl: "fl64 500000000 = 500000000" "fl64 125000000 = 125000000" "fl64 4 = 4"
    "fl64 4294967296 = 4294967296" "fl64 16777216 = 16777216"
    using fl64_exact [of 500000000] fl64_exact [of 125000000] fl64_exact [of 4] fl64_exact [of 4294967296]
      fl64_exact [of 16777216] by simp_all
  have size: "unat (push_bit 30 1 :: u32) = 1073741824" by (subst unat_push_1) simp_all
  have "adjustSize undef 500000000 125000000 (push_bit 30 1) = 0"
    unfolding adjustSize_def size by (simp add: to_uint32_def fl_div_def fl)
  moreover have "wrap64 (500 * 1000000) = 500000000" by (simp add: wrap64_def)
  moreover have "calibrate_loop undef 500000000 (push_bit 30 1) [Inr 125000000]
      = Some (Inr (adjustSize undef 500000000 125000000 (push_bit 30 1)))"
    by (simp only: calibrate_loop.simps sum.case less_irrefl simp_thms if_False)
  moreover have "calibrate_loop undef 500000000 (push_bit 10 1) (replicate 20 (Inr 1) @ [Inr 125000000])
      = calibrate_loop undef 500000000 (push_bit (10 + 20) 1) [Inr 125000000]"
    by (rule calibrate_doubles) simp_all
  ultimately show ?thesis by (simp add: calcWorkSizeForMilliseconds_def)
qed

end
