(* ===== verification/Node.thy ===== *)
theory Node
  imports Config Files Go_Path
begin

text \<open>
  The node monvark starts (src/node.go): its configuration file and command line, the steps of
  \<open>nodeStart\<close>, the wait for its RPC server, the wait for the chain, and its shutdown. What the
  system and the RPC client return is an input.
\<close>

section \<open>The configuration file of the node\<close>

definition mondConf :: "string \<Rightarrow> string \<Rightarrow> string \<Rightarrow> string \<Rightarrow> string \<Rightarrow> string" where
  "mondConf rpcUser rpcPass rpcListen rpcCert rpcKey =
     ''; Generated by monvark.  Rewritten on every start; edits are lost.'' @ [nl] @
     ''; The payout address is deliberately not here -- it is passed on the'' @ [nl] @
     ''; node'' @ [CHR 0x27] @ ''s command line, because the node picks at random among its'' @ [nl] @
     ''; configured mining addresses and a second one would take a share.'' @ [nl] @
     ''rpcuser='' @ rpcUser @ [nl] @
     ''rpcpass='' @ rpcPass @ [nl] @
     ''rpclisten='' @ rpcListen @ [nl] @
     ''rpccert='' @ rpcCert @ [nl] @
     ''rpckey='' @ rpcKey @ [nl]"

datatype node_error =
    ReadFileError string
  | ConfPerms file_error
  | PayoutKey string string
  | SystemError string
  | MondMissing string string
  | StartFailed string string
  | NodeExited
  | Cancelled
  | RPCTimeout "string option"
  | ChainState string

text \<open>The loop over the lines.\<close>

primrec check_lines :: "string \<Rightarrow> string list \<Rightarrow> node_error option" where
  "check_lines path [] = None"
| "check_lines path (l # ls) =
    (let l = TrimSpace l
     in if l = [] \<or> prefix '';'' l \<or> prefix ''#'' l then check_lines path ls
        else let key = Cut l CHR ''=''
             in if TrimSpace key = ''miningaddr'' \<or> TrimSpace key = ''generate'' then Some (PayoutKey path key)
                else check_lines path ls)"

text \<open>\<open>rd\<close>: an error of the read other than absence.\<close>

definition checkMondConf :: "string option \<Rightarrow> world \<Rightarrow> string \<Rightarrow> node_error option" where
  "checkMondConf rd w path =
    (case rd of Some e \<Rightarrow> Some (ReadFileError e)
     | None \<Rightarrow> (case files w path of None \<Rightarrow> None
       | Some f \<Rightarrow>
         (case checkPerms w path permsPrivate of Some e \<Rightarrow> Some (ConfPerms e)
          | None \<Rightarrow> check_lines path (Split nl (fBody f)))))"

section \<open>The command line of the node\<close>

definition mainnetBootstrap :: "string list" where
  [go_eval]: "mainnetBootstrap = [''176.113.164.216:9508'', ''62.216.37.206:9508'', ''134.249.62.43:9508'']"

definition mondArgs :: "config \<Rightarrow> string \<Rightarrow> string \<Rightarrow> string \<Rightarrow> bool \<Rightarrow> string list" where
  "mondArgs cfg confPath appData addr p2pBusy =
    [''--configfile='' @ confPath, ''--appdata='' @ appData, ''--miningaddr='' @ addr]
    @ (if p2pBusy then [''--listen=:0''] else [])
    @ (if TestNet cfg then [''--testnet''] else if SimNet cfg then [''--simnet''] else [])
    @ map (\<lambda>p. ''--addpeer='' @ p)
        (if AddPeer cfg = [] \<and> \<not> TestNet cfg \<and> \<not> SimNet cfg then mainnetBootstrap else AddPeer cfg)"

definition mondPath :: "world \<Rightarrow> string \<Rightarrow> string \<Rightarrow> node_error + string" where
  "mondPath w exeDir override =
    (if override \<noteq> [] then
       (case go_stat w override of Stat f \<Rightarrow> Inr override
        | NotExist \<Rightarrow> Inl (SystemError ''not exist'') | StatFault e \<Rightarrow> Inl (SystemError e))
     else let name = (if windows w then ''mond.exe'' else ''mond'');
              path = JoinPath exeDir name
          in (case go_stat w path of Stat f \<Rightarrow> Inr path | _ \<Rightarrow> Inl (MondMissing name exeDir)))"

section \<open>Waiting for the RPC server\<close>

text \<open>One attempt: the time at its start, whether the node has exited, the certificate, the
  client, its first request, and whether the context ends during the pause.\<close>

record attempt =
  atNow :: int
  atExited :: bool
  atCert :: "string option"
  atNew :: "string option"
  atInfo :: "string option"
  atCtx :: bool

datatype connect_result = StillTrying | Connected | ConnectFailed node_error

datatype client_event = ClientOpened | ClientShutdown

text \<open>\<open>lastErr\<close> after an attempt, or \<open>None\<close> when it connected.\<close>

definition connect_attempt :: "attempt \<Rightarrow> string option \<times> client_event list" where
  "connect_attempt a =
    (case atCert a of Some e \<Rightarrow> (Some e, [])
     | None \<Rightarrow> (case atNew a of Some e \<Rightarrow> (Some e, [])
       | None \<Rightarrow> (case atInfo a of None \<Rightarrow> (None, [ClientOpened])
         | Some e \<Rightarrow> (Some e, [ClientOpened, ClientShutdown]))))"

definition connectTimeout :: int where [go_eval]: "connectTimeout = 5 * 60 * 1000000000"

fun connect_loop :: "int \<Rightarrow> string option \<Rightarrow> attempt list \<Rightarrow> connect_result \<times> client_event list" where
  "connect_loop deadline lastErr [] = (StillTrying, [])"
| "connect_loop deadline lastErr (a # as) =
    (if \<not> atNow a < deadline then (ConnectFailed (RPCTimeout lastErr), [])
     else if atExited a then (ConnectFailed NodeExited, [])
     else (case connect_attempt a of
         (None, evs) \<Rightarrow> (Connected, evs)
       | (Some e, evs) \<Rightarrow>
           if atCtx a then (ConnectFailed Cancelled, evs)
           else (case connect_loop deadline (Some e) as of (r, evs') \<Rightarrow> (r, evs @ evs'))))"

definition connect :: "int \<Rightarrow> attempt list \<Rightarrow> connect_result \<times> client_event list" where
  "connect start as = connect_loop (start + connectTimeout) None as"

section \<open>Stopping the node\<close>

datatype node_action = AskStop | CloseClient | Interrupt | Kill | AwaitExit int

record nodeProc =
  npStarted :: bool
  npClient :: bool
  npBin :: string
  npArgs :: "string list"

definition Stop :: "bool \<Rightarrow> nodeProc \<Rightarrow> node_action list" where
  "Stop onWindows n =
    (let (acts, wait) =
       (if npClient n then ([AskStop, CloseClient], 30 * 1000000000)
        else if npStarted n then (if onWindows then [] else [Interrupt], 5 * 1000000000)
        else ([], 30 * 1000000000))
     in if npStarted n then acts @ [AwaitExit wait] else acts)"

section \<open>Addresses that can be bound\<close>

text \<open>\<open>listen\<close>: what \<open>net.Listen\<close> on TCP returns for an address, the bound address or an error. Both functions close
  the listener again, so nothing stays bound.\<close>

definition freeAddr :: "(string \<Rightarrow> string + string) \<Rightarrow> string + string" where
  [go_eval]: "freeAddr listen = (case listen ''127.0.0.1:0'' of Inl e \<Rightarrow> Inl e | Inr a \<Rightarrow> Inr a)"

definition portFree :: "(string \<Rightarrow> string + string) \<Rightarrow> string \<Rightarrow> bool" where
  [go_eval]: "portFree listen hostport = (case listen hostport of Inl e \<Rightarrow> False | Inr a \<Rightarrow> True)"

section \<open>nodeStart\<close>

text \<open>\<open>sePort\<close>: the default P2P port of the network, from the chain parameters.\<close>

record start_env =
  seHome :: string
  seExe :: "string + string"
  seReadConf :: "string option"
  seListen :: "string \<Rightarrow> string + string"
  seUser :: "string + bytes"
  sePass :: "string + bytes"
  seWrite :: "(nat option \<times> string) option"
  sePort :: string
  seStart :: "string option"
  seBegin :: int
  seAttempts :: "attempt list"

text \<open>\<open>os.WriteFile\<close> with mode 0600 keeps the mode of a file that exists. It fails before the file is
  opened, or after it was truncated and so many bytes were written.\<close>

definition write_file :: "string \<Rightarrow> string \<Rightarrow> world \<Rightarrow> world" where
  [go_eval]: "write_file path body w = w\<lparr>files := (files w)(path \<mapsto>
     (case files w path of None \<Rightarrow> \<lparr>fMode = 384 AND NOT (umask w), fBody = body\<rparr>
      | Some f \<Rightarrow> f\<lparr>fBody := body\<rparr>))\<rparr>"

definition confPath :: "start_env \<Rightarrow> string" where
  "confPath E = JoinPath (seHome E) ''mond.conf''"

text \<open>The random bytes, or a failed read.\<close>

definition randomCredential :: "string + bytes \<Rightarrow> string + string" where
  [go_eval]: "randomCredential r = (case r of Inl e \<Rightarrow> Inl e | Inr b \<Rightarrow> Inr (EncodeToString b))"

text \<open>The steps up to and including the write of the configuration file.\<close>

definition node_prepare :: "start_env \<Rightarrow> config \<Rightarrow> world \<Rightarrow> (node_error + string \<times> config) \<times> world" where
  "node_prepare E cfg w =
    (case seExe E of Inl e \<Rightarrow> (Inl (SystemError e), w)
     | Inr exe \<Rightarrow>
       (case mondPath w (Dir exe) (Mond cfg) of Inl e \<Rightarrow> (Inl e, w)
        | Inr bin \<Rightarrow>
          (case checkMondConf (seReadConf E) w (confPath E) of Some e \<Rightarrow> (Inl e, w)
           | None \<Rightarrow>
             (case freeAddr (seListen E) of Inl e \<Rightarrow> (Inl (SystemError e), w)
              | Inr rpcListen \<Rightarrow>
                (case randomCredential (seUser E) of Inl e \<Rightarrow> (Inl (SystemError e), w)
                 | Inr rpcUser \<Rightarrow>
                   (case randomCredential (sePass E) of Inl e \<Rightarrow> (Inl (SystemError e), w)
                    | Inr rpcPass \<Rightarrow>
                      let certPath = JoinPath (seHome E) ''rpc.cert'';
                          keyPath = JoinPath (seHome E) ''rpc.key'';
                          conf = mondConf rpcUser rpcPass rpcListen certPath keyPath
                      in (case seWrite E of Some (None, e) \<Rightarrow> (Inl (SystemError e), w)
                          | Some (Some n, e) \<Rightarrow> (Inl (SystemError e), write_file (confPath E) (take n conf) w)
                          | None \<Rightarrow> (Inr (bin, cfg\<lparr>RPCServer := rpcListen, RPCCert := certPath,
                              RPCUser := rpcUser, RPCPassword := rpcPass\<rparr>),
                              write_file (confPath E) conf w))))))))"

datatype start_result =
    NotStarted node_error
  | NodeStarting nodeProc
  | StartFailedStopped node_error "node_action list"
  | NodeRunning nodeProc

text \<open>The configuration is updated only after the process has started.\<close>

definition nodeStart :: "start_env \<Rightarrow> config \<Rightarrow> string \<Rightarrow> world \<Rightarrow> start_result \<times> config \<times> world" where
  "nodeStart E cfg addr w =
    (case node_prepare E cfg w of (Inl e, w) \<Rightarrow> (NotStarted e, cfg, w)
     | (Inr (bin, cfg'), w) \<Rightarrow>
       let p2pBusy = \<not> portFree (seListen E) (JoinHostPort [] (sePort E));
           args = mondArgs cfg (confPath E) (JoinPath (seHome E) ''node'') addr p2pBusy;
           n = \<lparr>npStarted = True, npClient = False, npBin = bin, npArgs = args\<rparr>
       in (case seStart E of Some e \<Rightarrow> (NotStarted (StartFailed bin e), cfg, w)
           | None \<Rightarrow>
             (case fst (connect (seBegin E) (seAttempts E)) of
                Connected \<Rightarrow> (NodeRunning (n\<lparr>npClient := True\<rparr>), cfg', w)
              | ConnectFailed e \<Rightarrow> (StartFailedStopped e (Stop (windows w) n), cfg', w)
              | StillTrying \<Rightarrow> (NodeStarting n, cfg', w))))"

section \<open>Waiting for the chain\<close>

text \<open>One poll: whether the node has exited, the chain state (whether the initial block download
  is still on), and whether the context ends during the pause.\<close>

record sync_poll =
  spExited :: bool
  spInfo :: "string + bool"
  spCtx :: bool

datatype sync_result = StillSyncing | Synced | SyncFailed node_error

fun WaitSynced :: "sync_poll list \<Rightarrow> sync_result" where
  "WaitSynced [] = StillSyncing"
| "WaitSynced (p # ps) =
    (if spExited p then SyncFailed NodeExited
     else (case spInfo p of Inl e \<Rightarrow> SyncFailed (ChainState e)
       | Inr ibd \<Rightarrow> if \<not> ibd then Synced
           else if spCtx p then SyncFailed Cancelled else WaitSynced ps))"

section \<open>The node is told one address\<close>

lemma prefix_addpeer: "\<not> prefix ''--miningaddr'' (''--addpeer='' @ p)" "\<not> prefix ''--generate'' (''--addpeer='' @ p)"
  by simp_all

lemma mondArgs_miningaddr:
  "filter (prefix ''--miningaddr'') (mondArgs cfg conf app addr busy) = [''--miningaddr='' @ addr]"
  by (simp add: mondArgs_def filter_map comp_def)

lemma mondArgs_generate: "filter (prefix ''--generate'') (mondArgs cfg conf app addr busy) = []"
  by (simp add: mondArgs_def filter_map comp_def)

section \<open>The configuration check\<close>

definition forbidden :: "string \<Rightarrow> bool" where
  "forbidden l \<longleftrightarrow> (let l = TrimSpace l in l \<noteq> [] \<and> \<not> prefix '';'' l \<and> \<not> prefix ''#'' l
     \<and> TrimSpace (Cut l CHR ''='') \<in> {''miningaddr'', ''generate''})"

lemma check_lines_None: "check_lines path ls = None \<longleftrightarrow> (\<forall>l \<in> set ls. \<not> forbidden l)"
  by (induction ls) (auto simp: Let_def forbidden_def)

lemma comment_allowed: "\<not> forbidden (CHR '';'' # l)"
proof -
  have "graphic CHR '';''" by (simp add: graphic_def byte_of_def)
  then obtain t where "TrimSpace (CHR '';'' # l) = CHR '';'' # t" using TrimSpace_hd by blast
  then show ?thesis by (simp add: forbidden_def Let_def)
qed

lemma key_allowed:
  assumes "k \<noteq> []" and "\<forall>c \<in> set k. graphic c \<and> c \<noteq> CHR ''=''" and "hd k \<noteq> CHR '';''" "hd k \<noteq> CHR ''#''"
    and "k \<notin> {''miningaddr'', ''generate''}"
  shows "\<not> forbidden (k @ CHR ''='' # v)"
proof -
  have "graphic CHR ''=''" by (simp add: graphic_def byte_of_def)
  from TrimSpace_key [OF assms(1,2) this]
  obtain v' where t: "TrimSpace (k @ CHR ''='' # v) = k @ CHR ''='' # v'" ..
  have "Cut (k @ CHR ''='' # v') CHR ''='' = k"
    using assms(2) by (auto simp: Cut_def takeWhile_append2)
  moreover have "TrimSpace k = k" using assms(1,2) by (intro TrimSpace_graphic) simp
  ultimately show ?thesis using assms by (simp add: forbidden_def t Let_def)
qed

lemma Split_line: "nl \<notin> set l \<Longrightarrow> Split nl (l @ nl # s) = l # Split nl s"
  by (rule Split_append)

lemma mondConf_lines:
  assumes "nl \<notin> set u" "nl \<notin> set p" "nl \<notin> set a" "nl \<notin> set c" "nl \<notin> set k"
  shows "Split nl (mondConf u p a c k) =
    [''; Generated by monvark.  Rewritten on every start; edits are lost.'',
     ''; The payout address is deliberately not here -- it is passed on the'',
     ''; node'' @ [CHR 0x27] @ ''s command line, because the node picks at random among its'',
     ''; configured mining addresses and a second one would take a share.'',
     ''rpcuser='' @ u, ''rpcpass='' @ p, ''rpclisten='' @ a, ''rpccert='' @ c, ''rpckey='' @ k, []]"
proof -
  have "mondConf u p a c k =
     (''; Generated by monvark.  Rewritten on every start; edits are lost.'') @ nl #
     (''; The payout address is deliberately not here -- it is passed on the'') @ nl #
     (''; node'' @ [CHR 0x27] @ ''s command line, because the node picks at random among its'') @ nl #
     (''; configured mining addresses and a second one would take a share.'') @ nl #
     (''rpcuser='' @ u) @ nl # (''rpcpass='' @ p) @ nl # (''rpclisten='' @ a) @ nl #
     (''rpccert='' @ c) @ nl # (''rpckey='' @ k) @ nl # []"
    by (simp add: mondConf_def)
  moreover have "nl \<notin> set ''; Generated by monvark.  Rewritten on every start; edits are lost.''"
    "nl \<notin> set ''; The payout address is deliberately not here -- it is passed on the''"
    "nl \<notin> set (''; node'' @ [CHR 0x27] @ ''s command line, because the node picks at random among its'')"
    "nl \<notin> set ''; configured mining addresses and a second one would take a share.''"
    "nl \<notin> set (''rpcuser='' @ u)" "nl \<notin> set (''rpcpass='' @ p)" "nl \<notin> set (''rpclisten='' @ a)"
    "nl \<notin> set (''rpccert='' @ c)" "nl \<notin> set (''rpckey='' @ k)"
    using assms by (simp_all add: nl_def)
  ultimately show ?thesis by (simp only: Split_line Split.simps(1) simp_thms)
qed

lemma mondConf_allowed:
  assumes "nl \<notin> set u" "nl \<notin> set p" "nl \<notin> set a" "nl \<notin> set c" "nl \<notin> set k"
  shows "check_lines path (Split nl (mondConf u p a c k)) = None"
proof -
  have "\<not> forbidden (key @ CHR ''='' # v)"
    if "key \<in> {''rpcuser'', ''rpcpass'', ''rpclisten'', ''rpccert'', ''rpckey''}" for key v
    using that by (intro key_allowed) (auto simp: graphic_def byte_of_def)
  note keys = this [of "''rpcuser''"] this [of "''rpcpass''"] this [of "''rpclisten''"]
    this [of "''rpccert''"] this [of "''rpckey''"]
  have "TrimSpace [] = []" by (rule TrimSpace_graphic) simp
  then have "\<not> forbidden []" by (simp add: forbidden_def Let_def)
  with keys show ?thesis
    unfolding check_lines_None mondConf_lines [OF assms] by (simp add: comment_allowed)
qed

lemma check_lines_forbidden:
  "checkMondConf rd w path = None \<Longrightarrow> files w path = Some f \<Longrightarrow>
   (\<forall>l \<in> set (Split nl (fBody f)). \<not> forbidden l) \<and> checkPerms w path permsPrivate = None"
  by (auto simp: checkMondConf_def check_lines_None split: option.splits)

section \<open>The file nodeStart leaves\<close>

lemma checkPerms_mode:
  "checkPerms w path msk = None \<Longrightarrow> files w path = Some f \<Longrightarrow> statFault w path = None \<Longrightarrow>
   \<not> windows w \<Longrightarrow> (fMode f AND 511) AND msk = 0"
  by (auto simp: checkPerms_def go_stat_def Let_def split: if_splits)

lemma fresh_mode: "((384 AND NOT u) AND 511) AND permsPrivate = 0" for u :: u32
proof -
  have "(384 :: u32) AND 63 = 0" by simp
  then show ?thesis
    unfolding permsPrivate_def by (metis (no_types) and.assoc and.commute and.left_commute and_zero_eq)
qed

lemma node_prepare_Inr:
  assumes "node_prepare E cfg w = (Inr (bin, cfg'), w')"
  obtains exe addr u p where "mondPath w (Dir exe) (Mond cfg) = Inr bin"
    "checkMondConf (seReadConf E) w (confPath E) = None"
    "freeAddr (seListen E) = Inr addr" "randomCredential (seUser E) = Inr u" "randomCredential (sePass E) = Inr p"
    "cfg' = cfg\<lparr>RPCServer := addr, RPCCert := JoinPath (seHome E) ''rpc.cert'', RPCUser := u, RPCPassword := p\<rparr>"
    "w' = write_file (confPath E) (mondConf u p addr (JoinPath (seHome E) ''rpc.cert'') (JoinPath (seHome E) ''rpc.key'')) w"
  using assms unfolding node_prepare_def
  by (auto simp: Let_def split: sum.splits option.splits)

section \<open>The wait for the RPC server\<close>

lemma connect_loop_balance:
  "connect_loop dl le as = (r, evs) \<Longrightarrow>
   count_list evs ClientOpened = count_list evs ClientShutdown + (if r = Connected then 1 else 0)"
proof (induction dl le as arbitrary: r evs rule: connect_loop.induct)
  case (2 dl le a as)
  have att: "snd (connect_attempt a) = (if fst (connect_attempt a) = None then [ClientOpened]
      else if atCert a = None \<and> atNew a = None then [ClientOpened, ClientShutdown] else [])"
    by (auto simp: connect_attempt_def split: option.splits)
  obtain o' evs' where ca: "connect_attempt a = (o', evs')" by fastforce
  show ?case
  proof (cases "atNow a < dl \<and> \<not> atExited a \<and> o' \<noteq> None \<and> \<not> atCtx a")
    case True
    then obtain e where e: "o' = Some e" by blast
    obtain r2 evs2 where rest: "connect_loop dl (Some e) as = (r2, evs2)" by fastforce
    have "count_list evs2 ClientOpened = count_list evs2 ClientShutdown + (if r2 = Connected then 1 else 0)"
      using True 2(1) [of o' evs' e r2 evs2] ca e rest by simp
    then show ?thesis using 2(2) True ca e rest att by (auto split: if_splits)
  next
    case False
    then show ?thesis using 2(2) ca att by (auto split: if_splits option.splits)
  qed
qed simp

text \<open>An attempt is followed by a pause of a quarter of a second, so the deadline passes within
  1201 attempts.\<close>

definition paced :: "int \<Rightarrow> attempt list \<Rightarrow> bool" where
  "paced start as \<longleftrightarrow> (\<forall>i < length as. start + int i * 250000000 \<le> atNow (as ! i))"

lemma paced_tl: "paced start (a # as) \<Longrightarrow> paced (start + 250000000) as"
  unfolding paced_def by (force simp: algebra_simps)

lemma connect_loop_ends:
  "paced start as \<Longrightarrow> deadline \<le> start + int n * 250000000 \<Longrightarrow> n < length as \<Longrightarrow>
   fst (connect_loop deadline le as) \<noteq> StillTrying"
proof (induction as arbitrary: start n le)
  case Nil
  then show ?case by simp
next
  case (Cons a as)
  have "start \<le> atNow a" using Cons.prems(1) by (force simp: paced_def)
  show ?case
  proof (cases n)
    case 0
    then have "\<not> atNow a < deadline" using Cons.prems(2) \<open>start \<le> atNow a\<close> by simp
    then show ?thesis by simp
  next
    case (Suc m)
    have "fst (connect_loop deadline le' as) \<noteq> StillTrying" for le'
      using Cons.prems Suc paced_tl
      by (intro Cons.IH [of "start + 250000000" m]) (simp_all add: algebra_simps)
    then show ?thesis by (auto split: prod.splits option.splits) (metis fst_conv)
  qed
qed

text \<open>The command line of the node names one mining address, the one it was given, and never asks
  for CPU mining, whatever the configuration and the peers the user added.\<close>
lemma node_pays_one_address:
  "filter (prefix ''--miningaddr'') (mondArgs cfg conf app addr busy) = [''--miningaddr='' @ addr]
   \<and> filter (prefix ''--generate'') (mondArgs cfg conf app addr busy) = []"
  using mondArgs_miningaddr mondArgs_generate by blast

section \<open>Properties\<close>



text \<open>C36: When \<open>nodeStart\<close> has gone as far as starting the process, the node's configuration file is the
  one it has just written, with the credentials it then hands to the miner, nobody but the
  owner has any access to it (outside Windows), and no other file has changed.\<close>
theorem node_conf_private:
  assumes "nodeStart E cfg addr w = (r, cfg', w')" and "\<And>e. r \<noteq> NotStarted e"
    and "statFault w (confPath E) = None"
  shows "\<exists>f. files w' (confPath E) = Some f
    \<and> fBody f = mondConf (RPCUser cfg') (RPCPassword cfg') (RPCServer cfg') (RPCCert cfg') (JoinPath (seHome E) ''rpc.key'')
    \<and> (\<not> windows w \<longrightarrow> (fMode f AND 511) AND permsPrivate = 0)
    \<and> (\<forall>q. q \<noteq> confPath E \<longrightarrow> files w' q = files w q)"
proof -
  obtain bin where prep: "node_prepare E cfg w = (Inr (bin, cfg'), w')"
    using assms(1,2) unfolding nodeStart_def
    by (auto simp: Let_def split: prod.splits sum.splits option.splits connect_result.splits)
  then show ?thesis
  proof (rule node_prepare_Inr)
    fix exe addr u p
    assume chk: "checkMondConf (seReadConf E) w (confPath E) = None"
      and cfg': "cfg' = cfg\<lparr>RPCServer := addr, RPCCert := JoinPath (seHome E) ''rpc.cert'', RPCUser := u, RPCPassword := p\<rparr>"
      and w': "w' = write_file (confPath E) (mondConf u p addr (JoinPath (seHome E) ''rpc.cert'') (JoinPath (seHome E) ''rpc.key'')) w"
    have "(fMode f AND 511) AND permsPrivate = 0" if "files w (confPath E) = Some f" "\<not> windows w" for f
      using check_lines_forbidden [OF chk that(1)] that assms(3) checkPerms_mode by blast
    then show ?thesis
      using fresh_mode [of "umask w"] by (auto simp: w' cfg' write_file_def split: option.splits)
  qed
qed

definition demo_start :: start_env where
  [go_eval]: "demo_start = \<lparr>seHome = ''/h'', seExe = Inr ''/b/monvark'', seReadConf = None,
     seListen = (\<lambda>a. if a = ''127.0.0.1:0'' then Inr ''127.0.0.1:41287'' else Inr a), seUser = Inr [1, 2], sePass = Inr [3, 4], seWrite = None,
     sePort = ''9508'', seStart = None, seBegin = 0, seAttempts = []\<rparr>"

definition demo_host :: world where
  [go_eval]: "demo_host = \<lparr>files = [''/b/mond'' \<mapsto> \<lparr>fMode = 448, fBody = []\<rparr>], statFault = (\<lambda>_. None),
     windows = False, umask = 18, stdin = [], ttyIn = False, ttyOut = False\<rparr>"

theorem node_conf_private_witness:
  "\<exists>r cfg' w' f. nodeStart demo_start zero_config ''Vs1'' demo_host = (r, cfg', w')
     \<and> files w' ''/h/mond.conf'' = Some f \<and> (fMode f AND 511) AND permsPrivate = 0"
proof -
  have c: "confPath demo_start = ''/h/mond.conf''" by code_simp
  have m: "mondPath demo_host (Dir ''/b/monvark'') [] = Inr ''/b/mond''"
  proof -
    have "JoinPath (Dir ''/b/monvark'') ''mond'' = ''/b/mond''" by code_simp
    then show ?thesis by (simp add: mondPath_def demo_host_def go_stat_def)
  qed
  have m': "mondPath demo_host (Dir ''/b/monvark'') (Mond zero_config) = Inr ''/b/mond''"
    using m by (simp add: zero_config_def)
  obtain r cfg' w' where r: "nodeStart demo_start zero_config ''Vs1'' demo_host = (r, cfg', w')"
    by (metis prod_cases3)
  have ne: "r \<noteq> NotStarted e" for e
    using r m' c by (auto simp: nodeStart_def node_prepare_def checkMondConf_def demo_start_def
        randomCredential_def freeAddr_def connect_def demo_host_def zero_config_def Let_def)
  have "statFault demo_host (confPath demo_start) = None" "\<not> windows demo_host"
    by (simp_all add: demo_host_def)
  with node_conf_private [OF r ne] r c show ?thesis by auto
qed

text \<open>C32: Waiting for the RPC server ends: with the pause of a quarter of a second between attempts
  the outcome is known after at most 1201 of them. Every client that was opened on the way
  has been shut down, except the one that is returned.\<close>
theorem connect_ends:
  assumes "paced start as" and "1200 < length as"
  shows "fst (connect start as) \<noteq> StillTrying
    \<and> count_list (snd (connect start as)) ClientOpened
      = count_list (snd (connect start as)) ClientShutdown + (if fst (connect start as) = Connected then 1 else 0)"
proof -
  have "fst (connect start as) \<noteq> StillTrying"
    unfolding connect_def
    by (rule connect_loop_ends [OF assms(1), of _ 1200]) (simp_all add: connectTimeout_def assms(2))
  then show ?thesis
    using connect_loop_balance [of "start + connectTimeout" None as] unfolding connect_def
    by (metis prod.collapse)
qed

definition refused :: "int \<Rightarrow> attempt" where
  [go_eval]: "refused t = \<lparr>atNow = t, atExited = False, atCert = None, atNew = None, atInfo = Some ''refused'', atCtx = False\<rparr>"

theorem connect_ends_witness:
  "fst (connect 0 (map (\<lambda>i. refused (int i * 300000000)) [0..<1201])) \<noteq> StillTrying"
proof -
  have "paced 0 (map (\<lambda>i. refused (int i * 300000000)) [0..<1201])"
    by (simp add: paced_def refused_def)
  moreover have "1200 < length (map (\<lambda>i. refused (int i * 300000000)) [0..<1201])" by simp
  ultimately show ?thesis using connect_ends by blast
qed

text \<open>C31: Mining is only let through by a node that is running and says that its initial block
  download is over: \<open>WaitSynced\<close> succeeds exactly when some poll says so and until then every poll
  found the node running, answering and still downloading, with the run not cancelled.\<close>
theorem sync_gate:
  "WaitSynced ps = Synced \<longleftrightarrow>
    (\<exists>i < length ps. spInfo (ps ! i) = Inr False \<and> \<not> spExited (ps ! i)
      \<and> (\<forall>j < i. spInfo (ps ! j) = Inr True \<and> \<not> spExited (ps ! j) \<and> \<not> spCtx (ps ! j)))"
proof (induction ps)
  case Nil
  then show ?case by simp
next
  case (Cons p ps)
  show ?case
    by (cases "spInfo p") (auto simp: Cons Ex_less_Suc2 All_less_Suc2)
qed

theorem sync_gate_witness:
  "WaitSynced [\<lparr>spExited = False, spInfo = Inr True, spCtx = False\<rparr>,
     \<lparr>spExited = False, spInfo = Inr False, spCtx = True\<rparr>] = Synced"
  by (subst sync_gate, rule exI [of _ 1]) simp

end
