(* ===== verification/Miner.thy ===== *)
theory Miner
  imports Device_Search Payout
begin

text \<open>
  The miner (src/miner.go): work from the node is prepared and handed to the devices, found headers
  are submitted, the first accepted block is read back and its coinbase compared with the
  payout script, and work that goes stale is polled for. The answers of the RPC client, the clock
  and the choices of a select are inputs; each goroutine's loop is a function of the list
  of its inputs.
\<close>

section \<open>State\<close>

record miner =
  mDevices :: "device list"
  validShares :: u64
  invalidShares :: u64
  fatal :: bool
  mStarted :: u32
  mPayoutAddr :: string
  mPayoutScript :: string
  payeeChecked :: bool
  currentWork :: "work option"
  mCancelled :: bool

text \<open>\<open>mCancelled\<close>: the miner's \<open>cancel\<close> has been called.\<close>

definition new_miner :: "device list \<Rightarrow> miner" where
  "new_miner devices = \<lparr>mDevices = devices, validShares = 0, invalidShares = 0, fatal = False,
     mStarted = 0, mPayoutAddr = [], mPayoutScript = [], payeeChecked = False, currentWork = None,
     mCancelled = False\<rparr>"

section \<open>onSoloWork\<close>

text \<open>\<open>big.Int.SetBytes\<close> reads big endian.\<close>

definition SetBytes :: "bytes \<Rightarrow> nat" where
  "SetBytes bs = foldl (\<lambda>n b. n * 256 + unat b) 0 bs"

definition solo_work :: "int \<Rightarrow> bytes \<Rightarrow> bytes \<Rightarrow> work" where
  "solo_work now data target =
    (let workData = go_copy (replicate 192 0) data
     in \<lparr>wData = workData, wTarget = Some (SetBytes (Reverse target)),
         wJobTime = tail_word workData TimestampWord, wTimeReceived = of_int now\<rparr>)"

text \<open>
  The loop over the devices. It stops at a device whose channel is full while the context is not
  done; the boolean says whether it came to the end. \<open>sel\<close>: what each select takes.
\<close>

fun set_devices :: "select list \<Rightarrow> work \<Rightarrow> device list \<Rightarrow> device list \<times> bool" where
  "set_devices sels w [] = ([], True)"
| "set_devices sels w (d # ds) =
    (let sel = (case sels of [] \<Rightarrow> RecvWork | s # _ \<Rightarrow> s)
     in (case SetWork sel w d of None \<Rightarrow> (d # ds, False)
         | Some d' \<Rightarrow> (case set_devices (tl sels) w ds of (ds', fin) \<Rightarrow> (d' # ds', fin))))"

definition onSoloWork :: "int \<Rightarrow> select list \<Rightarrow> bytes \<Rightarrow> bytes \<Rightarrow> miner \<Rightarrow> miner \<times> bool" where
  "onSoloWork now sels data target m =
    (let w = solo_work now data target
     in (case set_devices sels w (mDevices m) of (ds, fin) \<Rightarrow>
           (m\<lparr>currentWork := Some w, mDevices := ds\<rparr>, fin)))"

section \<open>The payee\<close>

text \<open>What the program reads of a block: its height, and for each transaction the script of each output in hex.\<close>

record block_verbose =
  bvHeight :: int
  bvRawTx :: "string list list"

definition coinbasePays :: "block_verbose \<Rightarrow> string \<Rightarrow> bool" where
  "coinbasePays blk wantScript =
    (if wantScript = [] then False
     else (case bvRawTx blk of [] \<Rightarrow> False | tx # _ \<Rightarrow> list_ex (\<lambda>out. EqualFold out wantScript) tx))"

datatype payee_error = NotPaid bytes string

definition checkPayee :: "bytes \<Rightarrow> string + block_verbose \<Rightarrow> miner \<Rightarrow> payee_error option \<times> miner" where
  "checkPayee hash answer m =
    (if payeeChecked m \<or> mPayoutScript m = [] then (None, m)
     else (case answer of Inl e \<Rightarrow> (None, m)
       | Inr blk \<Rightarrow>
         if \<not> coinbasePays blk (mPayoutScript m) then (Some (NotPaid hash (mPayoutAddr m)), m)
         else (None, m\<lparr>payeeChecked := True\<rparr>)))"

section \<open>workSubmitThread\<close>

text \<open>A header from \<open>workDone\<close>, the answer to its submission, and the answer if the block is read back.\<close>

record found =
  fData :: bytes
  fAnswer :: "string + bool"
  fBlock :: "string + block_verbose"

datatype submit_event = SubmitCtx | SubmitFound found

datatype rpc_call = GetWorkSubmit string | GetBlockVerbose bytes

datatype submit_result = SubmitNext | SubmitReturn | SubmitPanic

text \<open>Slicing \<open>data[:180]\<close> panics on shorter data.\<close>

definition submit_step ::
    "(bytes \<Rightarrow> bytes) \<Rightarrow> submit_event \<Rightarrow> miner \<Rightarrow> submit_result \<times> miner \<times> rpc_call list" where
  "submit_step blake256 ev m =
    (case ev of SubmitCtx \<Rightarrow> (SubmitReturn, m, [])
     | SubmitFound f \<Rightarrow>
       let call = GetWorkSubmit (EncodeToString (fData f))
       in (case fAnswer f of
           Inl e \<Rightarrow> (SubmitNext, m\<lparr>invalidShares := invalidShares m + 1\<rparr>, [call])
         | Inr accepted \<Rightarrow>
           if \<not> accepted then (SubmitNext, m\<lparr>invalidShares := invalidShares m + 1\<rparr>, [call])
           else let m = m\<lparr>validShares := validShares m + 1\<rparr>
                in if length (fData f) < 180 then (SubmitPanic, m, [call])
                   else let hash = blake256 (take 180 (fData f));
                            calls = (if payeeChecked m \<or> mPayoutScript m = [] then [call]
                                     else [call, GetBlockVerbose hash])
                        in (case checkPayee hash (fBlock f) m of
                              (Some e, m) \<Rightarrow> (SubmitReturn, m\<lparr>fatal := True, mCancelled := True\<rparr>, calls)
                            | (None, m) \<Rightarrow> (SubmitNext, m, calls))))"

fun workSubmitThread ::
    "(bytes \<Rightarrow> bytes) \<Rightarrow> submit_event list \<Rightarrow> miner \<Rightarrow> submit_result \<times> miner \<times> rpc_call list" where
  "workSubmitThread blake256 [] m = (SubmitNext, m, [])"
| "workSubmitThread blake256 (ev # evs) m =
    (case submit_step blake256 ev m of (r, m, calls) \<Rightarrow>
       if r = SubmitNext then
         (case workSubmitThread blake256 evs m of (r', m', calls') \<Rightarrow> (r', m', calls @ calls'))
       else (r, m, calls))"

section \<open>expiryThread\<close>

definition workExpiry :: int where [go_eval]: "workExpiry = 15 * 60 * 1000000000"
definition maxFailures :: int where [go_eval]: "maxFailures = 3"

text \<open>\<open>time.Time.Sub\<close> saturates.\<close>

definition sub_time :: "int \<Rightarrow> int \<Rightarrow> int" where
  [go_eval]: "sub_time t u = max (- (2 ^ 63)) (min (2 ^ 63 - 1) (t - u))"

text \<open>\<open>now\<close> in nanoseconds since the epoch.\<close>

definition workStale :: "u32 \<Rightarrow> int \<Rightarrow> int \<Rightarrow> bool" where
  "workStale received now bound =
    (if received = 0 then False else sub_time now (uint received * 1000000000) > bound)"

definition sameTemplate :: "bytes \<Rightarrow> bytes \<Rightarrow> bool" where
  "sameTemplate data current \<longleftrightarrow> length data \<ge> 128 \<and> take 128 data = take 128 current"

text \<open>
  One turn of the loop: whether the first select took the context, the time, the answer of the
  poll (data and target in hex), whether the context is cancelled when an error is looked
  at, the time and the selects when work is published.
\<close>

record expiry_tick =
  exDone :: bool
  exNow :: int
  exPoll :: "string + string \<times> string"
  exCtxErr :: bool
  exSecs :: int
  exSels :: "select list"

datatype expiry_action = ExpiryReturn | ExpiryNext | Publish bytes bytes

text \<open>The turn up to the publication, with the failure count.\<close>

definition expiry_poll :: "expiry_tick \<Rightarrow> int \<Rightarrow> miner \<Rightarrow> expiry_action \<times> int \<times> miner" where
  "expiry_poll t failures m =
    (if exDone t then (ExpiryReturn, failures, m)
     else (case currentWork m of None \<Rightarrow> (ExpiryNext, failures, m)
       | Some current \<Rightarrow>
         if \<not> workStale (wTimeReceived current) (exNow t) workExpiry then (ExpiryNext, failures, m)
         else (case exPoll t of
             Inl e \<Rightarrow>
               if exCtxErr t then (ExpiryReturn, failures, m)
               else let failures = failures + 1
                    in if failures \<ge> maxFailures
                       then (ExpiryNext, failures, m\<lparr>fatal := True, mCancelled := True\<rparr>)
                       else (ExpiryNext, failures, m)
           | Inr (data, target) \<Rightarrow>
               (case DecodeString data of Inl e \<Rightarrow> (ExpiryNext, 0, m)
                | Inr data \<Rightarrow>
                  (case DecodeString target of Inl e \<Rightarrow> (ExpiryNext, 0, m)
                   | Inr target \<Rightarrow> (Publish data target, 0, m))))))"

text \<open>A publication that waits for a device blocks the thread: \<open>ExpiryBlocked\<close>.\<close>

datatype expiry_result = ExpiryRunning | ExpiryReturned | ExpiryBlocked

text \<open>Between two turns the notification handler may have published work.\<close>

datatype expiry_event = Tick expiry_tick | Pushed int "select list" bytes bytes

fun expiryThread :: "expiry_event list \<Rightarrow> int \<Rightarrow> miner \<Rightarrow> expiry_result \<times> int \<times> miner" where
  "expiryThread [] failures m = (ExpiryRunning, failures, m)"
| "expiryThread (Pushed now sels data target # evs) failures m =
    expiryThread evs failures (fst (onSoloWork now sels data target m))"
| "expiryThread (Tick t # evs) failures m =
    (case expiry_poll t failures m of
       (ExpiryReturn, failures, m) \<Rightarrow> (ExpiryReturned, failures, m)
     | (ExpiryNext, failures, m) \<Rightarrow> expiryThread evs failures m
     | (Publish data target, failures, m) \<Rightarrow>
         (case onSoloWork (exSecs t) (exSels t) data target m of (m, fin) \<Rightarrow>
            if fin then expiryThread evs failures m else (ExpiryBlocked, failures, m)))"

section \<open>nodeWatchThread and the result of Run\<close>

text \<open>The select takes the context or the exit of the node.\<close>

definition nodeWatchThread :: "bool \<Rightarrow> miner \<Rightarrow> miner" where
  "nodeWatchThread exited m = (if exited then m\<lparr>fatal := True, mCancelled := True\<rparr> else m)"

text \<open>Whether \<open>Run\<close> returns an error once its goroutines are done.\<close>

definition run_error :: "miner \<Rightarrow> bool" where
  "run_error m \<longleftrightarrow> fatal m"

definition Status :: "miner \<Rightarrow> u64 \<times> u64 \<times> u64" where
  "Status m = (validShares m, invalidShares m, validShares m + invalidShares m)"

section \<open>NewMiner\<close>

datatype rpc_event = RpcOpened | RpcShutdown

datatype miner_error =
    CertError string string
  | RpcError string
  | BadPayout string
  | NoInitialWork string
  | BadWorkData hex_error
  | BadWorkTarget hex_error

text \<open>What reading the certificate, opening the client, its first three calls and the clock return.\<close>

record miner_env =
  meCert :: "string option"
  meNew :: "string option"
  meNotifyWork :: "string option"
  meNotifyBlocks :: "string option"
  meStarted :: int
  meGetWork :: "string + string \<times> string"
  meSels :: "select list"

definition newSoloMiner :: "miner_env \<Rightarrow> config \<Rightarrow> device list \<Rightarrow> (miner_error + miner) \<times> rpc_event list" where
  "newSoloMiner E cfg devices =
    (case meCert E of Some e \<Rightarrow> (Inl (CertError (RPCCert cfg) e), [])
     | None \<Rightarrow> (case meNew E of Some e \<Rightarrow> (Inl (RpcError e), [])
       | None \<Rightarrow> (case meNotifyWork E of Some e \<Rightarrow> (Inl (RpcError e), [RpcOpened, RpcShutdown])
         | None \<Rightarrow> (case meNotifyBlocks E of Some e \<Rightarrow> (Inl (RpcError e), [RpcOpened, RpcShutdown])
           | None \<Rightarrow> (Inr (new_miner devices), [RpcOpened])))))"

text \<open>\<open>NewBlocked\<close>: the initial work waits for a device that has no room.\<close>

datatype new_result = NewFailed miner_error | NewBlocked miner | NewReady miner

definition NewMiner :: "decoder \<Rightarrow> network \<Rightarrow> miner_env \<Rightarrow> config \<Rightarrow> device list \<Rightarrow> string \<Rightarrow>
    new_result \<times> rpc_event list" where
  "NewMiner decode net E cfg devices payoutAddr =
    (case (if Benchmark cfg then (Inr (new_miner devices), []) else newSoloMiner E cfg devices) of
       (Inl e, evs) \<Rightarrow> (NewFailed e, evs)
     | (Inr m, evs) \<Rightarrow>
       (case (if payoutAddr \<noteq> [] then map_sum BadPayout (\<lambda>script.
                 m\<lparr>mPayoutAddr := payoutAddr, mPayoutScript := EncodeToString script\<rparr>) (decode net payoutAddr)
              else Inr m) of
          Inl e \<Rightarrow> (NewFailed e, evs)
        | Inr m \<Rightarrow>
          let m = m\<lparr>mStarted := of_int (meStarted E)\<rparr>
          in if Benchmark cfg then (NewReady m, evs)
             else (case meGetWork E of Inl e \<Rightarrow> (NewFailed (NoInitialWork e), evs @ [RpcShutdown])
               | Inr (data, target) \<Rightarrow>
                 (case DecodeString data of Inl e \<Rightarrow> (NewFailed (BadWorkData e), evs @ [RpcShutdown])
                  | Inr data \<Rightarrow>
                    (case DecodeString target of Inl e \<Rightarrow> (NewFailed (BadWorkTarget e), evs @ [RpcShutdown])
                     | Inr target \<Rightarrow>
                       (case onSoloWork (meStarted E) (meSels E) data target m of (m, fin) \<Rightarrow>
                          (if fin then NewReady m else NewBlocked m, evs)))))))"

section \<open>The target\<close>

lemma foldl_bytes: "foldl (\<lambda>n b. n * 256 + unat b) n (rev bs) = le_nat bs + 256 ^ length bs * n"
  by (induction bs arbitrary: n) (simp_all add: algebra_simps)

lemma SetBytes_Reverse: "SetBytes (Reverse target) = le_nat target"
  by (simp add: SetBytes_def Reverse_rev foldl_bytes)

lemma solo_work:
  "work_ok (solo_work now data target)" "wTarget (solo_work now data target) = Some (le_nat target)"
  "length data = 192 \<Longrightarrow> wData (solo_work now data target) = data"
  by (simp_all add: solo_work_def Let_def work_ok_def SetBytes_Reverse go_copy_full)

section \<open>Handing work out\<close>

definition has_room :: "device \<Rightarrow> bool" where
  "has_room d \<longleftrightarrow> length (chan_buf (newWork d)) < chan_cap (newWork d)"

definition queue_work :: "work \<Rightarrow> device \<Rightarrow> device" where
  "queue_work w d = d\<lparr>newWork := (newWork d)\<lparr>chan_buf := chan_buf (newWork d) @ [w]\<rparr>\<rparr>"

lemma SetWork_room: "SetWork RecvWork w d = (if has_room d then Some (queue_work w d) else None)"
  by (simp add: SetWork_def chan_send_def has_room_def queue_work_def)

text \<open>Without cancellation: the devices before the first full one get the work.\<close>

lemma set_devices_room:
  "set_devices [] w ds = (map (queue_work w) (takeWhile has_room ds) @ dropWhile has_room ds, list_all has_room ds)"
  by (induction ds) (simp_all add: SetWork_room split: prod.split)

lemma set_devices_all:
  "list_all P ds \<Longrightarrow> (\<And>sel d d'. P d \<Longrightarrow> SetWork sel w d = Some d' \<Longrightarrow> P d') \<Longrightarrow>
   list_all P (fst (set_devices sels w ds))"
  by (induction sels w ds rule: set_devices.induct) (auto simp: Let_def split: option.splits prod.splits)

lemma set_devices_cancelled:
  "list_all (\<lambda>s. s = CtxDone) sels \<Longrightarrow> length sels = length ds \<Longrightarrow> set_devices sels w ds = (ds, True)"
proof (induction ds arbitrary: sels)
  case (Cons d ds)
  then show ?case by (cases sels) (auto simp: SetWork_def)
qed simp

lemma length_set_devices [simp]: "length (fst (set_devices sels w ds)) = length ds"
  by (induction sels w ds rule: set_devices.induct) (auto simp: Let_def split: option.splits prod.splits)

lemma onSoloWork_frame:
  assumes "onSoloWork now sels data target m = (m', fin)"
  shows "m' = m\<lparr>currentWork := Some (solo_work now data target), mDevices := mDevices m'\<rparr>"
    and "mDevices m' = fst (set_devices sels (solo_work now data target) (mDevices m))"
  using assms by (auto simp: onSoloWork_def Let_def split: prod.splits)

lemma onSoloWork_ok:
  assumes "onSoloWork now sels data target m = (m', fin)" and "list_all device_ok (mDevices m)"
  shows "list_all device_ok (mDevices m')"
  unfolding onSoloWork_frame(2) [OF assms(1)]
  using assms(2) device_ok_SetWork [OF _ solo_work(1)] by (intro set_devices_all) blast+

section \<open>The submit thread\<close>

text \<open>The verdict the run hangs on: accepted blocks that can be read back.\<close>

definition verifiable :: "found \<Rightarrow> bool" where
  "verifiable f \<longleftrightarrow> fAnswer f = Inr True \<and> (\<exists>blk. fBlock f = Inr blk)"

definition pays :: "string \<Rightarrow> found \<Rightarrow> bool" where
  "pays script f \<longleftrightarrow> (case fBlock f of Inr blk \<Rightarrow> coinbasePays blk script | Inl e \<Rightarrow> False)"

text \<open>The headers up to and including the one that ends the thread.\<close>

definition handled :: "miner \<Rightarrow> found list \<Rightarrow> found list" where
  "handled m fs = (if payeeChecked m \<or> mPayoutScript m = [] then fs
     else (case find verifiable fs of None \<Rightarrow> fs
       | Some f \<Rightarrow> if pays (mPayoutScript m) f then fs else takeWhile (\<lambda>g. \<not> verifiable g) fs @ [f]))"

definition submitted :: "rpc_call list \<Rightarrow> string list" where
  "submitted calls = concat (map (\<lambda>c. case c of GetWorkSubmit s \<Rightarrow> [s] | _ \<Rightarrow> []) calls)"

lemma submitted_simps [simp]: "submitted [] = []" "submitted (GetWorkSubmit s # cs) = s # submitted cs"
  "submitted (GetBlockVerbose h # cs) = submitted cs" "submitted (cs @ ds) = submitted cs @ submitted ds"
  by (simp_all add: submitted_def)

definition accepted :: "found \<Rightarrow> bool" where
  "accepted f \<longleftrightarrow> fAnswer f = Inr True"

text \<open>One header.\<close>

lemma submit_step_cases:
  assumes "submit_step blake256 (SubmitFound f) m = (r, m', calls)" and "180 \<le> length (fData f)"
  shows "submitted calls = [EncodeToString (fData f)]"
    and "validShares m' = validShares m + (if accepted f then 1 else 0)"
    and "invalidShares m' = invalidShares m + (if accepted f then 0 else 1)"
    and "mPayoutScript m' = mPayoutScript m" and "mDevices m' = mDevices m" and "currentWork m' = currentWork m"
    and "if payeeChecked m \<or> mPayoutScript m = [] \<or> \<not> verifiable f
      then r = SubmitNext \<and> payeeChecked m' = payeeChecked m \<and> fatal m' = fatal m \<and> mCancelled m' = mCancelled m
      else if pays (mPayoutScript m) f
        then r = SubmitNext \<and> payeeChecked m' \<and> fatal m' = fatal m \<and> mCancelled m' = mCancelled m
        else r = SubmitReturn \<and> \<not> payeeChecked m' \<and> fatal m' \<and> mCancelled m'"
  using assms
  by (auto simp: submit_step_def Let_def checkPayee_def verifiable_def pays_def accepted_def
      split: sum.splits if_splits)

lemma handled_Cons:
  "handled m (f # fs) = (if payeeChecked m \<or> mPayoutScript m = [] \<or> (verifiable f \<and> pays (mPayoutScript m) f) then f # fs
     else if verifiable f then [f] else f # handled m fs)"
  by (auto simp: handled_def split: option.split)

lemma handled_checked: "payeeChecked m \<or> mPayoutScript m = [] \<Longrightarrow> handled m fs = fs"
  by (auto simp: handled_def)

lemma handled_cong: "payeeChecked m' = payeeChecked m \<Longrightarrow> mPayoutScript m' = mPayoutScript m \<Longrightarrow> handled m' = handled m"
  by (rule ext) (simp add: handled_def split: option.split)

definition convicted :: "miner \<Rightarrow> found list \<Rightarrow> bool" where
  "convicted m fs \<longleftrightarrow> \<not> payeeChecked m \<and> mPayoutScript m \<noteq> []
     \<and> (case find verifiable fs of None \<Rightarrow> False | Some f \<Rightarrow> \<not> pays (mPayoutScript m) f)"

lemma convicted_Cons:
  "convicted m (f # fs) \<longleftrightarrow> \<not> payeeChecked m \<and> mPayoutScript m \<noteq> []
     \<and> (if verifiable f then \<not> pays (mPayoutScript m) f else convicted m fs)"
  by (auto simp: convicted_def)

lemma convicted_checked: "payeeChecked m \<or> mPayoutScript m = [] \<Longrightarrow> \<not> convicted m fs"
  by (auto simp: convicted_def)

lemma convicted_cong:
  "payeeChecked m' = payeeChecked m \<Longrightarrow> mPayoutScript m' = mPayoutScript m \<Longrightarrow> convicted m' = convicted m"
  by (rule ext) (simp add: convicted_def split: option.split)

lemma submit_thread:
  "workSubmitThread blake256 (map SubmitFound fs) m = (r, m', calls) \<Longrightarrow>
   list_all (\<lambda>f. 180 \<le> length (fData f)) fs \<Longrightarrow>
   submitted calls = map (\<lambda>f. EncodeToString (fData f)) (handled m fs)
   \<and> validShares m' = validShares m + of_nat (length (filter accepted (handled m fs)))
   \<and> invalidShares m' = invalidShares m + of_nat (length (filter (\<lambda>f. \<not> accepted f) (handled m fs)))
   \<and> (if convicted m fs then r = SubmitReturn \<and> fatal m' \<and> mCancelled m'
      else r = SubmitNext \<and> fatal m' = fatal m \<and> mCancelled m' = mCancelled m)
   \<and> mDevices m' = mDevices m \<and> currentWork m' = currentWork m"
proof (induction fs arbitrary: m r m' calls)
  case Nil
  then show ?case by (simp add: handled_def convicted_def)
next
  case (Cons f fs)
  obtain r1 m1 c1 where s: "submit_step blake256 (SubmitFound f) m = (r1, m1, c1)" by (metis prod_cases3)
  have len: "180 \<le> length (fData f)" "list_all (\<lambda>f. 180 \<le> length (fData f)) fs" using Cons.prems(2) by simp_all
  note st = submit_step_cases [OF s len(1)]
  show ?case
  proof (cases "r1 = SubmitNext")
    case False
    then have v: "\<not> payeeChecked m" "mPayoutScript m \<noteq> []" "verifiable f" "\<not> pays (mPayoutScript m) f"
      and e: "r = r1" "m' = m1" "calls = c1"
      using st(7) Cons.prems(1) s by (auto split: if_splits)
    then show ?thesis using st by (auto simp: handled_Cons convicted_Cons)
  next
    case True
    obtain r2 m2 c2 where rest: "workSubmitThread blake256 (map SubmitFound fs) m1 = (r2, m2, c2)" by (metis prod_cases3)
    then have e: "r = r2" "m' = m2" "calls = c1 @ c2" using Cons.prems(1) s True by simp_all
    note IH = Cons.IH [OF rest len(2)]
    have h: "handled m (f # fs) = f # handled m1 fs" and c: "convicted m (f # fs) = convicted m1 fs"
      using st(4,7) True handled_checked [of m1 fs] handled_cong [of m1 m] convicted_cong [of m1 m]
      by (auto simp: handled_Cons convicted_Cons handled_checked convicted_checked split: if_splits)
    show ?thesis
      using IH st unfolding e h c by (auto simp: True split: if_splits)
  qed
qed

end
