(* ===== verification/Monitor.thy ===== *)
theory Monitor
  imports Go_Float Miner
begin

text \<open>
  What the program reports: the hash rate of a device (\<open>Status\<close> in src/device.go) and its formatting
  (\<open>FormatHashRate\<close> in src/util/util.go), the status page (src/monitor.go), the statistics that are logged
  (\<open>printStatsThread\<close> in src/miner.go, \<open>PrintStats\<close> in src/device.go) and the version (src/version.go). Floating point numbers are those of \<open>Go_Float\<close>; the JSON encoding and the HTTP server
  are left out.
\<close>

section \<open>Hash rates\<close>

definition DeviceHashRate :: "int \<Rightarrow> device \<Rightarrow> rat" where
  "DeviceHashRate now d =
    (let secondsElapsed = (of_int now :: u32) - dStarted d
     in if secondsElapsed = 0 then 0
        else fl64 (fl64 (4294967295 * fl64 (of_nat (unat (allDiffOneShares d)))) / of_nat (unat secondsElapsed)))"

text \<open>\<open>%.0f\<close> and \<open>%.2f\<close> of a number that is not negative.\<close>

definition fixed0 :: "rat \<Rightarrow> string" where
  "fixed0 x = Itoa (round_even x)"

definition fixed2 :: "rat \<Rightarrow> string" where
  "fixed2 x = (let n = round_even (100 * x); r = n mod 100
     in Itoa (n div 100) @ ''.'' @ (if r < 10 then ''0'' @ Itoa r else Itoa r))"

function unit_loop :: "rat \<Rightarrow> rat \<Rightarrow> nat \<Rightarrow> rat \<times> nat" where
  "unit_loop n dv ex = (if n \<ge> 1000 \<and> ex < 6 then unit_loop (fl64 (n / 1000)) (fl64 (dv * 1000)) (ex + 1) else (dv, ex))"
  by pat_completeness auto
termination by (relation "measure (\<lambda>(n, dv, ex). 6 - ex)") auto

declare unit_loop.simps [simp del]

definition unit_prefixes :: string where
  "unit_prefixes = ''kMGTPEZ''"

definition FormatHashRate :: "rat \<Rightarrow> string" where
  "FormatHashRate h =
    (if h < 1000 then fixed0 h @ '' h/s''
     else (case unit_loop (fl64 (h / 1000)) 1000 0 of (dv, ex) \<Rightarrow>
       fixed2 (fl64 (h / dv)) @ '' '' @ [unit_prefixes ! ex] @ ''h/s''))"

section \<open>The status page\<close>

record device_status =
  dsIndex :: nat
  dsName :: string
  dsHashRate :: rat
  dsFormatted :: string
  dsStarted :: u32

record miner_status =
  msValid :: u64
  msInvalid :: u64
  msTotal :: u64
  msStarted :: u32
  msUptime :: u32
  msPayout :: string
  msDevices :: "device_status list"

text \<open>\<open>clocks\<close>: the clock when each device is asked.\<close>

definition device_report :: "int \<Rightarrow> device \<Rightarrow> device_status" where
  "device_report now d = \<lparr>dsIndex = dIndex d, dsName = dName d, dsHashRate = DeviceHashRate now d,
     dsFormatted = FormatHashRate (DeviceHashRate now d), dsStarted = dStarted d\<rparr>"

definition getMinerStatus :: "config \<Rightarrow> int \<Rightarrow> (nat \<Rightarrow> int) \<Rightarrow> miner \<Rightarrow> miner_status" where
  "getMinerStatus cfg now clocks m =
    (let ms = \<lparr>msValid = 0, msInvalid = 0, msTotal = 0, msStarted = mStarted m,
           msUptime = of_int now - mStarted m, msPayout = [], msDevices = []\<rparr>;
         ms = (if Benchmark cfg then ms
               else (case Status m of (valid, invalid, totals) \<Rightarrow>
                 ms\<lparr>msValid := valid, msInvalid := invalid, msTotal := totals, msPayout := mPayoutAddr m\<rparr>))
     in ms\<lparr>msDevices := map (\<lambda>i. device_report (clocks i) (mDevices m ! i)) [0..<length (mDevices m)]\<rparr>)"

section \<open>The statistics that are logged\<close>

definition PrintStats :: "int \<Rightarrow> device \<Rightarrow> string" where
  "PrintStats now d = ''DEV #'' @ Itoa (int (dIndex d)) @ '' ('' @ dName d @ '') '' @ FormatHashRate (DeviceHashRate now d)"

text \<open>One round of \<open>printStatsThread\<close>: the miner as it is then, the clock when each device is asked,
  and whether the select that follows takes the context.\<close>

record stats_round =
  srMiner :: miner
  srClocks :: "nat \<Rightarrow> int"
  srDone :: bool

definition stats_lines :: "bool \<Rightarrow> stats_round \<Rightarrow> string list" where
  "stats_lines bench r =
    (if bench then []
     else (case Status (srMiner r) of (valid, rejected, totals) \<Rightarrow>
       [''Global stats: Accepted: '' @ Itoa (uint valid) @ '', Rejected: '' @ Itoa (uint rejected)
          @ '', Total: '' @ Itoa (uint totals) @ '', Paying: '' @ mPayoutAddr (srMiner r)]))
    @ map (\<lambda>i. PrintStats (srClocks r i) (mDevices (srMiner r) ! i)) [0..<length (mDevices (srMiner r))]"

fun printStatsThread :: "bool \<Rightarrow> stats_round list \<Rightarrow> string list" where
  "printStatsThread bench [] = []"
| "printStatsThread bench (r # rs) = stats_lines bench r @ (if srDone r then [] else printStatsThread bench rs)"

text \<open>Every round before the context is taken, and that round itself, is printed in full.\<close>

lemma printStatsThread_rounds:
  "printStatsThread bench rs = concat (map (stats_lines bench) (takeWhile (Not \<circ> srDone) rs @ take 1 (dropWhile (Not \<circ> srDone) rs)))"
  by (induction rs) auto

section \<open>The version\<close>

text \<open>The build settings, when the binary has them.\<close>

definition vcs_setting :: "string \<times> string \<Rightarrow> string \<times> string \<Rightarrow> string \<times> string" where
  "vcs_setting st s = (case st of (vcs, revision) \<Rightarrow>
     if fst s = ''vcs'' then (snd s, revision) else if fst s = ''vcs.revision'' then (vcs, snd s) else (vcs, revision))"

definition vcsCommitID :: "(string \<times> string) list option \<Rightarrow> string" where
  "vcsCommitID bi =
    (case bi of None \<Rightarrow> []
     | Some settings \<Rightarrow> (case foldl vcs_setting ([], []) settings of (vcs, revision) \<Rightarrow>
         if vcs = [] then []
         else if vcs = ''git'' \<and> length revision > 9 then take 9 revision
         else revision))"

definition full_version :: "string \<Rightarrow> (string \<times> string) list option \<Rightarrow> string" where
  "full_version version bi =
    (let commit = vcsCommitID bi
     in if commit \<noteq> [] \<and> CHR ''+'' \<notin> set version then version @ ''+'' @ commit else version)"

section \<open>Facts\<close>

text \<open>Seven prefixes: the index is always in range.\<close>

lemma unit_loop_range: "ex \<le> 6 \<Longrightarrow> snd (unit_loop n dv ex) < length unit_prefixes"
proof (induction n dv ex rule: unit_loop.induct)
  case (1 n dv ex)
  then show ?case by (subst unit_loop.simps) (simp add: unit_prefixes_def)
qed

lemma FormatHashRate_unit:
  assumes "1000 \<le> h"
  shows "\<exists>s c. FormatHashRate h = s @ '' '' @ [c] @ ''h/s'' \<and> c \<in> set unit_prefixes"
proof -
  obtain dv ex where u: "unit_loop (fl64 (h / 1000)) 1000 0 = (dv, ex)" by (metis surj_pair)
  then have "ex < length unit_prefixes" using unit_loop_range [of 0 "fl64 (h / 1000)" 1000] by simp
  then have "unit_prefixes ! ex \<in> set unit_prefixes" by (rule nth_mem)
  moreover have "FormatHashRate h = fixed2 (fl64 (h / dv)) @ '' '' @ [unit_prefixes ! ex] @ ''h/s''"
    using assms by (simp add: FormatHashRate_def u)
  ultimately show ?thesis by blast
qed

text \<open>A clock that does not run back gives the uptime in seconds, for 136 years.\<close>

lemma status_uptime:
  assumes "mStarted m = of_int start" and "0 \<le> now - start" and "now - start < 2 ^ 32"
  shows "int (unat (msUptime (getMinerStatus cfg now clocks m))) = now - start"
proof -
  have "msUptime (getMinerStatus cfg now clocks m) = of_int (now - start)"
    by (simp add: getMinerStatus_def Let_def assms(1) Status_def)
  then have "uint (msUptime (getMinerStatus cfg now clocks m)) = now - start"
    using assms(2,3) by (simp add: unsigned_of_int take_bit_int_eq_self del: of_int_diff)
  then show ?thesis by simp
qed

lemma status_devices:
  "map dsIndex (msDevices (getMinerStatus cfg now clocks m)) = map dIndex (mDevices m)"
  by (intro nth_equalityI) (simp_all add: getMinerStatus_def Let_def device_report_def)

lemma full_version_once: "full_version (full_version version bi) bi = full_version version bi"
  by (simp add: full_version_def Let_def)

text \<open>The unit is chosen before rounding: just below a thousand of one unit a thousand is shown.\<close>

lemma rounded_up_to_the_next_unit: "FormatHashRate (1999 / 2) = ''1000 h/s''"
proof -
  have "\<lfloor>(1999 / 2 :: rat)\<rfloor> = 999" by (simp add: floor_eq_iff)
  then have "round_even (1999 / 2) = 1000" by (simp add: round_even_def)
  moreover have "Itoa 1000 = ''1000''" by (simp add: Itoa_eval)
  ultimately show ?thesis by (simp add: FormatHashRate_def fixed0_def)
qed

end
