(* ===== verification/Miner_Properties.thy ===== *)
theory Miner_Properties
  imports Miner Device_Demo
begin

text \<open>
  The properties of the miner: what work reaches the devices, what is submitted and counted, when
  a run is ended because the coinbase pays somebody else or the node serves no work, and
  that no RPC client is left open when the miner cannot be built.
\<close>

section \<open>Stale work\<close>

definition failing :: "miner \<Rightarrow> expiry_tick \<Rightarrow> bool" where
  "failing m t \<longleftrightarrow> \<not> exDone t \<and> (\<exists>w. currentWork m = Some w \<and> workStale (wTimeReceived w) (exNow t) workExpiry)
     \<and> (\<exists>e. exPoll t = Inl e) \<and> \<not> exCtxErr t"

lemma failing_poll:
  assumes "failing m t"
  shows "expiry_poll t n m = (ExpiryNext, n + 1,
    if n + 1 \<ge> maxFailures then m\<lparr>fatal := True, mCancelled := True\<rparr> else m)"
  using assms by (auto simp: failing_def expiry_poll_def)

lemma failing_flags [simp]: "failing (m\<lparr>fatal := b, mCancelled := c\<rparr>) = failing m"
  by (simp add: failing_def fun_eq_iff)

lemma failing_ticks:
  "list_all (failing m) ts \<Longrightarrow> expiryThread (map Tick ts) n m = (ExpiryRunning, n + int (length ts),
     if ts \<noteq> [] \<and> n + int (length ts) \<ge> maxFailures then m\<lparr>fatal := True, mCancelled := True\<rparr> else m)"
proof (induction ts arbitrary: n m)
  case (Cons t ts)
  have f: "failing m t" and r: "list_all (failing m) ts" using Cons.prems by simp_all
  have r': "list_all (failing (m\<lparr>fatal := True, mCancelled := True\<rparr>)) ts" using r by simp
  show ?case
    using Cons.IH [OF r, of "n + 1"] Cons.IH [OF r', of "n + 1"] by (simp add: failing_poll [OF f] maxFailures_def)
qed simp

section \<open>The verdict\<close>

lemma payee_verdict_hex:
  "coinbasePays blk (EncodeToString script) \<longleftrightarrow> script \<noteq> []
    \<and> (\<exists>tx txs out. bvRawTx blk = tx # txs \<and> out \<in> set tx \<and> DecodeString out = Inr script)"
proof -
  have "EncodeToString script = [] \<longleftrightarrow> script = []" by (cases script) simp_all
  then show ?thesis
    by (cases "bvRawTx blk") (auto simp: coinbasePays_def list_ex_iff EqualFold_hex)
qed

lemma find_takeWhile:
  "find P xs = Some x \<Longrightarrow> takeWhile (\<lambda>y. \<not> P y) xs @ [x] = take (Suc (length (takeWhile (\<lambda>y. \<not> P y) xs))) xs"
  by (induction xs) (auto split: if_splits)

section \<open>Properties\<close>

text \<open>C23: The verdict on a block is exactly that its coinbase has an output whose script is, decoded
  from hex, the payout script, and that script is not empty; the case of the hex digits
  does not matter.\<close>
theorem payee_verdict:
  "coinbasePays blk (EncodeToString script) \<longleftrightarrow> script \<noteq> []
    \<and> (\<exists>tx txs out. bvRawTx blk = tx # txs \<and> out \<in> set tx \<and> DecodeString out = Inr script)"
  by (rule payee_verdict_hex)

text \<open>C15: The submit thread submits the headers it receives in their order, each once and as hex that
  decodes to the header, up to the one that ends it; every submission is counted, as valid when the
  node accepted it and as invalid otherwise. It never panics on headers as long as the
  devices send them.\<close>
theorem submissions_counted:
  assumes "workSubmitThread blake256 (map SubmitFound fs) m = (r, m', calls)"
    and "list_all (\<lambda>f. length (fData f) = 192) fs"
  shows "\<exists>k. map DecodeString (submitted calls) = map (\<lambda>f. Inr (fData f)) (take k fs)
    \<and> validShares m' = validShares m + of_nat (length (filter accepted (take k fs)))
    \<and> invalidShares m' = invalidShares m + of_nat (length (filter (\<lambda>f. \<not> accepted f) (take k fs)))
    \<and> r \<noteq> SubmitPanic \<and> (r = SubmitNext \<longrightarrow> k = length fs)"
proof -
  have "list_all (\<lambda>f. 180 \<le> length (fData f)) fs" using assms(2) by (simp add: list_all_iff)
  note st = submit_thread [OF assms(1) this]
  have "\<exists>k. handled m fs = take k fs \<and> (\<not> convicted m fs \<longrightarrow> k = length fs)"
  proof (cases "convicted m fs")
    case False
    then have "handled m fs = fs"
      by (auto simp: handled_def convicted_def split: option.splits)
    then show ?thesis by (intro exI [of _ "length fs"]) simp
  next
    case True
    then obtain f where f: "find verifiable fs = Some f" "handled m fs = takeWhile (\<lambda>g. \<not> verifiable g) fs @ [f]"
      by (auto simp: handled_def convicted_def split: option.splits)
    with True find_takeWhile [OF f(1)] show ?thesis by metis
  qed
  then obtain k where k: "handled m fs = take k fs" "\<not> convicted m fs \<longrightarrow> k = length fs" by blast
  show ?thesis
    using st unfolding k(1) by (intro exI [of _ k]) (auto simp: comp_def DecodeString_Encode k(2) split: if_splits)
qed

text \<open>An accepted header whose block pays another script.\<close>

definition stolen :: found where
  "stolen = \<lparr>fData = replicate 192 0, fAnswer = Inr True, fBlock = Inr \<lparr>bvHeight = 7, bvRawTx = [[''51'', ''AbcD'']]\<rparr>\<rparr>"

definition rejected :: found where
  "rejected = \<lparr>fData = replicate 192 1, fAnswer = Inr False, fBlock = Inl ''none''\<rparr>"

definition paid_miner :: "bytes \<Rightarrow> miner" where
  "paid_miner script = (new_miner [])\<lparr>mPayoutAddr := ''Vs1'', mPayoutScript := EncodeToString script\<rparr>"

theorem submissions_counted_witness:
  "\<exists>r m' calls. workSubmitThread id (map SubmitFound [rejected, stolen, stolen]) (paid_miner [0xab, 0xcd]) = (r, m', calls)
     \<and> r \<noteq> SubmitPanic \<and> (\<exists>k. map DecodeString (submitted calls) = map (\<lambda>f. Inr (fData f)) (take k [rejected, stolen, stolen]))"
proof -
  obtain r m' calls where run: "workSubmitThread id (map SubmitFound [rejected, stolen, stolen]) (paid_miner [0xab, 0xcd])
      = (r, m', calls)" by (metis prod_cases3)
  have "list_all (\<lambda>f. length (fData f) = 192) [rejected, stolen, stolen]" by (simp add: rejected_def stolen_def)
  from submissions_counted [OF run this] run show ?thesis by blast
qed



text \<open>C22: Work from the node is handed out whole and in order: with room in every channel each device
  finds the same item at the end of its queue, whose target is the value of the target bytes read
  little endian and whose 192 bytes are those received; the invariant of every device is kept.\<close>
theorem work_is_handed_out:
  assumes "onSoloWork now [] data target m = (m', fin)" and "list_all device_ok (mDevices m)"
    and "length data = 192" and "list_all has_room (mDevices m)"
  shows "fin \<and> (\<exists>w. currentWork m' = Some w \<and> wData w = data \<and> wTarget w = Some (le_nat target)
      \<and> work_ok w \<and> wJobTime w = get_le32 data 136
      \<and> map (\<lambda>d. chan_buf (newWork d)) (mDevices m') = map (\<lambda>d. chan_buf (newWork d) @ [w]) (mDevices m))
    \<and> list_all device_ok (mDevices m')"
proof -
  let ?w = "solo_work now data target"
  have tw: "takeWhile has_room (mDevices m) = mDevices m" "dropWhile has_room (mDevices m) = []"
    using assms(4) by (simp_all add: list_all_iff)
  have "mDevices m' = map (queue_work ?w) (mDevices m) \<and> fin"
    using assms(1,4) by (auto simp: onSoloWork_def Let_def set_devices_room tw)
  moreover have "wJobTime ?w = get_le32 data 136"
    using assms(3) by (simp add: solo_work_def Let_def go_copy_full tail_word_def)
  moreover have "currentWork m' = Some ?w" by (subst onSoloWork_frame(1) [OF assms(1)]) simp
  ultimately show ?thesis
    using onSoloWork_ok [OF assms(1,2)] solo_work(1) [of now data target] solo_work(2) [of now data target]
      solo_work(3) [OF assms(3), of now target]
    by (auto simp: queue_work_def)
qed

definition demo_miner :: miner where
  "demo_miner = new_miner [small_device, idle_device 1]"

lemma demo_miner_ok: "list_all device_ok (mDevices demo_miner)" "list_all has_room (mDevices demo_miner)"
  by (simp_all add: demo_miner_def new_miner_def has_room_def idle_device_def small_device_def fresh_device_def
      make_chan_def device_ok_def queue_ok_def chan_ok_def)

theorem work_is_handed_out_witness:
  "\<exists>m' w. onSoloWork 1700000000 [] (replicate 192 3) [1, 2] demo_miner = (m', True)
     \<and> wTarget w = Some 513 \<and> map (\<lambda>d. chan_buf (newWork d)) (mDevices m') = [[w], [w]]"
proof -
  obtain m' fin where r: "onSoloWork 1700000000 [] (replicate 192 3) [1, 2] demo_miner = (m', fin)" by fastforce
  have "map (\<lambda>d. chan_buf (newWork d) @ [w]) (mDevices demo_miner) = [[w], [w]]" for w
    by (simp add: demo_miner_def new_miner_def idle_device_def small_device_def fresh_device_def make_chan_def)
  with work_is_handed_out [OF r demo_miner_ok(1) _ demo_miner_ok(2)] r show ?thesis by auto
qed

text \<open>C39: A device that has stopped reading its channel keeps work from the devices after it: while the
  run is not cancelled, publishing stops at the first device whose channel is full, and no device
  from there on gets the work.\<close>
theorem full_device_starves_the_rest:
  assumes "onSoloWork now [] data target m = (m', fin)" and "k < length (mDevices m)"
    and "\<not> has_room (mDevices m ! k)"
  shows "\<not> fin \<and> drop k (mDevices m') = drop k (mDevices m)"
proof -
  let ?ds = "mDevices m" and ?w = "solo_work now data target"
  have k: "length (takeWhile has_room ?ds) \<le> k" using assms(2,3) by (metis nth_length_takeWhile length_takeWhile_le
        linorder_not_less nth_mem set_takeWhileD takeWhile_nth)
  have "\<not> list_all has_room ?ds" using assms(2,3) by (auto simp: list_all_length)
  moreover have "mDevices m' = map (queue_work ?w) (takeWhile has_room ?ds) @ dropWhile has_room ?ds \<and> fin = list_all has_room ?ds"
    using assms(1) by (auto simp: onSoloWork_def Let_def set_devices_room)
  moreover have "drop k ?ds = drop (k - length (takeWhile has_room ?ds)) (dropWhile has_room ?ds)"
    using k by (metis drop_append drop_all append_Nil takeWhile_dropWhile_id)
  ultimately show ?thesis using k by simp
qed

theorem full_device_starves_the_rest_witness:
  "\<exists>m'. onSoloWork 1700000000 [] (replicate 192 3) [1] (demo_miner\<lparr>mDevices :=
      [small_device\<lparr>newWork := \<lparr>chan_cap = 5, chan_buf = replicate 5 zero_work\<rparr>\<rparr>, idle_device 1]\<rparr>) = (m', False)
     \<and> drop 1 (mDevices m') = [idle_device 1]"
proof -
  let ?m = "demo_miner\<lparr>mDevices := [small_device\<lparr>newWork := \<lparr>chan_cap = 5, chan_buf = replicate 5 zero_work\<rparr>\<rparr>, idle_device 1]\<rparr>"
  obtain m' fin where r: "onSoloWork 1700000000 [] (replicate 192 3) [1] ?m = (m', fin)" by fastforce
  have f: "\<not> has_room (mDevices ?m ! 0)" by (simp add: has_room_def)
  have "length (mDevices m') = length (mDevices ?m)" unfolding onSoloWork_frame(2) [OF r] by (rule length_set_devices)
  then have "length (mDevices m') = 2" by simp
  then show ?thesis using full_device_starves_the_rest [OF r _ f] r by (cases "mDevices m'") auto
qed

text \<open>C28: A node that serves no work ends the run: of consecutive polls of stale work that fail while the
  run is not cancelled, the third sets the error and cancels the run; one or two do not, and no
  poll touches a device.\<close>
theorem dead_node_ends_run:
  assumes "list_all (failing m) ts" and "\<not> fatal m" and "\<not> mCancelled m"
    and "expiryThread (map Tick ts) 0 m = (r, n, m')"
  shows "r = ExpiryRunning \<and> (run_error m' \<longleftrightarrow> 3 \<le> length ts) \<and> (mCancelled m' \<longleftrightarrow> 3 \<le> length ts)
    \<and> mDevices m' = mDevices m"
  using failing_ticks [OF assms(1), of 0] assms(2-4)
  by (cases "ts = []") (auto simp: run_error_def maxFailures_def)

definition stale_miner :: miner where
  "stale_miner = demo_miner\<lparr>currentWork := Some (zero_work\<lparr>wTimeReceived := 1700000000\<rparr>)\<rparr>"

definition dead_tick :: expiry_tick where
  "dead_tick = \<lparr>exDone = False, exNow = 1700000901000000000, exPoll = Inl ''timeout'', exCtxErr = False, exSecs = 0, exSels = []\<rparr>"

lemma dead_tick_fails: "failing stale_miner dead_tick"
  by (simp add: failing_def dead_tick_def stale_miner_def workStale_def sub_time_def workExpiry_def)

theorem dead_node_ends_run_witness:
  "\<exists>m' m''. expiryThread (map Tick (replicate 2 dead_tick)) 0 stale_miner = (ExpiryRunning, 2, m') \<and> \<not> run_error m'
     \<and> expiryThread (map Tick (replicate 3 dead_tick)) 0 stale_miner = (ExpiryRunning, 3, m'') \<and> run_error m''"
proof -
  have f: "list_all (failing stale_miner) (replicate k dead_tick)" for k
    using dead_tick_fails by (simp add: list_all_iff)
  have z: "\<not> fatal stale_miner" "\<not> mCancelled stale_miner"
    by (simp_all add: stale_miner_def demo_miner_def new_miner_def)
  obtain r2 n2 m' where 2: "expiryThread (map Tick (replicate 2 dead_tick)) 0 stale_miner = (r2, n2, m')" by (metis prod_cases3)
  obtain r3 n3 m'' where 3: "expiryThread (map Tick (replicate 3 dead_tick)) 0 stale_miner = (r3, n3, m'')" by (metis prod_cases3)
  have "n2 = 2" "n3 = 3" using failing_ticks [OF f, of 2 0] failing_ticks [OF f, of 3 0] 2 3 by simp_all
  with dead_node_ends_run [OF f z 2] dead_node_ends_run [OF f z 3] 2 3 show ?thesis by auto
qed

text \<open>The failures that end a run need not be consecutive failures to serve work: the count is kept
  while pushed work arrives, so that a third failed poll ends the run however long ago the first
  two were and however much work the node has pushed in between.\<close>
lemma failures_survive_pushed_work:
  assumes "list_all (failing m) [t1, t2]" and "m1 = fst (onSoloWork now sels data target m)" and "failing m1 t3"
  shows "\<exists>m'. expiryThread [Tick t1, Tick t2, Pushed now sels data target, Tick t3] 0 m = (ExpiryRunning, 3, m') \<and> run_error m'"
proof -
  have p: "expiry_poll t1 0 m = (ExpiryNext, 1, m)" "expiry_poll t2 1 m = (ExpiryNext, 2, m)"
    using assms(1) failing_poll [of m t1 0] failing_poll [of m t2 1] by (simp_all add: maxFailures_def)
  have "expiry_poll t3 2 m1 = (ExpiryNext, 3, m1\<lparr>fatal := True, mCancelled := True\<rparr>)"
    using failing_poll [OF assms(3), of 2] by (simp add: maxFailures_def)
  then show ?thesis using p by (simp add: assms(2) [symmetric] run_error_def)
qed

lemma failures_survive_pushed_work_witness:
  "\<exists>m'. expiryThread [Tick dead_tick, Tick dead_tick, Pushed 1800000000 [] (replicate 192 3) [1],
       Tick (dead_tick\<lparr>exNow := 1800000901000000000\<rparr>)] 0 stale_miner = (ExpiryRunning, 3, m') \<and> run_error m'"
proof (rule failures_survive_pushed_work [OF _ refl])
  show "list_all (failing stale_miner) [dead_tick, dead_tick]" using dead_tick_fails by simp
  obtain m1 fin where r: "onSoloWork 1800000000 [] (replicate 192 3) [1] stale_miner = (m1, fin)" by fastforce
  have "currentWork m1 = Some (solo_work 1800000000 (replicate 192 3) [1])" by (subst onSoloWork_frame(1) [OF r]) simp
  then show "failing (fst (onSoloWork 1800000000 [] (replicate 192 3) [1] stale_miner)) (dead_tick\<lparr>exNow := 1800000901000000000\<rparr>)"
    by (simp add: r failing_def dead_tick_def workStale_def solo_work_def Let_def sub_time_def workExpiry_def)
qed

text \<open>Staleness is exact for every time the clock can show until the year 2262: work received in
  second \<open>received\<close> is stale when more than the bound has passed since, and work that was never
  received never is.\<close>
lemma work_stale_exact:
  assumes "0 \<le> now" and "now < 2 ^ 63"
  shows "workStale received now bound \<longleftrightarrow> received \<noteq> 0 \<and> bound < now - uint received * 1000000000"
proof -
  define u where "u = uint received"
  have "0 \<le> u" "u < 4294967296" using uint_lt2p [of received] by (simp_all add: u_def)
  then have "- (2 ^ 63) \<le> now - u * 1000000000" "now - u * 1000000000 \<le> 2 ^ 63 - 1"
    using assms by simp_all
  then have "sub_time now (u * 1000000000) = now - u * 1000000000"
    by (simp only: sub_time_def min_absorb2 max_absorb2)
  then show ?thesis by (simp add: workStale_def u_def)
qed

lemma work_stale_example: "workStale 1700000000 1700000900000000001 workExpiry"
  using work_stale_exact [of 1700000900000000001 1700000000 workExpiry] by (simp add: workExpiry_def)



end
