(* ===== verification/Pipeline.thy ===== *)
theory Pipeline
  imports Miner
begin

text \<open>
  The goroutines of a run together (\<open>Run\<close> in src/miner.go): every device, the submit thread, the expiry
  thread, the notification handler and the node watch, interleaved at the places where they
  communicate: the channel \<open>workDone\<close> of capacity 10, the channels of the devices and the
  context. A device's iteration is one step that leaves its candidates to be sent one by one.
  In benchmark mode there is no expiry thread and no node: \<open>Run\<close> itself hands out one empty work item.
  The goroutine that prints statistics changes nothing until it returns (what it prints is in \<open>Monitor\<close>).
\<close>

section \<open>State\<close>

datatype dev_status = Unstarted | Looping | Sending "bytes list" bool | Over

text \<open>
  \<open>rPush\<close>: what the notification handler, or \<open>Run\<close> in a benchmark, (place 0) and the expiry thread
  (place 1) are handing out, and the device each is at. The last four fields are histories: the works published, the headers
  that entered \<open>workDone\<close>, those the submit thread took, whether the run was cancelled from outside.
\<close>

record run_state =
  rMiner :: miner
  rStatus :: "dev_status list"
  rWorkDone :: "bytes chan"
  rSubmit :: bool
  rExpiry :: bool
  rNodeWatch :: bool
  rStats :: bool
  rFailures :: int
  rPush :: "(work \<times> nat) option list"
  rCrashed :: bool
  rWorks :: "work list"
  rSent :: "bytes list"
  rTaken :: "bytes list"
  rInterrupted :: bool

definition run_start :: "mining_env \<Rightarrow> miner \<Rightarrow> run_state" where
  "run_start E m = \<lparr>rMiner = m, rStatus = replicate (length (mDevices m)) Unstarted, rWorkDone = make_chan 10,
     rSubmit = True, rExpiry = (\<not> benchmark E), rNodeWatch = (\<not> benchmark E), rStats = True, rFailures = 0,
     rPush = [if benchmark E then Some (zero_work, 0) else None, None], rCrashed = False,
     rWorks = (if benchmark E then [zero_work] else (case currentWork m of None \<Rightarrow> [] | Some w \<Rightarrow> [w])),
     rSent = [], rTaken = [], rInterrupted = False\<rparr>"

definition put_device :: "nat \<Rightarrow> device \<Rightarrow> run_state \<Rightarrow> run_state" where
  "put_device i d s = s\<lparr>rMiner := (rMiner s)\<lparr>mDevices := (mDevices (rMiner s))[i := d]\<rparr>\<rparr>"

definition put_status :: "nat \<Rightarrow> dev_status \<Rightarrow> run_state \<Rightarrow> run_state" where
  "put_status i x s = s\<lparr>rStatus := (rStatus s)[i := x]\<rparr>"

definition publish :: "nat \<Rightarrow> work \<Rightarrow> run_state \<Rightarrow> run_state" where
  "publish j w s = s\<lparr>rMiner := (rMiner s)\<lparr>currentWork := Some w\<rparr>, rPush := (rPush s)[j := Some (w, 0)],
     rWorks := w # rWorks s\<rparr>"

text \<open>
  An iteration takes place when it looks at the context, which it then sees as it is; the other
  selects see the context done only when it is.
\<close>

definition iter_sees :: "run_state \<Rightarrow> iter_env \<Rightarrow> bool" where
  "iter_sees s e \<longleftrightarrow> iter_wf e \<and> itArrivals e = [] \<and> (itDone e \<longleftrightarrow> mCancelled (rMiner s))
     \<and> (itIdleDone e \<longrightarrow> mCancelled (rMiner s))"

inductive run_step :: "mining_env \<Rightarrow> u8 \<Rightarrow> u8 \<Rightarrow> (bytes \<Rightarrow> bytes) \<Rightarrow> run_state \<Rightarrow> run_state \<Rightarrow> bool"
  for E off1 off2 blake256 where
  nonces: "i < length (rStatus s) \<Longrightarrow> rStatus s ! i = Unstarted \<Longrightarrow>
    initNonces off1 rnd (mDevices (rMiner s) ! i) = Inr d \<Longrightarrow>
    run_step E off1 off2 blake256 s (put_status i Looping (put_device i d s))"
| no_nonces: "i < length (rStatus s) \<Longrightarrow> rStatus s ! i = Unstarted \<Longrightarrow>
    initNonces off1 rnd (mDevices (rMiner s) ! i) = Inl err \<Longrightarrow>
    run_step E off1 off2 blake256 s (put_status i (Sending [] True) s)"
| iterate: "i < length (rStatus s) \<Longrightarrow> rStatus s ! i = Looping \<Longrightarrow> iter_sees s e \<Longrightarrow>
    run_iteration E off2 e (mDevices (rMiner s) ! i) = IterNext d sent \<Longrightarrow>
    run_step E off1 off2 blake256 s (put_status i (Sending sent False) (put_device i d s))"
| return: "i < length (rStatus s) \<Longrightarrow> rStatus s ! i = Looping \<Longrightarrow> iter_sees s e \<Longrightarrow>
    run_iteration E off2 e (mDevices (rMiner s) ! i) = IterReturn err d sent \<Longrightarrow>
    run_step E off1 off2 blake256 s (put_status i (Sending sent True) (put_device i d s))"
| panic: "i < length (rStatus s) \<Longrightarrow> rStatus s ! i = Looping \<Longrightarrow> iter_sees s e \<Longrightarrow>
    run_iteration E off2 e (mDevices (rMiner s) ! i) = IterPanic p \<Longrightarrow>
    run_step E off1 off2 blake256 s (s\<lparr>rCrashed := True\<rparr>)"
| send: "i < length (rStatus s) \<Longrightarrow> rStatus s ! i = Sending (b # bs) fin \<Longrightarrow>
    chan_send (rWorkDone s) b = Some ch \<Longrightarrow>
    run_step E off1 off2 blake256 s (put_status i (Sending bs fin) (s\<lparr>rWorkDone := ch, rSent := rSent s @ [b]\<rparr>))"
| sent: "i < length (rStatus s) \<Longrightarrow> rStatus s ! i = Sending [] fin \<Longrightarrow>
    run_step E off1 off2 blake256 s (put_status i (if fin then Over else Looping) s)"
| submit: "rSubmit s \<Longrightarrow> chan_recv (rWorkDone s) = Some (fData f, ch) \<Longrightarrow>
    submit_step blake256 (SubmitFound f) (rMiner s) = (r, m, calls) \<Longrightarrow>
    run_step E off1 off2 blake256 s (s\<lparr>rWorkDone := ch, rMiner := m, rSubmit := (r = SubmitNext),
      rCrashed := rCrashed s \<or> r = SubmitPanic, rTaken := rTaken s @ [fData f]\<rparr>)"
| submit_ctx: "rSubmit s \<Longrightarrow> mCancelled (rMiner s) \<Longrightarrow>
    run_step E off1 off2 blake256 s (s\<lparr>rSubmit := False\<rparr>)"
| notify: "\<not> benchmark E \<Longrightarrow> rPush s ! 0 = None \<Longrightarrow>
    run_step E off1 off2 blake256 s (publish 0 (solo_work now data target) s)"
| expiry: "rExpiry s \<Longrightarrow> rPush s ! 1 = None \<Longrightarrow> exDone t \<or> exCtxErr t \<longrightarrow> mCancelled (rMiner s) \<Longrightarrow>
    expiry_poll t (rFailures s) (rMiner s) = (act, n, m) \<Longrightarrow>
    s1 = s\<lparr>rMiner := m, rFailures := n, rExpiry := (act \<noteq> ExpiryReturn)\<rparr> \<Longrightarrow>
    run_step E off1 off2 blake256 s
      (case act of Publish data target \<Rightarrow> publish 1 (solo_work (exSecs t) data target) s1 | _ \<Rightarrow> s1)"
| deliver: "j < length (rPush s) \<Longrightarrow> rPush s ! j = Some (w, k) \<Longrightarrow> k < length (mDevices (rMiner s)) \<Longrightarrow>
    sel = CtxDone \<longrightarrow> mCancelled (rMiner s) \<Longrightarrow> SetWork sel w (mDevices (rMiner s) ! k) = Some d \<Longrightarrow>
    run_step E off1 off2 blake256 s ((put_device k d s)\<lparr>rPush := (rPush s)[j := Some (w, k + 1)]\<rparr>)"
| delivered: "j < length (rPush s) \<Longrightarrow> rPush s ! j = Some (w, k) \<Longrightarrow> length (mDevices (rMiner s)) \<le> k \<Longrightarrow>
    run_step E off1 off2 blake256 s (s\<lparr>rPush := (rPush s)[j := None]\<rparr>)"
| node_gone: "rNodeWatch s \<Longrightarrow>
    run_step E off1 off2 blake256 s (s\<lparr>rMiner := nodeWatchThread True (rMiner s), rNodeWatch := False\<rparr>)"
| node_ctx: "rNodeWatch s \<Longrightarrow> mCancelled (rMiner s) \<Longrightarrow>
    run_step E off1 off2 blake256 s (s\<lparr>rMiner := nodeWatchThread False (rMiner s), rNodeWatch := False\<rparr>)"
| stats: "rStats s \<Longrightarrow> mCancelled (rMiner s) \<Longrightarrow> benchmark E \<longrightarrow> rPush s ! 0 = None \<Longrightarrow>
    run_step E off1 off2 blake256 s (s\<lparr>rStats := False\<rparr>)"
| interrupt: "run_step E off1 off2 blake256 s (s\<lparr>rMiner := (rMiner s)\<lparr>mCancelled := True\<rparr>, rInterrupted := True\<rparr>)"

inductive run_reach :: "mining_env \<Rightarrow> u8 \<Rightarrow> u8 \<Rightarrow> (bytes \<Rightarrow> bytes) \<Rightarrow> run_state \<Rightarrow> run_state \<Rightarrow> bool"
  for E off1 off2 blake256 s where
  here: "run_reach E off1 off2 blake256 s s"
| step: "run_reach E off1 off2 blake256 s t \<Longrightarrow> run_step E off1 off2 blake256 t u \<Longrightarrow>
    run_reach E off1 off2 blake256 s u"

text \<open>\<open>Run\<close> returns: its goroutines are done, and in a benchmark it has handed out the work.\<close>

definition finished :: "mining_env \<Rightarrow> run_state \<Rightarrow> bool" where
  "finished E s \<longleftrightarrow> (\<forall>x \<in> set (rStatus s). x = Over) \<and> \<not> rSubmit s \<and> \<not> rExpiry s \<and> \<not> rNodeWatch s \<and> \<not> rStats s
     \<and> (benchmark E \<longrightarrow> rPush s ! 0 = None)"

lemma run_reach_trans:
  "run_reach E off1 off2 blake256 t u \<Longrightarrow> run_reach E off1 off2 blake256 s t \<Longrightarrow> run_reach E off1 off2 blake256 s u"
  by (induction rule: run_reach.induct) (auto intro: run_reach.step)

section \<open>The invariant\<close>

definition works_of :: "run_state \<Rightarrow> (bytes \<times> nat option) set" where
  "works_of s = template ` set (rWorks s)"

definition pending :: "dev_status \<Rightarrow> bytes list" where
  "pending x = (case x of Sending bs fin \<Rightarrow> bs | _ \<Rightarrow> [])"

lemma pending_simps [simp]: "pending (Sending bs fin) = bs" "pending Looping = []" "pending Over = []" "pending Unstarted = []"
  by (simp_all add: pending_def)

definition pipe_ok :: "mining_env \<Rightarrow> run_state \<Rightarrow> bool" where
  "pipe_ok E s \<longleftrightarrow> length (rStatus s) = length (mDevices (rMiner s)) \<and> length (rPush s) = 2
     \<and> (\<forall>d \<in> set (mDevices (rMiner s)). device_ok d \<and> held d \<subseteq> works_of s)
     \<and> (\<forall>i < length (rStatus s). rStatus s ! i = Unstarted \<longrightarrow> \<not> hasWork (mDevices (rMiner s) ! i))
     \<and> (\<forall>w \<in> set (rWorks s). work_ok w \<and> (wTarget w = None \<longleftrightarrow> benchmark E))
     \<and> (benchmark E \<longrightarrow> \<not> rExpiry s)
     \<and> (\<forall>w k. Some (w, k) \<in> set (rPush s) \<longrightarrow> w \<in> set (rWorks s))
     \<and> chan_ok (rWorkDone s) \<and> chan_cap (rWorkDone s) = 10
     \<and> rSent s = rTaken s @ chan_buf (rWorkDone s)
     \<and> all_prove E (works_of s) (rSent s)
     \<and> (\<forall>x \<in> set (rStatus s). all_prove E (works_of s) (pending x))
     \<and> validShares (rMiner s) + invalidShares (rMiner s) = of_nat (length (rTaken s))
     \<and> \<not> rCrashed s"

lemma put_simps [simp]:
  "rMiner (put_device i d s) = (rMiner s)\<lparr>mDevices := (mDevices (rMiner s))[i := d]\<rparr>"
  "rStatus (put_device i d s) = rStatus s" "rWorkDone (put_device i d s) = rWorkDone s"
  "rPush (put_device i d s) = rPush s" "rWorks (put_device i d s) = rWorks s" "rSent (put_device i d s) = rSent s"
  "rTaken (put_device i d s) = rTaken s" "rCrashed (put_device i d s) = rCrashed s" "rSubmit (put_device i d s) = rSubmit s"
  "rExpiry (put_device i d s) = rExpiry s" "rNodeWatch (put_device i d s) = rNodeWatch s" "rStats (put_device i d s) = rStats s"
  "rInterrupted (put_device i d s) = rInterrupted s" "rInterrupted (put_status i x s) = rInterrupted s"
  "rFailures (put_device i d s) = rFailures s"
  "rMiner (put_status i x s) = rMiner s"
  "rStatus (put_status i x s) = (rStatus s)[i := x]" "rWorkDone (put_status i x s) = rWorkDone s"
  "rPush (put_status i x s) = rPush s" "rWorks (put_status i x s) = rWorks s" "rSent (put_status i x s) = rSent s"
  "rTaken (put_status i x s) = rTaken s" "rCrashed (put_status i x s) = rCrashed s" "rSubmit (put_status i x s) = rSubmit s"
  "rExpiry (put_status i x s) = rExpiry s" "rNodeWatch (put_status i x s) = rNodeWatch s" "rStats (put_status i x s) = rStats s"
  "rFailures (put_status i x s) = rFailures s"
  by (simp_all add: put_device_def put_status_def)

lemma works_simps [simp]: "works_of (put_device i d s) = works_of s" "works_of (put_status i x s) = works_of s"
  "works_of (s\<lparr>rMiner := m\<rparr>) = works_of s" "works_of (s\<lparr>rPush := p\<rparr>) = works_of s"
  "works_of (s\<lparr>rSubmit := q\<rparr>) = works_of s" "works_of (s\<lparr>rExpiry := q\<rparr>) = works_of s"
  "works_of (s\<lparr>rFailures := n\<rparr>) = works_of s" "works_of (s\<lparr>rWorkDone := ch\<rparr>) = works_of s"
  "works_of (s\<lparr>rSent := l\<rparr>) = works_of s" "works_of (s\<lparr>rTaken := l\<rparr>) = works_of s"
  "works_of (s\<lparr>rCrashed := q\<rparr>) = works_of s" "works_of (s\<lparr>rNodeWatch := q\<rparr>) = works_of s"
  "works_of (s\<lparr>rStats := q\<rparr>) = works_of s" "works_of (s\<lparr>rInterrupted := q\<rparr>) = works_of s"
  "works_of (publish j w s) = insert (template w) (works_of s)"
  by (simp_all add: works_of_def publish_def put_status_def put_device_def)

text \<open>The pieces of the invariant that a step on one device touches.\<close>

lemma pipe_ok_device:
  assumes "pipe_ok E s" and "i < length (rStatus s)" and "device_ok d" and "held d \<subseteq> works_of s"
    and "x = Unstarted \<longrightarrow> \<not> hasWork d" and "all_prove E (works_of s) (pending x)"
  shows "pipe_ok E (put_status i x (put_device i d s))"
  using assms unfolding pipe_ok_def
  by (auto simp: nth_list_update dest!: set_update_subset_insert [THEN subsetD])

lemma pipe_ok_status:
  assumes "pipe_ok E s" and "i < length (rStatus s)" and "x \<noteq> Unstarted"
    and "all_prove E (works_of s) (pending x)"
  shows "pipe_ok E (put_status i x s)"
  using assms unfolding pipe_ok_def
  by (auto simp: nth_list_update dest!: set_update_subset_insert [THEN subsetD])

lemma pipe_ok_goroutines [simp]:
  "pipe_ok E (s\<lparr>rSubmit := q\<rparr>) = pipe_ok E s" "pipe_ok E (s\<lparr>rNodeWatch := q\<rparr>) = pipe_ok E s"
  "pipe_ok E (s\<lparr>rStats := q\<rparr>) = pipe_ok E s" "pipe_ok E (s\<lparr>rInterrupted := q\<rparr>) = pipe_ok E s"
  by (cases s; simp add: pipe_ok_def works_of_def)+

lemma pipe_ok_nth:
  assumes "pipe_ok E s" and "i < length (rStatus s)"
  shows "device_ok (mDevices (rMiner s) ! i)" "held (mDevices (rMiner s) ! i) \<subseteq> works_of s"
    "rStatus s ! i = Unstarted \<longrightarrow> \<not> hasWork (mDevices (rMiner s) ! i)"
    "all_prove E (works_of s) (pending (rStatus s ! i))"
  using assms unfolding pipe_ok_def by auto

lemma pipe_ok_targets:
  assumes "pipe_ok E s"
  shows "benchmark E \<or> (\<forall>tp \<in> works_of s. snd tp \<noteq> None)"
  using assms by (auto simp: pipe_ok_def works_of_def template_def)

lemma pipe_ok_miner:
  assumes "pipe_ok E s" and "mDevices m = mDevices (rMiner s)" and "validShares m = validShares (rMiner s)"
    and "invalidShares m = invalidShares (rMiner s)"
  shows "pipe_ok E (s\<lparr>rMiner := m\<rparr>)"
  using assms unfolding pipe_ok_def by auto

lemma pipe_ok_publish:
  assumes "pipe_ok E s" and "work_ok w" and "wTarget w \<noteq> None" and "\<not> benchmark E"
  shows "pipe_ok E (publish j w s)"
proof -
  let ?s = "publish j w s"
  have m: "works_of s \<subseteq> works_of ?s" by auto
  have f: "mDevices (rMiner ?s) = mDevices (rMiner s)" "rStatus ?s = rStatus s" "rWorkDone ?s = rWorkDone s"
    "rSent ?s = rSent s" "rTaken ?s = rTaken s" "rCrashed ?s = rCrashed s" "rExpiry ?s = rExpiry s" "rWorks ?s = w # rWorks s"
    "rPush ?s = (rPush s)[j := Some (w, 0)]" "validShares (rMiner ?s) = validShares (rMiner s)"
    "invalidShares (rMiner ?s) = invalidShares (rMiner s)"
    by (simp_all add: publish_def)
  show ?thesis
    using assms all_prove_mono [OF _ m] m unfolding pipe_ok_def f
    by (auto dest!: set_update_subset_insert [THEN subsetD])
qed

lemma proves_work_length: "all_prove E T bs \<Longrightarrow> b \<in> set bs \<Longrightarrow> length b = 192"
  by (auto simp: all_prove_def proves_work_def)

lemma expiry_poll_frame:
  assumes "expiry_poll t n m = (act, n', m')"
  shows "mDevices m' = mDevices m" "validShares m' = validShares m" "invalidShares m' = invalidShares m"
    "currentWork m' = currentWork m"
  using assms by (auto simp: expiry_poll_def Let_def split: if_splits option.splits sum.splits)

section \<open>Every step keeps the invariant\<close>

lemma iter_step_ok:
  assumes "pipe_ok E s" and "i < length (rStatus s)" and "iter_sees s e"
    and "iter_outcome (run_iteration E off2 e (mDevices (rMiner s) ! i)) = Some (d, sent)"
  shows "pipe_ok E (put_status i (Sending sent fin) (put_device i d s))"
proof -
  note dev = pipe_ok_nth [OF assms(1,2)]
  have "iter_wf e" using assms(3) by (simp add: iter_sees_def)
  from iteration_ok [OF dev(1) this assms(4)] show ?thesis
    using dev(2) all_prove_mono by (intro pipe_ok_device [OF assms(1,2)]) auto
qed

lemma submit_pipe_ok:
  assumes "pipe_ok E s" and "chan_recv (rWorkDone s) = Some (fData f, ch)"
    and "submit_step blake256 (SubmitFound f) (rMiner s) = (r, m, calls)"
  shows "pipe_ok E (s\<lparr>rWorkDone := ch, rMiner := m, rSubmit := (r = SubmitNext),
      rCrashed := rCrashed s \<or> r = SubmitPanic, rTaken := rTaken s @ [fData f]\<rparr>)"
proof -
  have q: "chan_buf (rWorkDone s) = fData f # chan_buf ch" by (rule go_chan.recv_queued [OF assms(2)])
  then have "length (fData f) = 192"
    using assms(1) by (intro proves_work_length [of E "works_of s" "rSent s"]) (auto simp: pipe_ok_def)
  then have st: "180 \<le> length (fData f)" by simp
  note sub = submit_step_cases [OF assms(3) st]
  have "r \<noteq> SubmitPanic" using sub(7) by (auto split: if_splits)
  moreover have "validShares m + invalidShares m = validShares (rMiner s) + invalidShares (rMiner s) + 1"
    using sub(2,3) by (simp add: algebra_simps)
  ultimately show ?thesis
    using assms(1) q go_chan.recv_ok [OF _ assms(2)] go_chan.recv_room [OF assms(2)] sub(5)
    unfolding pipe_ok_def works_of_def by auto
qed

lemma run_step_ok:
  assumes "run_step E off1 off2 blake256 s s'" and "pipe_ok E s"
  shows "pipe_ok E s'"
  using assms(1)
proof cases
  case (nonces i rnd d)
  note dev = pipe_ok_nth [OF assms(2) nonces(2)]
  have h: "\<not> hasWork (mDevices (rMiner s) ! i)" using dev(3) nonces(3) by simp
  have "newWork d = newWork (mDevices (rMiner s) ! i)" "hasWork d = hasWork (mDevices (rMiner s) ! i)"
    using nonces(4) by (auto simp: initNonces_def Let_def split: option.splits)
  then have "held d \<subseteq> works_of s" using dev(2) h by (simp add: held_def)
  then show ?thesis
    unfolding nonces(1) using device_ok_initNonces [OF dev(1) h nonces(4)]
    by (intro pipe_ok_device [OF assms(2) nonces(2)]) simp_all
next
  case (no_nonces i rnd err)
  then show ?thesis by (auto intro: pipe_ok_status [OF assms(2)])
next
  case (iterate i e d sent)
  then show ?thesis
    unfolding iterate(1) by (intro iter_step_ok [OF assms(2) iterate(2,4), of off2]) (simp add: iterate(5) iter_outcome_def)
next
  case (return i e err d sent)
  then show ?thesis
    unfolding return(1) by (intro iter_step_ok [OF assms(2) return(2,4), of off2]) (simp add: return(5) iter_outcome_def)
next
  case (panic i e p)
  note dev = pipe_ok_nth [OF assms(2) panic(2)]
  have "iter_wf e" using panic(4) by (simp add: iter_sees_def)
  moreover have "benchmark E \<or> (\<forall>tp \<in> held (mDevices (rMiner s) ! i). snd tp \<noteq> None)"
    using dev(2) pipe_ok_targets [OF assms(2)] by blast
  ultimately show ?thesis using iteration_no_panic [OF dev(1), of e E off2 p] panic(5) by blast
next
  case (send i b bs fin ch)
  note dev = pipe_ok_nth [OF assms(2) send(2)]
  have p: "all_prove E (works_of s) (b # bs)" using dev(4) send(3) by simp
  have "pipe_ok E (s\<lparr>rWorkDone := ch, rSent := rSent s @ [b]\<rparr>)"
    using assms(2) p go_chan.send_queued [OF send(4)] go_chan.send_ok [OF _ send(4)] go_chan.send_room [OF send(4)]
    unfolding pipe_ok_def by (auto simp: works_of_def all_prove_def)
  then show ?thesis
    unfolding send(1) using p send(2) by (intro pipe_ok_status) (auto simp: works_of_def all_prove_def)
next
  case (sent i fin)
  then show ?thesis by (auto intro: pipe_ok_status [OF assms(2)])
next
  case (submit f ch r m calls)
  then show ?thesis using submit_pipe_ok [OF assms(2)] by blast
next
  case submit_ctx
  then show ?thesis using assms(2) by (auto simp: pipe_ok_def works_of_def)
next
  case (notify now data target)
  then show ?thesis using assms(2) solo_work by (auto intro: pipe_ok_publish)
next
  case (expiry t act n m s1)
  have b: "\<not> benchmark E" using assms(2) expiry(2) by (auto simp: pipe_ok_def)
  have "pipe_ok E (s\<lparr>rMiner := m\<rparr>)"
    using expiry_poll_frame [OF expiry(5)] by (intro pipe_ok_miner [OF assms(2)])
  then have "pipe_ok E s1" unfolding expiry(6) using b by (auto simp: pipe_ok_def works_of_def)
  then show ?thesis unfolding expiry(1) using solo_work b by (auto split: expiry_action.split intro: pipe_ok_publish)
next
  case (deliver j w k sel d)
  note dev = pipe_ok_nth [OF assms(2), of k]
  have k: "k < length (rStatus s)" using deliver(4) assms(2) by (simp add: pipe_ok_def)
  have "Some (w, k) \<in> set (rPush s)" using deliver(2,3) nth_mem by metis
  then have w: "w \<in> set (rWorks s)" "work_ok w" using assms(2) unfolding pipe_ok_def by blast+
  have "held d \<subseteq> works_of s"
    using frame_SetWork(5) [OF deliver(6)] dev(2) [OF k] w(1) by (auto simp: works_of_def)
  moreover have "rStatus s ! k = Unstarted \<longrightarrow> \<not> hasWork d"
    using dev(3) [OF k] frame_SetWork(4) [OF deliver(6)] by simp
  ultimately have "pipe_ok E (put_status k (rStatus s ! k) (put_device k d s))"
    using device_ok_SetWork [OF dev(1) [OF k] w(2) deliver(6)] dev(4) [OF k]
    by (intro pipe_ok_device [OF assms(2) k]) simp_all
  then have "pipe_ok E (put_device k d s)" by (simp add: put_status_def put_device_def)
  then show ?thesis
    unfolding deliver(1) using w(1)
    by (auto simp: pipe_ok_def works_of_def put_device_def dest!: set_update_subset_insert [THEN subsetD])
next
  case (delivered j w k)
  then show ?thesis
    using assms(2) by (auto simp: pipe_ok_def works_of_def dest!: set_update_subset_insert [THEN subsetD])
next
  case node_gone
  have "pipe_ok E (s\<lparr>rMiner := nodeWatchThread True (rMiner s)\<rparr>)"
    by (intro pipe_ok_miner [OF assms(2)]) (simp_all add: nodeWatchThread_def)
  then show ?thesis unfolding node_gone(1) by simp
next
  case node_ctx
  then show ?thesis using assms(2) by (simp add: nodeWatchThread_def)
next
  case stats
  then show ?thesis using assms(2) by simp
next
  case interrupt
  have "pipe_ok E (s\<lparr>rMiner := (rMiner s)\<lparr>mCancelled := True\<rparr>\<rparr>)"
    by (intro pipe_ok_miner [OF assms(2)]) simp_all
  then show ?thesis unfolding interrupt by simp
qed

text \<open>In a benchmark the only work has no target, which nothing meets.\<close>

lemma benchmark_sends_nothing:
  assumes "pipe_ok E s" and "benchmark E"
  shows "rSent s = []"
proof -
  have "snd tp = None" if "tp \<in> works_of s" for tp
    using assms that by (auto simp: pipe_ok_def works_of_def template_def)
  moreover have "all_prove E (works_of s) (rSent s)" using assms(1) unfolding pipe_ok_def by blast
  ultimately have "b \<notin> set (rSent s)" for b by (force simp: all_prove_def proves_work_def)
  then show ?thesis by (cases "rSent s") auto
qed

lemma run_reach_ok: "run_reach E off1 off2 blake256 s t \<Longrightarrow> pipe_ok E s \<Longrightarrow> pipe_ok E t"
  by (induction rule: run_reach.induct) (auto intro: run_step_ok)

text \<open>Where a run starts: devices without work, and nothing queued but the initial work.\<close>

definition start_ok :: "mining_env \<Rightarrow> miner \<Rightarrow> bool" where
  "start_ok E m \<longleftrightarrow> (\<forall>d \<in> set (mDevices m). device_ok d \<and> \<not> hasWork d \<and> set (chan_buf (newWork d)) \<subseteq> set_option (currentWork m))
     \<and> (\<forall>w \<in> set_option (currentWork m). work_ok w \<and> wTarget w \<noteq> None \<and> \<not> benchmark E)
     \<and> validShares m + invalidShares m = 0"

lemma run_start_ok: "start_ok E m \<Longrightarrow> pipe_ok E (run_start E m)"
  by (cases "currentWork m")
    (auto simp: start_ok_def pipe_ok_def run_start_def works_of_def held_def make_chan_def chan_ok_def)

end
