(* ===== verification/Shutdown.thy ===== *)
theory Shutdown
  imports Pipeline
begin

text \<open>
  Whether a cancelled run can end. What a device has found and \<open>workDone\<close> has not taken yet is sent
  without looking at the context, so once the submit thread is gone the run can end exactly
  when the backlog fits in the channel.
\<close>

definition backlog :: "run_state \<Rightarrow> nat" where
  "backlog s = length (chan_buf (rWorkDone s)) + sum_list (map (\<lambda>x. length (pending x)) (rStatus s))"

definition can_finish :: "mining_env \<Rightarrow> u8 \<Rightarrow> u8 \<Rightarrow> (bytes \<Rightarrow> bytes) \<Rightarrow> run_state \<Rightarrow> bool" where
  "can_finish E off1 off2 blake256 s \<longleftrightarrow> (\<exists>t. run_reach E off1 off2 blake256 s t \<and> finished E t)"

lemma sum_list_put:
  fixes f :: "'a \<Rightarrow> nat"
  assumes "i < length xs"
  shows "sum_list (map f (xs[i := x])) + f (xs ! i) = sum_list (map f xs) + f x"
  using assms
proof (induction xs arbitrary: i)
  case (Cons y ys)
  then show ?case by (cases i) (simp_all add: add.assoc add.left_commute)
qed simp

lemma backlog_put:
  "i < length (rStatus s) \<Longrightarrow> backlog (put_status i x s) + length (pending (rStatus s ! i)) = backlog s + length (pending x)"
  using sum_list_put [of i "rStatus s" "\<lambda>x. length (pending x)" x] by (simp add: backlog_def)

lemma backlog_frame [simp]: "backlog (put_device i d s) = backlog s" "backlog (s\<lparr>rMiner := m\<rparr>) = backlog s"
  "backlog (s\<lparr>rPush := p\<rparr>) = backlog s" "backlog (s\<lparr>rSubmit := q\<rparr>) = backlog s" "backlog (s\<lparr>rExpiry := q\<rparr>) = backlog s"
  "backlog (s\<lparr>rNodeWatch := q\<rparr>) = backlog s" "backlog (s\<lparr>rStats := q\<rparr>) = backlog s"
  "backlog (s\<lparr>rInterrupted := q\<rparr>) = backlog s"
  "backlog (s\<lparr>rFailures := n\<rparr>) = backlog s" "backlog (s\<lparr>rCrashed := q\<rparr>) = backlog s" "backlog (publish j w s) = backlog s"
  by (simp_all add: backlog_def publish_def)

lemma publish_frame [simp]: "rSubmit (publish j w s) = rSubmit s" "rWorkDone (publish j w s) = rWorkDone s"
  "rStatus (publish j w s) = rStatus s"
  by (simp_all add: publish_def)

section \<open>Without the submit thread\<close>

lemma backlog_grows:
  assumes "run_step E off1 off2 blake256 s s'" and "\<not> rSubmit s"
  shows "\<not> rSubmit s' \<and> backlog s \<le> backlog s'"
  using assms(1)
proof cases
  case (nonces i rnd d)
  then show ?thesis using assms(2) backlog_put [of i "put_device i d s" Looping] by simp
next
  case (no_nonces i rnd err)
  then show ?thesis using assms(2) backlog_put [of i s "Sending [] True"] by simp
next
  case (iterate i e d sent)
  then show ?thesis using assms(2) backlog_put [of i "put_device i d s" "Sending sent False"] by simp
next
  case (return i e err d sent)
  then show ?thesis using assms(2) backlog_put [of i "put_device i d s" "Sending sent True"] by simp
next
  case (send i b bs fin ch)
  have "backlog (s\<lparr>rWorkDone := ch, rSent := rSent s @ [b]\<rparr>) = backlog s + 1"
    using go_chan.send_queued [OF send(4)] by (simp add: backlog_def)
  then show ?thesis
    using send assms(2) backlog_put [of i "s\<lparr>rWorkDone := ch, rSent := rSent s @ [b]\<rparr>" "Sending bs fin"] by simp
next
  case (sent i fin)
  then show ?thesis using assms(2) backlog_put [of i s "if fin then Over else Looping"] by auto
next
  case (expiry t act n m s1)
  then show ?thesis using assms(2) by (auto split: expiry_action.split)
qed (use assms(2) in simp_all)

lemma stuck_reach:
  "run_reach E off1 off2 blake256 s t \<Longrightarrow> \<not> rSubmit s \<Longrightarrow> \<not> rSubmit t \<and> backlog s \<le> backlog t"
  by (induction rule: run_reach.induct) (use backlog_grows in \<open>force+\<close>)

lemma finished_backlog:
  assumes "pipe_ok E s" and "finished E s"
  shows "backlog s \<le> 10"
proof -
  have "map (\<lambda>x. length (pending x)) (rStatus s) = map (\<lambda>x. 0) (rStatus s)"
    using assms(2) by (intro map_cong) (auto simp: finished_def)
  then have "sum_list (map (\<lambda>x. length (pending x)) (rStatus s)) = 0" by (simp add: map_replicate_const sum_list_replicate)
  moreover have "length (chan_buf (rWorkDone s)) \<le> 10" using assms(1) by (auto simp: pipe_ok_def chan_ok_def)
  ultimately show ?thesis unfolding backlog_def by linarith
qed

lemma overfull_never_finishes:
  assumes "pipe_ok E s" and "\<not> rSubmit s" and "10 < backlog s"
  shows "\<not> can_finish E off1 off2 blake256 s"
proof
  assume "can_finish E off1 off2 blake256 s"
  then obtain t where t: "run_reach E off1 off2 blake256 s t" "finished E t" by (auto simp: can_finish_def)
  from stuck_reach [OF t(1) assms(2)] finished_backlog [OF run_reach_ok [OF t(1) assms(1)] t(2)] assms(3)
  show False by simp
qed

section \<open>Otherwise the run can end\<close>

definition weight :: "dev_status \<Rightarrow> nat" where
  "weight x = (case x of Over \<Rightarrow> 0 | Looping \<Rightarrow> 2 | Unstarted \<Rightarrow> 3
     | Sending bs fin \<Rightarrow> (if fin then 1 else 3) + length bs)"

definition still_to_push :: "miner \<Rightarrow> (work \<times> nat) option \<Rightarrow> nat" where
  "still_to_push m x = (case x of None \<Rightarrow> 0 | Some (w, k) \<Rightarrow> length (mDevices m) - k + 1)"

definition push_weight :: "nat \<Rightarrow> run_state \<Rightarrow> nat" where
  "push_weight j s = still_to_push (rMiner s) (rPush s ! j)"

text \<open>What the devices and the submit thread have left to do, and all that \<open>Run\<close> waits for.\<close>

definition work_left :: "run_state \<Rightarrow> nat" where
  "work_left s = 11 * sum_list (map weight (rStatus s)) + length (chan_buf (rWorkDone s)) + (if rSubmit s then 1 else 0)"

definition to_do :: "mining_env \<Rightarrow> run_state \<Rightarrow> nat" where
  "to_do E s = work_left s + (if rExpiry s then 1 else 0) + (if rNodeWatch s then 1 else 0) + (if rStats s then 1 else 0)
     + push_weight 1 s + (if benchmark E then push_weight 0 s else 0)"

definition winding_down :: "mining_env \<Rightarrow> run_state \<Rightarrow> bool" where
  "winding_down E s \<longleftrightarrow> pipe_ok E s \<and> mCancelled (rMiner s) \<and> (rSubmit s \<or> backlog s \<le> 10)"

lemma push_weight_frame [simp]: "push_weight j (put_status i x s) = push_weight j s"
  "push_weight j (put_device i d s) = push_weight j s" "push_weight j (s\<lparr>rWorkDone := ch\<rparr>) = push_weight j s"
  "push_weight j (s\<lparr>rSubmit := q\<rparr>) = push_weight j s" "push_weight j (s\<lparr>rExpiry := q\<rparr>) = push_weight j s"
  "push_weight j (s\<lparr>rNodeWatch := q\<rparr>) = push_weight j s" "push_weight j (s\<lparr>rStats := q\<rparr>) = push_weight j s"
  "push_weight j (s\<lparr>rSent := l\<rparr>) = push_weight j s" "push_weight j (s\<lparr>rTaken := l\<rparr>) = push_weight j s"
  "push_weight j (s\<lparr>rCrashed := c\<rparr>) = push_weight j s"
  by (simp_all add: push_weight_def still_to_push_def split: option.split)

lemma push_weight_put:
  "j < length (rPush s) \<Longrightarrow> push_weight i (s\<lparr>rPush := (rPush s)[j := x]\<rparr>)
    = (if i = j then still_to_push (rMiner s) x else push_weight i s)"
  by (simp add: push_weight_def still_to_push_def split: option.split)

lemma work_left_put:
  "i < length (rStatus s) \<Longrightarrow> work_left (put_status i x s) + 11 * weight (rStatus s ! i) = work_left s + 11 * weight x"
  using sum_list_put [of i "rStatus s" weight x] by (simp add: work_left_def)

lemma work_left_frame [simp]: "work_left (put_device i d s) = work_left s" "work_left (s\<lparr>rMiner := m\<rparr>) = work_left s"
  "work_left (s\<lparr>rPush := p\<rparr>) = work_left s" "work_left (s\<lparr>rExpiry := q\<rparr>) = work_left s"
  "work_left (s\<lparr>rNodeWatch := q\<rparr>) = work_left s" "work_left (s\<lparr>rStats := q\<rparr>) = work_left s"
  "work_left (s\<lparr>rInterrupted := q\<rparr>) = work_left s"
  "work_left (s\<lparr>rFailures := n\<rparr>) = work_left s" "work_left (s\<lparr>rCrashed := c\<rparr>) = work_left s"
  "work_left (publish j w s) = work_left s"
  by (simp_all add: work_left_def publish_def)

definition stopping :: iter_env where
  "stopping = \<lparr>itArrivals = [], itSel = CtxDone, itDone = True, itNow = 0,
     itStatus = \<lparr>stArg = \<lambda>_. 0, stWrite = 0, stLaunch = 0, stRead = 0\<rparr>, itElapsed = 0, itOut = [], itIdleDone = False\<rparr>"

lemma stopping_returns: "\<exists>d'. run_iteration E off2 stopping d = IterReturn None d' []"
  by (auto simp: run_iteration_def stopping_def updateCurrentWork_def split: option.split)

section \<open>A cancelled run can always do something towards its end\<close>

definition gets_closer :: "mining_env \<Rightarrow> u8 \<Rightarrow> u8 \<Rightarrow> (bytes \<Rightarrow> bytes) \<Rightarrow> run_state \<Rightarrow> bool" where
  "gets_closer E off1 off2 blake256 s \<longleftrightarrow>
     (\<exists>s'. run_step E off1 off2 blake256 s s' \<and> winding_down E s' \<and> to_do E s' < to_do E s)"

lemma gets_closerI:
  assumes "run_step E off1 off2 blake256 s s'" and "winding_down E s" and "mCancelled (rMiner s')"
    and "rSubmit s' \<or> backlog s' \<le> 10" and "to_do E s' < to_do E s"
  shows "gets_closer E off1 off2 blake256 s"
  using assms run_step_ok [OF assms(1)] unfolding gets_closer_def winding_down_def by blast

text \<open>A step of one device that only concerns itself and the channel.\<close>

definition moves :: "mining_env \<Rightarrow> u8 \<Rightarrow> u8 \<Rightarrow> (bytes \<Rightarrow> bytes) \<Rightarrow> run_state \<Rightarrow> run_state \<Rightarrow> bool" where
  "moves E off1 off2 blake256 s s' \<longleftrightarrow> run_step E off1 off2 blake256 s s' \<and> work_left s' < work_left s
     \<and> backlog s' \<le> backlog s \<and> mCancelled (rMiner s') = mCancelled (rMiner s) \<and> rSubmit s' = rSubmit s
     \<and> rExpiry s' = rExpiry s \<and> rNodeWatch s' = rNodeWatch s \<and> rStats s' = rStats s \<and> (\<forall>j. push_weight j s' = push_weight j s)"

lemma movesI:
  assumes "i < length (rStatus s)" and "weight x < weight (rStatus s ! i)"
    and "length (pending x) \<le> length (pending (rStatus s ! i))"
    and "s' = put_status i x s \<or> s' = put_status i x (put_device i d s)"
    and "run_step E off1 off2 blake256 s s'"
  shows "\<exists>s'. moves E off1 off2 blake256 s s'"
  using assms work_left_put [of i s x] work_left_put [of i "put_device i d s" x]
    backlog_put [of i s x] backlog_put [of i "put_device i d s" x]
  by (intro exI [of _ s']) (auto simp: moves_def)

lemma device_moves:
  assumes "pipe_ok E s" and "mCancelled (rMiner s)" and "i < length (rStatus s)" and "rStatus s ! i \<noteq> Over"
    and "pending (rStatus s ! i) = [] \<or> length (chan_buf (rWorkDone s)) < 10"
  shows "\<exists>s'. moves E off1 off2 blake256 s s'"
proof (cases "rStatus s ! i")
  case Unstarted
  have "initNonces off1 None (mDevices (rMiner s) ! i) = Inl RandError" by (simp add: initNonces_def)
  from run_step.no_nonces [OF assms(3) Unstarted this, of E off2 blake256] show ?thesis
    by (intro movesI [OF assms(3), of "Sending [] True"]) (auto simp: Unstarted weight_def)
next
  case Looping
  obtain d where d: "run_iteration E off2 stopping (mDevices (rMiner s) ! i) = IterReturn None d []"
    using stopping_returns by blast
  have "iter_sees s stopping" using assms(2) by (simp add: iter_sees_def iter_wf_def stopping_def)
  from run_step.return [OF assms(3) Looping this d, of off1 blake256] show ?thesis
    by (intro movesI [OF assms(3), of "Sending [] True" _ d]) (auto simp: Looping weight_def)
next
  case (Sending bs fin)
  show ?thesis
  proof (cases bs)
    case Nil
    then have st: "rStatus s ! i = Sending [] fin" using Sending by simp
    from run_step.sent [OF assms(3) st, of E off1 off2 blake256] show ?thesis
      by (intro movesI [OF assms(3), of "if fin then Over else Looping"]) (auto simp: st weight_def)
  next
    case (Cons b cs)
    then have st: "rStatus s ! i = Sending (b # cs) fin" using Sending by simp
    define s1 where "s1 = s\<lparr>rWorkDone := (rWorkDone s)\<lparr>chan_buf := chan_buf (rWorkDone s) @ [b]\<rparr>, rSent := rSent s @ [b]\<rparr>"
    have "chan_send (rWorkDone s) b = Some ((rWorkDone s)\<lparr>chan_buf := chan_buf (rWorkDone s) @ [b]\<rparr>)"
      using st assms(1,5) by (auto simp: pipe_ok_def chan_send_def)
    note step = run_step.send [OF assms(3) st this, of E off1 off2 blake256, folded s1_def]
    have "work_left s1 = work_left s + 1" "backlog s1 = backlog s + 1" "rStatus s1 = rStatus s" "rSubmit s1 = rSubmit s"
      "rMiner s1 = rMiner s" "rExpiry s1 = rExpiry s" "rNodeWatch s1 = rNodeWatch s" "rStats s1 = rStats s" "push_weight j s1 = push_weight j s" for j
      by (simp_all add: s1_def work_left_def backlog_def)
    then show ?thesis
      using step st assms(3) backlog_put [of i s1 "Sending cs fin"] work_left_put [of i s1 "Sending cs fin"]
      by (intro exI [of _ "put_status i (Sending cs fin) s1"]) (auto simp: moves_def weight_def split: if_splits)
  qed
qed (use assms(4) in simp)

lemma overfull:
  assumes "i < length (rStatus s)" and "\<not> (pending (rStatus s ! i) = [] \<or> length (chan_buf (rWorkDone s)) < 10)"
  shows "10 < backlog s"
proof -
  have "backlog (put_status i Over s) + length (pending (rStatus s ! i)) = backlog s"
    using backlog_put [OF assms(1), of Over] by simp
  moreover have "length (chan_buf (rWorkDone s)) \<le> backlog (put_status i Over s)" by (simp add: backlog_def)
  moreover have "0 < length (pending (rStatus s ! i))" using assms(2) by simp
  ultimately show ?thesis using assms(2) by linarith
qed

lemma closer_submit:
  assumes "winding_down E s" and "rSubmit s" and "chan_buf (rWorkDone s) = b # bs"
  shows "gets_closer E off1 off2 blake256 s"
proof -
  define f where "f = \<lparr>fData = b, fAnswer = Inl [], fBlock = Inl []\<rparr>"
  obtain ch where ch: "chan_recv (rWorkDone s) = Some (fData f, ch)" "chan_buf ch = bs"
    using assms(3) by (auto simp: chan_recv_def f_def)
  obtain m calls where m: "submit_step blake256 (SubmitFound f) (rMiner s) = (SubmitNext, m, calls)"
    "mCancelled m = mCancelled (rMiner s)" "mDevices m = mDevices (rMiner s)"
    by (simp add: submit_step_def f_def)
  note st = run_step.submit [OF assms(2) ch(1) m(1), of E off1 off2]
  show ?thesis
    using assms m(2,3) ch(2)
    by (intro gets_closerI [OF st assms(1)]) (auto simp: winding_down_def to_do_def work_left_def push_weight_def still_to_push_def split: option.split)
qed

lemma closer_device:
  assumes "winding_down E s" and "i < length (rStatus s)" and "rStatus s ! i \<noteq> Over"
  shows "gets_closer E off1 off2 blake256 s"
proof (cases "pending (rStatus s ! i) = [] \<or> length (chan_buf (rWorkDone s)) < 10")
  case True
  have "pipe_ok E s" "mCancelled (rMiner s)" using assms(1) by (simp_all add: winding_down_def)
  from device_moves [OF this assms(2,3) True] obtain s' where "moves E off1 off2 blake256 s s'" by blast
  then show ?thesis
    using assms(1) by (intro gets_closerI [of _ _ _ _ _ s']) (auto simp: moves_def winding_down_def to_do_def)
next
  case False
  then have "rSubmit s" using overfull [OF assms(2)] assms(1) by (auto simp: winding_down_def)
  moreover obtain c cs where "chan_buf (rWorkDone s) = c # cs" using False by (cases "chan_buf (rWorkDone s)") auto
  ultimately show ?thesis using closer_submit [OF assms(1)] by blast
qed

lemma closer_push:
  assumes "winding_down E s" and "j = 1 \<or> (j = 0 \<and> benchmark E)" and "rPush s ! j = Some (w, k)"
  shows "gets_closer E off1 off2 blake256 s"
proof -
  have l: "j < length (rPush s)" and c: "mCancelled (rMiner s)"
    using assms(1,2) by (auto simp: winding_down_def pipe_ok_def)
  show ?thesis
  proof (cases "k < length (mDevices (rMiner s))")
    case True
    have "SetWork CtxDone w (mDevices (rMiner s) ! k) = Some (mDevices (rMiner s) ! k)" by (simp add: SetWork_def)
    note st = run_step.deliver [OF l assms(3) True _ this, of E off1 off2 blake256, simplified c, simplified]
    have "rPush s = rPush (put_device k d s)" for d by simp
    then have "push_weight i ((put_device k d s)\<lparr>rPush := (rPush s)[j := x]\<rparr>)
        = (if i = j then still_to_push (rMiner (put_device k d s)) x else push_weight i s)" for i d x
      using l push_weight_put [of j "put_device k d s"] by (metis push_weight_frame(2))
    moreover have "push_weight j s = length (mDevices (rMiner s)) - k + 1" using assms(3) by (simp add: push_weight_def still_to_push_def)
    ultimately show ?thesis
      using assms(1,2) True by (intro gets_closerI [OF st assms(1)])
        (auto simp: winding_down_def to_do_def still_to_push_def)
  next
    case False
    then have k: "length (mDevices (rMiner s)) \<le> k" by simp
    note st = run_step.delivered [OF l assms(3) k, of E off1 off2 blake256]
    have "push_weight j s = length (mDevices (rMiner s)) - k + 1" using assms(3) by (simp add: push_weight_def still_to_push_def)
    then show ?thesis
      using assms(1,2) l by (intro gets_closerI [OF st assms(1)])
        (auto simp: winding_down_def to_do_def push_weight_put still_to_push_def)
  qed
qed

lemma closer_expiry:
  assumes "winding_down E s" and "rExpiry s"
  shows "gets_closer E off1 off2 blake256 s"
proof (cases "rPush s ! 1")
  case None
  define t where "t = \<lparr>exDone = True, exNow = 0, exPoll = Inl [], exCtxErr = True, exSecs = 0, exSels = []\<rparr>"
  have c: "mCancelled (rMiner s)" using assms(1) by (simp add: winding_down_def)
  have "expiry_poll t (rFailures s) (rMiner s) = (ExpiryReturn, rFailures s, rMiner s)"
    by (simp add: expiry_poll_def t_def)
  from run_step.expiry [OF assms(2) None _ this refl, of E off1 off2 blake256] c
  have st: "run_step E off1 off2 blake256 s (s\<lparr>rExpiry := False\<rparr>)" by simp
  show ?thesis
    using assms by (intro gets_closerI [OF st assms(1)]) (auto simp: winding_down_def to_do_def)
next
  case (Some p)
  then show ?thesis using closer_push [OF assms(1), of 1] by (cases p) simp
qed

lemma closer:
  assumes "winding_down E s" and "\<not> finished E s"
  shows "gets_closer E off1 off2 blake256 s"
proof -
  consider (device) i where "i < length (rStatus s)" "rStatus s ! i \<noteq> Over"
    | (submit) "rSubmit s" "\<forall>x \<in> set (rStatus s). x = Over" | (expiry) "rExpiry s"
    | (push) "benchmark E" "rPush s ! 0 \<noteq> None" | (node) "rNodeWatch s"
    | (stats) "rStats s" "benchmark E \<longrightarrow> rPush s ! 0 = None"
    using assms(2) unfolding finished_def by (metis in_set_conv_nth)
  then show ?thesis
  proof cases
    case device
    show ?thesis by (rule closer_device [OF assms(1) device])
  next
    case submit
    have "backlog s = length (chan_buf (rWorkDone s))"
      using submit(2) by (auto simp: backlog_def)
    moreover have "length (chan_buf (rWorkDone s)) \<le> 10" and c: "mCancelled (rMiner s)"
      using assms(1) by (auto simp: winding_down_def pipe_ok_def chan_ok_def)
    ultimately have b: "backlog s \<le> 10" by simp
    note st = run_step.submit_ctx [OF submit(1) c, of E off1 off2 blake256]
    show ?thesis
      using submit(1) c b by (intro gets_closerI [OF st assms(1)]) (simp_all add: to_do_def work_left_def)
  next
    case node
    have c: "mCancelled (rMiner s)" using assms(1) by (simp add: winding_down_def)
    note st = run_step.node_ctx [OF node c, of E off1 off2 blake256, unfolded nodeWatchThread_def if_False]
    show ?thesis
      using assms(1) node c by (intro gets_closerI [OF st assms(1)]) (auto simp: winding_down_def to_do_def)
  next
    case stats
    have c: "mCancelled (rMiner s)" using assms(1) by (simp add: winding_down_def)
    note st = run_step.stats [OF stats(1) c stats(2), of off1 off2 blake256]
    show ?thesis
      using assms(1) stats(1) c by (intro gets_closerI [OF st assms(1)]) (auto simp: winding_down_def to_do_def)
  next
    case push
    then show ?thesis using closer_push [OF assms(1), of 0] by auto
  qed (rule closer_expiry [OF assms(1)])
qed

lemma run_reach_first: "run_step E off1 off2 blake256 s t \<Longrightarrow> run_reach E off1 off2 blake256 t u \<Longrightarrow> run_reach E off1 off2 blake256 s u"
  by (rule run_reach_trans) (auto intro: run_reach.intros)

lemma to_do_interrupt: "to_do E (s\<lparr>rMiner := (rMiner s)\<lparr>mCancelled := True\<rparr>, rInterrupted := True\<rparr>) = to_do E s"
  by (simp add: to_do_def push_weight_def still_to_push_def split: option.split)

text \<open>Getting closer to the end takes no interrupt.\<close>

lemma closer_keeps:
  assumes "run_step E off1 off2 blake256 s s'" and "to_do E s' < to_do E s"
  shows "rInterrupted s' = rInterrupted s"
  using assms(1)
proof cases
  case interrupt
  then show ?thesis using assms(2) to_do_interrupt [of E s] by simp
qed (simp_all add: publish_def split: expiry_action.split)

lemma winding_down_returns:
  "winding_down E s \<Longrightarrow> \<exists>t. run_reach E off1 off2 blake256 s t \<and> finished E t \<and> rInterrupted t = rInterrupted s"
proof (induction "to_do E s" arbitrary: s rule: less_induct)
  case less
  show ?case
  proof (cases "finished E s")
    case True
    then show ?thesis by (auto intro: run_reach.here)
  next
    case False
    from closer [OF less.prems this, of off1 off2 blake256] obtain s' where
      s': "run_step E off1 off2 blake256 s s'" "winding_down E s'" "to_do E s' < to_do E s"
      unfolding gets_closer_def by blast
    from less.hyps [OF s'(3,2)] show ?thesis
      using run_reach_first [OF s'(1)] closer_keeps [OF s'(1,3)] by metis
  qed
qed

lemma winding_down_finishes: "winding_down E s \<Longrightarrow> can_finish E off1 off2 blake256 s"
  using winding_down_returns unfolding can_finish_def by blast

end
