(* ===== verification/Draining.thy ===== *)
theory Draining
  imports Main
begin

text \<open>
  Systems whose steps never add to the work that is left: every infinite run settles, and under the
  weak fairness that work which can always go on does go on, it settles where none can.
\<close>

locale draining =
  fixes step :: "'s \<Rightarrow> 's \<Rightarrow> bool" and inv :: "'s \<Rightarrow> bool" and work_left :: "'s \<Rightarrow> nat"
  assumes keeps: "inv s \<Longrightarrow> step s s' \<Longrightarrow> inv s'"
    and drains: "inv s \<Longrightarrow> step s s' \<Longrightarrow> work_left s' \<le> work_left s"
begin

definition infinite_run :: "(nat \<Rightarrow> 's) \<Rightarrow> bool" where
  "infinite_run f \<longleftrightarrow> inv (f 0) \<and> (\<forall>i. step (f i) (f (Suc i)))"

definition works :: "'s \<Rightarrow> 's \<Rightarrow> bool" where
  "works s s' \<longleftrightarrow> step s s' \<and> work_left s' < work_left s"

definition fair :: "(nat \<Rightarrow> 's) \<Rightarrow> bool" where
  "fair f \<longleftrightarrow> (\<forall>N. (\<forall>i \<ge> N. \<exists>s'. works (f i) s') \<longrightarrow> (\<exists>i \<ge> N. works (f i) (f (Suc i))))"

lemma run_inv: "infinite_run f \<Longrightarrow> inv (f i)"
  by (induction i) (auto simp: infinite_run_def intro: keeps)

lemma run_drains: "infinite_run f \<Longrightarrow> i \<le> j \<Longrightarrow> work_left (f j) \<le> work_left (f i)"
proof (induction j)
  case (Suc j)
  have "work_left (f (Suc j)) \<le> work_left (f j)"
    using Suc.prems(1) by (intro drains run_inv) (auto simp: infinite_run_def)
  with Suc show ?case by (cases "i = Suc j") auto
qed simp

lemma settles:
  assumes "infinite_run f"
  shows "\<exists>N. \<forall>i \<ge> N. work_left (f i) = work_left (f N)"
proof -
  obtain N where N: "\<And>j. work_left (f N) \<le> work_left (f j)"
    using ex_has_least_nat [of "\<lambda>_. True" 0 "\<lambda>i. work_left (f i)"] by auto
  then have "\<forall>i \<ge> N. work_left (f i) = work_left (f N)"
    using run_drains [OF assms] by (meson le_antisym)
  then show ?thesis by blast
qed

lemma fair_run_gets_stuck:
  assumes "infinite_run f" and "fair f"
  shows "\<exists>N. (\<forall>i \<ge> N. work_left (f i) = work_left (f N)) \<and> \<not> (\<exists>s'. works (f N) s')"
proof -
  obtain N where N: "\<forall>i \<ge> N. work_left (f i) = work_left (f N)" using settles [OF assms(1)] by blast
  then have "\<not> works (f i) (f (Suc i))" if "i \<ge> N" for i
    using that by (metis le_Suc_eq less_irrefl works_def)
  then obtain i where "i \<ge> N" "\<not> (\<exists>s'. works (f i) s')" using assms(2) unfolding fair_def by blast
  moreover from this have "\<forall>j \<ge> i. work_left (f j) = work_left (f i)" using N by (metis le_trans)
  ultimately show ?thesis by blast
qed

end

end
