(* ===== verification/Liveness.thy ===== *)
theory Liveness
  imports Shutdown Draining
begin

text \<open>
  How a cancelled run ends: no step of any goroutine adds to what the devices and the submit thread have
  left to do, so under fair scheduling they come to rest, and where they do.
\<close>

text \<open>Once the context is done it stays done, and an iteration returns without a launch.\<close>

lemma submit_step_cancelled:
  "submit_step blake256 ev m = (r, m', calls) \<Longrightarrow> mCancelled m \<Longrightarrow> mCancelled m'"
  by (auto simp: submit_step_def Let_def checkPayee_def split: submit_event.splits sum.splits if_splits)

lemma expiry_poll_cancelled:
  "expiry_poll t n m = (act, n', m') \<Longrightarrow> mCancelled m \<Longrightarrow> mCancelled m'"
  by (auto simp: expiry_poll_def Let_def split: if_splits option.splits sum.splits)

lemma done_iteration:
  "itDone e \<Longrightarrow> run_iteration E off2 e d = IterWaiting \<or> (\<exists>d'. run_iteration E off2 e d = IterReturn None d' [])"
  by (auto simp: run_iteration_def split: option.split)

text \<open>A step either makes progress or leaves the devices' places, the channel and the submit thread alone.\<close>

definition resting :: "run_state \<Rightarrow> run_state \<Rightarrow> bool" where
  "resting s s' \<longleftrightarrow> rStatus s' = rStatus s \<and> rWorkDone s' = rWorkDone s \<and> rSubmit s' = rSubmit s"

lemma resting_work_left: "resting s s' \<Longrightarrow> work_left s' = work_left s"
  by (simp add: resting_def work_left_def)

lemma cancelled_step:
  assumes "run_step E off1 off2 blake256 s s'" and "pipe_ok E s" and "mCancelled (rMiner s)"
  shows "mCancelled (rMiner s') \<and> (work_left s' < work_left s \<or> resting s s')"
  using assms(1)
proof cases
  case (nonces i rnd d)
  then show ?thesis using assms(3) work_left_put [of i "put_device i d s" Looping] by (simp add: weight_def)
next
  case (no_nonces i rnd err)
  then show ?thesis using assms(3) work_left_put [of i s "Sending [] True"] by (simp add: weight_def)
next
  case (iterate i e d sent)
  then have "itDone e" using assms(3) by (simp add: iter_sees_def)
  with iterate(5) done_iteration [of e E off2 "mDevices (rMiner s) ! i"] show ?thesis by auto
next
  case (return i e err d sent)
  then have "itDone e" using assms(3) by (simp add: iter_sees_def)
  with return(5) done_iteration [of e E off2 "mDevices (rMiner s) ! i"] have "sent = []" by auto
  then show ?thesis
    using return assms(3) work_left_put [of i "put_device i d s" "Sending sent True"] by (simp add: weight_def)
next
  case (panic i e p)
  then have "itDone e" using assms(3) by (simp add: iter_sees_def)
  with panic(5) done_iteration [of e E off2 "mDevices (rMiner s) ! i"] show ?thesis by auto
next
  case (send i b bs fin ch)
  let ?s = "s\<lparr>rWorkDone := ch, rSent := rSent s @ [b]\<rparr>"
  have "work_left ?s = work_left s + 1" using go_chan.send_queued [OF send(4)] by (simp add: work_left_def)
  then show ?thesis
    using send assms(3) work_left_put [of i ?s "Sending bs fin"] by (simp add: weight_def)
next
  case (sent i fin)
  then show ?thesis
    using assms(3) work_left_put [of i s "if fin then Over else Looping"] by (simp add: weight_def split: if_splits)
next
  case (submit f ch r m calls)
  have "chan_buf (rWorkDone s) = fData f # chan_buf ch" by (rule go_chan.recv_queued [OF submit(3)])
  then show ?thesis
    using submit submit_step_cancelled [OF submit(4)] assms(3) by (simp add: work_left_def)
next
  case submit_ctx
  then show ?thesis using assms(3) by (simp add: work_left_def)
next
  case (notify now data target)
  then show ?thesis using assms(3) by (simp add: resting_def publish_def)
next
  case (expiry t act n m s1)
  have m: "mCancelled m" using expiry_poll_cancelled [OF expiry(5) assms(3)] .
  have "mCancelled (rMiner s1) \<and> resting s s1" using m by (simp add: expiry(6) resting_def)
  moreover have "mCancelled (rMiner (publish j w t)) = mCancelled (rMiner t) \<and> resting s (publish j w t) = resting s t" for j w t
    by (simp add: publish_def resting_def)
  ultimately show ?thesis by (simp add: expiry(1) split: expiry_action.split)
qed (use assms(3) in \<open>simp_all add: resting_def nodeWatchThread_def\<close>)

interpretation run_drain: draining "run_step E off1 off2 blake256" "\<lambda>s. pipe_ok E s \<and> mCancelled (rMiner s)" work_left
  for E off1 off2 blake256
proof
  fix s s' :: run_state
  assume s: "pipe_ok E s \<and> mCancelled (rMiner s)" and st: "run_step E off1 off2 blake256 s s'"
  note c = cancelled_step [OF st]
  show "pipe_ok E s' \<and> mCancelled (rMiner s')" using run_step_ok [OF st] c s by blast
  show "work_left s' \<le> work_left s" using c s resting_work_left [of s s'] by force
qed

section \<open>Where a run comes to rest\<close>

lemma stuck:
  assumes "pipe_ok E s" and "mCancelled (rMiner s)" and "\<not> (\<exists>s'. run_drain.works E off1 off2 blake256 s s')"
  shows "\<not> rSubmit s \<and> ((\<forall>x \<in> set (rStatus s). x = Over) \<or> 10 < backlog s)"
proof -
  have "\<not> rSubmit s"
  proof
    assume q: "rSubmit s"
    have "work_left (s\<lparr>rSubmit := False\<rparr>) < work_left s" using q by (simp add: work_left_def)
    with run_step.submit_ctx [OF q assms(2), of E off1 off2 blake256] assms(3) show False
      unfolding run_drain.works_def by blast
  qed
  moreover have "rStatus s ! i = Over" if "\<not> 10 < backlog s" and i: "i < length (rStatus s)" for i
  proof (rule ccontr)
    assume "rStatus s ! i \<noteq> Over"
    moreover have "pending (rStatus s ! i) = [] \<or> length (chan_buf (rWorkDone s)) < 10" using overfull [OF i] that(1) by blast
    ultimately obtain s' where "moves E off1 off2 blake256 s s'" using device_moves [OF assms(1,2) i] by blast
    then show False using assms(3) unfolding run_drain.works_def moves_def by blast
  qed
  ultimately show ?thesis by (auto simp: in_set_conv_nth)
qed

text \<open>Fairness: when from some point on a device or the submit thread can always take a step, one does.\<close>

definition fair_run :: "mining_env \<Rightarrow> u8 \<Rightarrow> u8 \<Rightarrow> (bytes \<Rightarrow> bytes) \<Rightarrow> (nat \<Rightarrow> run_state) \<Rightarrow> bool" where
  "fair_run E off1 off2 blake256 f \<longleftrightarrow>
     (\<forall>N. (\<forall>i \<ge> N. \<exists>s'. run_step E off1 off2 blake256 (f i) s' \<and> \<not> resting (f i) s') \<longrightarrow> (\<exists>i \<ge> N. \<not> resting (f i) (f (Suc i))))"

lemma works_iff:
  assumes "pipe_ok E s" and "mCancelled (rMiner s)"
  shows "run_drain.works E off1 off2 blake256 s s' \<longleftrightarrow> run_step E off1 off2 blake256 s s' \<and> \<not> resting s s'"
  using cancelled_step [OF _ assms] resting_work_left [of s s'] unfolding run_drain.works_def by fastforce

lemma comes_to_rest:
  assumes "pipe_ok E (f 0)" and "mCancelled (rMiner (f 0))" and "\<forall>i. run_step E off1 off2 blake256 (f i) (f (Suc i))"
    and "fair_run E off1 off2 blake256 f"
  shows "\<exists>N. \<forall>i \<ge> N. \<not> rSubmit (f i) \<and> ((\<forall>x \<in> set (rStatus (f i)). x = Over) \<or> 10 < backlog (f i))"
proof -
  have run: "run_drain.infinite_run E off1 off2 blake256 f"
    using assms(1-3) by (simp add: run_drain.infinite_run_def)
  have ok: "pipe_ok E (f i)" "mCancelled (rMiner (f i))" for i using run_drain.run_inv [OF run] by blast+
  note w = works_iff [OF ok(1) ok(2)]
  have fair: "run_drain.fair E off1 off2 blake256 f"
    unfolding run_drain.fair_def
  proof (intro allI impI)
    fix N
    assume "\<forall>i \<ge> N. \<exists>s'. run_drain.works E off1 off2 blake256 (f i) s'"
    then have "\<forall>i \<ge> N. \<exists>s'. run_step E off1 off2 blake256 (f i) s' \<and> \<not> resting (f i) s'" by (simp only: w)
    with assms(4) have "\<exists>i \<ge> N. \<not> resting (f i) (f (Suc i))" by (simp only: fair_run_def simp_thms)
    then show "\<exists>i \<ge> N. run_drain.works E off1 off2 blake256 (f i) (f (Suc i))" using assms(3) by (simp only: w) blast
  qed
  from run_drain.fair_run_gets_stuck [OF run fair] obtain N where
    N: "\<forall>i \<ge> N. work_left (f i) = work_left (f N)" "\<not> (\<exists>s'. run_drain.works E off1 off2 blake256 (f N) s')" by blast
  have rest: "rStatus (f i) = rStatus (f N) \<and> rWorkDone (f i) = rWorkDone (f N) \<and> rSubmit (f i) = rSubmit (f N)" if "i \<ge> N" for i
    using that
  proof (induction i rule: dec_induct)
    case (step i)
    have "resting (f i) (f (Suc i))"
      using cancelled_step [OF spec [OF assms(3)] ok, of i] N(1) step(1) by (metis le_SucI less_irrefl)
    then show ?case using step(3) by (simp add: resting_def)
  qed simp
  note fin = stuck [OF ok(1) ok(2) N(2)]
  show ?thesis
  proof (intro exI allI impI)
    fix i
    assume "N \<le> i"
    from rest [OF this] have "rSubmit (f i) = rSubmit (f N)" "rStatus (f i) = rStatus (f N)" "backlog (f i) = backlog (f N)"
      by (simp_all add: backlog_def)
    then show "\<not> rSubmit (f i) \<and> ((\<forall>x \<in> set (rStatus (f i)). x = Over) \<or> 10 < backlog (f i))"
      using fin by (simp only: simp_thms)
  qed
qed

end
