(* ===== verification/Outcome.thy ===== *)
theory Outcome
  imports Liveness
begin

text \<open>
  Why a run ends, and what happens while it lasts: the context of the run is done only when it was
  interrupted or the miner stopped itself, and under a fair schedule every header that enters
  \<open>workDone\<close> is taken by the submit thread.
\<close>

section \<open>Causes\<close>

definition caused :: "mining_env \<Rightarrow> run_state \<Rightarrow> bool" where
  "caused E s \<longleftrightarrow> (mCancelled (rMiner s) \<longleftrightarrow> fatal (rMiner s) \<or> rInterrupted s)
     \<and> (\<not> rSubmit s \<longrightarrow> mCancelled (rMiner s))
     \<and> (benchmark E \<longrightarrow> \<not> rNodeWatch s \<and> \<not> fatal (rMiner s))"

lemma submit_step_cause:
  assumes "submit_step blake256 (SubmitFound f) m = (r, m', calls)"
  shows "r = SubmitReturn \<and> fatal m' \<and> mCancelled m'
    \<or> r \<noteq> SubmitReturn \<and> fatal m' = fatal m \<and> mCancelled m' = mCancelled m"
  using assms
  by (auto simp: submit_step_def checkPayee_def Let_def split: sum.splits if_splits)

lemma expiry_poll_cause:
  assumes "expiry_poll t n m = (act, n', m')"
  shows "fatal m' \<and> mCancelled m' \<or> fatal m' = fatal m \<and> mCancelled m' = mCancelled m"
  using assms by (auto simp: expiry_poll_def Let_def split: if_splits option.splits sum.splits)

lemma caused_frame [simp]: "caused E (put_status i x s) = caused E s" "caused E (put_device i d s) = caused E s"
  "caused E (s\<lparr>rWorkDone := ch\<rparr>) = caused E s" "caused E (s\<lparr>rPush := p\<rparr>) = caused E s"
  "caused E (s\<lparr>rSent := l\<rparr>) = caused E s" "caused E (s\<lparr>rTaken := l\<rparr>) = caused E s"
  "caused E (s\<lparr>rCrashed := c\<rparr>) = caused E s" "caused E (s\<lparr>rExpiry := q\<rparr>) = caused E s"
  "caused E (s\<lparr>rFailures := n\<rparr>) = caused E s" "caused E (s\<lparr>rStats := q\<rparr>) = caused E s"
  "caused E (publish j w s) = caused E s"
  by (simp_all add: caused_def publish_def)

lemma caused_step:
  assumes "run_step E off1 off2 blake256 s s'" and "pipe_ok E s" and "caused E s"
  shows "caused E s'"
  using assms(1)
proof cases
  case (submit f ch r m calls)
  have "rSent s \<noteq> []" using go_chan.recv_queued [OF submit(3)] assms(2) by (simp add: pipe_ok_def)
  then have b: "\<not> benchmark E" using benchmark_sends_nothing [OF assms(2)] by blast
  have "r \<noteq> SubmitPanic"
    using run_step_ok [OF assms(1,2)] submit(1) by (auto simp: pipe_ok_def)
  then show ?thesis
    using submit_step_cause [OF submit(4)] assms(3) b submit(2) unfolding submit(1)
    by (cases r) (auto simp: caused_def)
next
  case (expiry t act n m s1)
  have "\<not> benchmark E" using assms(2) expiry(2) by (auto simp: pipe_ok_def)
  then have "caused E s1" using expiry_poll_cause [OF expiry(5)] assms(3) unfolding expiry(6) by (auto simp: caused_def)
  then show ?thesis unfolding expiry(1) by (simp split: expiry_action.split)
next
  case submit_ctx
  then show ?thesis using assms(3) by (simp add: caused_def)
next
  case node_gone
  then show ?thesis using assms(3) by (auto simp: caused_def nodeWatchThread_def)
next
  case node_ctx
  then show ?thesis using assms(3) by (simp add: caused_def nodeWatchThread_def)
next
  case interrupt
  then show ?thesis using assms(3) by (simp add: caused_def)
qed (use assms(3) in simp_all)

lemma caused_start: "\<not> mCancelled m \<Longrightarrow> \<not> fatal m \<Longrightarrow> caused E (run_start E m)"
  by (simp add: caused_def run_start_def)

lemma run_caused:
  assumes "run_reach E off1 off2 blake256 (run_start E m) s" and "start_ok E m" and "\<not> mCancelled m" "\<not> fatal m"
  shows "caused E s"
proof -
  have "pipe_ok E s \<and> caused E s"
    using assms(1)
  proof (induction rule: run_reach.induct)
    case here
    then show ?case using run_start_ok [OF assms(2)] caused_start [OF assms(3,4)] by blast
  next
    case (step t u)
    then show ?case using run_step_ok caused_step by blast
  qed
  then show ?thesis ..
qed

text \<open>\<open>Run\<close> returns with the miner \<open>m'\<close>, having been interrupted or not.\<close>

definition run_returns :: "mining_env \<Rightarrow> u8 \<Rightarrow> u8 \<Rightarrow> (bytes \<Rightarrow> bytes) \<Rightarrow> miner \<Rightarrow> miner \<Rightarrow> bool \<Rightarrow> bool" where
  "run_returns E off1 off2 blake256 m m' interrupted \<longleftrightarrow>
     (\<exists>t. run_reach E off1 off2 blake256 (run_start E m) t \<and> finished E t \<and> rMiner t = m' \<and> rInterrupted t = interrupted)"

lemma run_returns_cause:
  assumes "run_returns E off1 off2 blake256 m m' interrupted" and "start_ok E m" and "\<not> mCancelled m" "\<not> fatal m"
  shows "interrupted \<or> (fatal m' \<and> \<not> benchmark E)"
proof -
  obtain t where t: "run_reach E off1 off2 blake256 (run_start E m) t" "finished E t" "rMiner t = m'" "rInterrupted t = interrupted"
    using assms(1) unfolding run_returns_def by blast
  from run_caused [OF t(1) assms(2-4)] t(2-4) show ?thesis by (auto simp: caused_def finished_def)
qed

text \<open>A run whose node goes away can return by itself.\<close>

lemma node_gone_returns:
  assumes "start_ok E m" and "\<not> benchmark E" and "\<not> mCancelled m" "\<not> fatal m"
  shows "\<exists>m'. run_returns E off1 off2 blake256 m m' False \<and> fatal m'"
proof -
  let ?s = "run_start E m" and ?s1 = "(run_start E m)\<lparr>rMiner := nodeWatchThread True m, rNodeWatch := False\<rparr>"
  have "rNodeWatch ?s" "rMiner ?s = m" using assms(2) by (simp_all add: run_start_def)
  then have st: "run_step E off1 off2 blake256 ?s ?s1" using run_step.node_gone [of ?s E off1 off2 blake256] by simp
  have "winding_down E ?s1"
    using run_step_ok [OF st run_start_ok [OF assms(1)]]
    by (simp add: winding_down_def nodeWatchThread_def) (simp add: run_start_def)
  from winding_down_returns [OF this, of off1 off2 blake256] obtain t where
    t: "run_reach E off1 off2 blake256 ?s1 t" "finished E t" "\<not> rInterrupted t" by (auto simp: run_start_def)
  have r: "run_reach E off1 off2 blake256 ?s t" by (rule run_reach_first [OF st t(1)])
  then have "caused E t" by (rule run_caused [OF _ assms(1,3,4)])
  then have "fatal (rMiner t)" using t(2,3) by (auto simp: caused_def finished_def)
  then show ?thesis using r t(2,3) by (auto simp: run_returns_def)
qed

section \<open>Every header that is sent is taken\<close>

text \<open>While the submit thread runs, what it still has to take of the first \<open>k\<close> headers sent never grows.\<close>

definition goes_on :: "mining_env \<Rightarrow> u8 \<Rightarrow> u8 \<Rightarrow> (bytes \<Rightarrow> bytes) \<Rightarrow> run_state \<Rightarrow> run_state \<Rightarrow> bool" where
  "goes_on E off1 off2 blake256 s s' \<longleftrightarrow> run_step E off1 off2 blake256 s s' \<and> rSubmit s'"

lemma histories_grow:
  assumes "run_step E off1 off2 blake256 s s'"
  shows "prefix (rSent s) (rSent s') \<and> (rTaken s' = rTaken s \<or> (\<exists>b. rTaken s' = rTaken s @ [b]))"
  using assms by cases (auto simp: publish_def split: expiry_action.split)

interpretation submit_drain: draining "goes_on E off1 off2 blake256"
    "\<lambda>s. pipe_ok E s \<and> rSubmit s \<and> k \<le> length (rSent s)" "\<lambda>s. k - length (rTaken s)"
  for E off1 off2 blake256 k
proof
  fix s s' :: run_state
  assume s: "pipe_ok E s \<and> rSubmit s \<and> k \<le> length (rSent s)" and st: "goes_on E off1 off2 blake256 s s'"
  then have run: "run_step E off1 off2 blake256 s s'" and q: "rSubmit s'" by (simp_all add: goes_on_def)
  note h = histories_grow [OF run]
  have "length (rSent s) \<le> length (rSent s')" using h by (intro prefix_length_le) blast
  then show "pipe_ok E s' \<and> rSubmit s' \<and> k \<le> length (rSent s')" using run_step_ok [OF run] s q by simp
  show "k - length (rTaken s') \<le> k - length (rTaken s)" using h by auto
qed

text \<open>The step of the submit thread: with a header in the channel it can always be taken.\<close>

lemma can_take:
  assumes "pipe_ok E s" and "rSubmit s" and "chan_buf (rWorkDone s) \<noteq> []"
  shows "\<exists>s'. goes_on E off1 off2 blake256 s s' \<and> length (rTaken s') = length (rTaken s) + 1"
proof -
  obtain b bs where b: "chan_buf (rWorkDone s) = b # bs" using assms(3) by (cases "chan_buf (rWorkDone s)") auto
  define f where "f = \<lparr>fData = b, fAnswer = Inl [], fBlock = Inl []\<rparr>"
  obtain ch where ch: "chan_recv (rWorkDone s) = Some (fData f, ch)" using b by (auto simp: chan_recv_def f_def)
  obtain m calls where m: "submit_step blake256 (SubmitFound f) (rMiner s) = (SubmitNext, m, calls)"
    by (simp add: submit_step_def f_def)
  from run_step.submit [OF assms(2) ch m, of E off1 off2] show ?thesis
    by (intro exI) (auto simp: goes_on_def)
qed

definition fair_submit :: "(nat \<Rightarrow> run_state) \<Rightarrow> bool" where
  "fair_submit f \<longleftrightarrow> (\<forall>N. (\<forall>i \<ge> N. rSubmit (f i) \<and> chan_buf (rWorkDone (f i)) \<noteq> []) \<longrightarrow> (\<exists>i \<ge> N. rTaken (f (Suc i)) \<noteq> rTaken (f i)))"

lemma all_taken:
  assumes "pipe_ok E (f 0)" and run: "\<forall>i. run_step E off1 off2 blake256 (f i) (f (Suc i))" and q: "\<forall>i. rSubmit (f i)"
    and fair: "fair_submit f"
  shows "\<exists>j. prefix (rSent (f 0)) (rTaken (f j))"
proof -
  let ?k = "length (rSent (f 0))"
  have st: "goes_on E off1 off2 blake256 (f i) (f (Suc i))" for i using run q by (simp add: goes_on_def)
  have r: "submit_drain.infinite_run E off1 off2 blake256 ?k f"
    using assms(1) q st by (simp add: submit_drain.infinite_run_def)
  note inv = submit_drain.run_inv [OF r]
  have split: "rSent (f i) = rTaken (f i) @ chan_buf (rWorkDone (f i))" for i using inv [of i] by (simp add: pipe_ok_def)
  have left: "chan_buf (rWorkDone (f i)) \<noteq> []" if "length (rTaken (f i)) < ?k" for i
    using that inv [of i] arg_cong [OF split [of i], of length] by auto
  have "submit_drain.fair E off1 off2 blake256 ?k f"
    unfolding submit_drain.fair_def
  proof (intro allI impI)
    fix N
    assume w: "\<forall>i \<ge> N. \<exists>s'. submit_drain.works E off1 off2 blake256 ?k (f i) s'"
    then have lt: "length (rTaken (f i)) < ?k" if "i \<ge> N" for i using that by (fastforce simp: submit_drain.works_def)
    with left q have "\<forall>i \<ge> N. rSubmit (f i) \<and> chan_buf (rWorkDone (f i)) \<noteq> []" by blast
    with fair obtain i where i: "i \<ge> N" "rTaken (f (Suc i)) \<noteq> rTaken (f i)" unfolding fair_submit_def by blast
    then have "length (rTaken (f (Suc i))) = length (rTaken (f i)) + 1"
      using histories_grow run by (metis length_append_singleton Suc_eq_plus1)
    then have "submit_drain.works E off1 off2 blake256 ?k (f i) (f (Suc i))"
      using st lt [OF i(1)] by (auto simp: submit_drain.works_def)
    with i(1) show "\<exists>i \<ge> N. submit_drain.works E off1 off2 blake256 ?k (f i) (f (Suc i))" by blast
  qed
  from submit_drain.fair_run_gets_stuck [OF r this] obtain N where
    N: "\<not> (\<exists>s'. submit_drain.works E off1 off2 blake256 ?k (f N) s')" by blast
  have k: "?k \<le> length (rTaken (f N))"
  proof (rule ccontr)
    assume n: "\<not> ?thesis"
    then obtain s' where "goes_on E off1 off2 blake256 (f N) s'" "length (rTaken s') = length (rTaken (f N)) + 1"
      using can_take left inv [of N] by (metis not_le)
    with n N show False by (auto simp: submit_drain.works_def)
  qed
  have "prefix (rSent (f 0)) (rSent (f i))" for i
  proof (induction i)
    case (Suc i)
    with histories_grow run show ?case by (meson prefix_order.trans)
  qed simp
  from this [of N] k have "prefix (rSent (f 0)) (rTaken (f N))"
    unfolding split [of N] by (auto simp: prefix_append)
  then show ?thesis ..
qed

text \<open>From any point of such a schedule on.\<close>

lemma fair_submit_shift: "fair_submit f \<Longrightarrow> fair_submit (\<lambda>n. f (i + n))"
  unfolding fair_submit_def
proof (intro allI impI)
  fix N
  assume f: "\<forall>N. (\<forall>j \<ge> N. rSubmit (f j) \<and> chan_buf (rWorkDone (f j)) \<noteq> []) \<longrightarrow> (\<exists>j \<ge> N. rTaken (f (Suc j)) \<noteq> rTaken (f j))"
    and h: "\<forall>n \<ge> N. rSubmit (f (i + n)) \<and> chan_buf (rWorkDone (f (i + n))) \<noteq> []"
  have "rSubmit (f j) \<and> chan_buf (rWorkDone (f j)) \<noteq> []" if "j \<ge> i + N" for j
    using h [THEN spec, of "j - i"] that by simp
  with f obtain j where "j \<ge> i + N" "rTaken (f (Suc j)) \<noteq> rTaken (f j)" by blast
  then show "\<exists>n \<ge> N. rTaken (f (i + Suc n)) \<noteq> rTaken (f (i + n))" by (intro exI [of _ "j - i"]) simp
qed

lemma run_stays_ok:
  assumes "pipe_ok E (f 0)" and "\<forall>i. run_step E off1 off2 blake256 (f i) (f (Suc i))"
  shows "pipe_ok E (f i)"
  by (induction i) (use assms run_step_ok in blast)+

lemma all_taken_later:
  assumes "pipe_ok E (f 0)" and "\<forall>i. run_step E off1 off2 blake256 (f i) (f (Suc i))" and "\<forall>i. rSubmit (f i)"
    and "fair_submit f"
  shows "\<exists>j \<ge> i. prefix (rSent (f i)) (rTaken (f j))"
  using all_taken [of E "\<lambda>n. f (i + n)" off1 off2 blake256] run_stays_ok [OF assms(1,2)] assms(2,3)
    fair_submit_shift [OF assms(4)] by (metis add.right_neutral add_Suc_right le_add1)

end
