(* ===== verification/Pipeline_Properties.thy ===== *)
theory Pipeline_Properties
  imports Outcome Miner_Properties
begin

text \<open>
  The properties of a run as a whole, over every interleaving of its goroutines: what reaches the
  submit thread, what \<open>workDone\<close> is to the devices, and whether a cancelled run ends.
\<close>

section \<open>An abstract run\<close>

text \<open>
  What the run promises the pool of solutions: headers that prove work on something published
  enter one queue of capacity 10 and leave it in order.
\<close>

record spec_state =
  published :: "(bytes \<times> nat option) set"
  queued :: "bytes list"
  submittedHeaders :: "bytes list"

inductive spec_step :: "mining_env \<Rightarrow> spec_state \<Rightarrow> spec_state \<Rightarrow> bool" for E where
  spec_publish: "spec_step E a (a\<lparr>published := insert tp (published a)\<rparr>)"
| spec_find: "tp \<in> published a \<Longrightarrow> proves_work E tp b \<Longrightarrow> length (queued a) < 10 \<Longrightarrow>
    spec_step E a (a\<lparr>queued := queued a @ [b]\<rparr>)"
| spec_submit: "queued a = b # bs \<Longrightarrow>
    spec_step E a (a\<lparr>queued := bs, submittedHeaders := submittedHeaders a @ [b]\<rparr>)"

definition abs_run :: "run_state \<Rightarrow> spec_state" where
  "abs_run s = \<lparr>published = works_of s, queued = chan_buf (rWorkDone s), submittedHeaders = rTaken s\<rparr>"

lemma abs_put [simp]: "abs_run (put_device i d s) = abs_run s" "abs_run (put_status i x s) = abs_run s"
  "abs_run (s\<lparr>rMiner := m\<rparr>) = abs_run s" "abs_run (s\<lparr>rPush := p\<rparr>) = abs_run s" "abs_run (s\<lparr>rSubmit := q\<rparr>) = abs_run s"
  "abs_run (s\<lparr>rExpiry := q\<rparr>) = abs_run s" "abs_run (s\<lparr>rNodeWatch := q\<rparr>) = abs_run s" "abs_run (s\<lparr>rStats := q\<rparr>) = abs_run s"
  "abs_run (s\<lparr>rInterrupted := q\<rparr>) = abs_run s" "abs_run (s\<lparr>rFailures := n\<rparr>) = abs_run s" "abs_run (s\<lparr>rCrashed := q\<rparr>) = abs_run s"
  by (simp_all add: abs_run_def)

lemma abs_publish: "abs_run (publish j w s) = (abs_run s)\<lparr>published := insert (template w) (published (abs_run s))\<rparr>"
  by (simp add: abs_run_def publish_def works_of_def)

lemma step_refines:
  assumes "run_step E off1 off2 blake256 s s'" and "pipe_ok E s"
  shows "abs_run s' = abs_run s \<or> spec_step E (abs_run s) (abs_run s')"
  using assms(1)
proof cases
  case (send i b bs fin ch)
  have "all_prove E (works_of s) (b # bs)" using pipe_ok_nth(4) [OF assms(2) send(2)] send(3) by simp
  then obtain tp where "tp \<in> published (abs_run s)" "proves_work E tp b"
    by (auto simp: all_prove_def abs_run_def)
  moreover have "length (queued (abs_run s)) < 10"
    using go_chan.send_room [OF send(4)] send(4) assms(2) by (auto simp: abs_run_def pipe_ok_def chan_send_def split: if_splits)
  moreover have "abs_run s' = (abs_run s)\<lparr>queued := queued (abs_run s) @ [b]\<rparr>"
    using go_chan.send_queued [OF send(4)] by (simp add: send(1) abs_run_def works_of_def)
  ultimately show ?thesis using spec_find by metis
next
  case (submit f ch r m calls)
  have q: "chan_buf (rWorkDone s) = fData f # chan_buf ch" by (rule go_chan.recv_queued [OF submit(3)])
  then have "abs_run s' = (abs_run s)\<lparr>queued := chan_buf ch, submittedHeaders := submittedHeaders (abs_run s) @ [fData f]\<rparr>"
    by (simp add: submit(1) abs_run_def works_of_def)
  then show ?thesis using spec_submit [of "abs_run s"] q by (simp add: abs_run_def)
next
  case (notify now data target)
  then show ?thesis using spec_publish by (simp add: abs_publish)
next
  case (expiry t act n m s1)
  then show ?thesis using spec_publish by (auto simp: abs_publish split: expiry_action.split)
qed simp_all

section \<open>A run that finds solutions\<close>

definition pipe_miner :: miner where
  "pipe_miner = (new_miner [deliver [easy_work] small_device])\<lparr>currentWork := Some easy_work\<rparr>"

lemma easy_solo_work: "solo_work 0 (replicate 192 0) (replicate 28 255) = easy_work"
proof -
  have u: "unat (255 :: u8) = 255" by simp
  have "le_nat (replicate n 255) + 1 = 256 ^ n" for n
    by (induction n) (simp_all add: u del: unsigned_numeral)
  note le = this [of 28]
  have "(256 :: nat) ^ 28 = 2 ^ 224" by simp
  with le have "le_nat (replicate 28 255) = 2 ^ 224 - 1" by linarith
  then have "SetBytes (Reverse (replicate 28 255)) = 2 ^ 224 - 1" by (simp add: SetBytes_Reverse)
  moreover have "tail_word (replicate 192 0) TimestampWord = 0" by (simp add: zero_tail TimestampWord_def)
  ultimately show ?thesis by (simp add: solo_work_def go_copy_full easy_work_def zero_work_def)
qed

lemma hash_env_mines [simp]: "\<not> benchmark hash_env"
  by (simp add: hash_env_def)

text \<open>It is what the node's first work makes of a miner with the small device.\<close>

lemma pipe_miner: "onSoloWork 0 [] (replicate 192 0) (replicate 28 255) (new_miner [small_device]) = (pipe_miner, True)"
  by (simp add: onSoloWork_def easy_solo_work pipe_miner_def new_miner_def SetWork_room has_room_def small_device_def
      fresh_device_def make_chan_def)

lemma pipe_miner_ok: "start_ok hash_env pipe_miner"
proof -
  have w: "work_ok easy_work" "wTarget easy_work \<noteq> None" by (simp_all add: easy_work_def work_ok_def zero_work_def)
  then have "device_ok (deliver [easy_work] small_device)" by (intro deliver_ok) simp_all
  then show ?thesis using w
    by (simp add: start_ok_def pipe_miner_def new_miner_def SetWork_def chan_send_def)
qed

lemma seeded_delivered: "initNonces 0 seed (deliver [easy_work] small_device) = Inr (deliver [easy_work] seeded)"
proof -
  have "get_le32 [1, 2, 3, 4, 5, 6, 7, 8] 0 = 0x04030201" "get_le32 [1, 2, 3, 4, 5, 6, 7, 8] 4 = 0x08070605"
    by (simp_all add: get_le32_def join32_def)
  then show ?thesis
    by (simp add: initNonces_def seed_def Let_def seeded_def SetWork_def chan_send_def small_device_def
        fresh_device_def make_chan_def)
qed

definition demo_found :: "nat \<Rightarrow> run_state" where
  "demo_found k = put_status 0 (Sending (replicate k found_header) False)
     (put_device 0 (solver\<lparr>allDiffOneShares := of_nat k\<rparr>) (run_start hash_env pipe_miner))"

lemma demo_found:
  assumes "k \<le> 63"
  shows "run_reach hash_env 0 0 blake256 (run_start hash_env pipe_miner) (demo_found k)"
proof -
  let ?s = "run_start hash_env pipe_miner"
  have l: "rStatus ?s = [Unstarted]" "mDevices (rMiner ?s) = [deliver [easy_work] small_device]"
    by (simp_all add: run_start_def pipe_miner_def new_miner_def)
  define s1 where "s1 = put_status 0 Looping (put_device 0 (deliver [easy_work] seeded) ?s)"
  have "run_step hash_env 0 0 blake256 ?s s1"
    unfolding s1_def using seeded_delivered by (intro run_step.nonces [of _ _ _ seed]) (simp_all only: l, simp_all)
  moreover have "run_step hash_env 0 0 blake256 s1 (demo_found k)"
  proof -
    have "run_iteration hash_env 0 (quiet [] (report k)) (mDevices (rMiner s1) ! 0)
        = IterNext (solver\<lparr>allDiffOneShares := of_nat k\<rparr>) (replicate k found_header)"
      using solver_iteration [OF assms, of "[]"] by (simp add: s1_def l del: deliver.simps)
    moreover have "iter_sees s1 (quiet [] (report k))" by (simp add: iter_sees_def s1_def run_start_def pipe_miner_def new_miner_def)
    ultimately have "run_step hash_env 0 0 blake256 s1 (put_status 0 (Sending (replicate k found_header) False)
        (put_device 0 (solver\<lparr>allDiffOneShares := of_nat k\<rparr>) s1))"
      by (intro run_step.iterate) (simp_all add: s1_def l)
    then show ?thesis by (simp add: s1_def demo_found_def put_status_def put_device_def)
  qed
  ultimately show ?thesis by (meson run_reach.intros)
qed

lemma demo_frame: "rWorkDone (run_start E m) = make_chan 10" "rSent (run_start E m) = []" "rTaken (run_start E m) = []"
  "rSubmit (run_start E m)" "rStatus (run_start hash_env pipe_miner) = [Unstarted]"
  by (simp_all add: run_start_def pipe_miner_def new_miner_def)

text \<open>The first header on its way: queued, then taken and accepted.\<close>

definition demo_queued :: run_state where
  "demo_queued = put_status 0 (Sending [] False) ((demo_found 1)\<lparr>rWorkDone := \<lparr>chan_cap = 10, chan_buf = [found_header]\<rparr>,
     rSent := [found_header]\<rparr>)"

definition demo_taken :: run_state where
  "demo_taken = demo_queued\<lparr>rWorkDone := make_chan 10, rMiner := (rMiner (demo_found 1))\<lparr>validShares := 1\<rparr>, rTaken := [found_header]\<rparr>"

lemma demo_send: "run_step hash_env 0 0 blake256 (demo_found 1) demo_queued"
proof -
  have f: "rSent (demo_found 1) = []" "rWorkDone (demo_found 1) = make_chan 10"
    "rStatus (demo_found 1) = [Sending [found_header] False]"
    by (simp_all add: demo_found_def demo_frame)
  then have "chan_send (rWorkDone (demo_found 1)) found_header = Some \<lparr>chan_cap = 10, chan_buf = [found_header]\<rparr>"
    by (simp add: chan_send_def make_chan_def)
  from run_step.send [OF _ _ this, of 0 "[]" False hash_env 0 0 blake256] f
  show ?thesis by (simp add: demo_queued_def)
qed

lemma demo_queued: "run_reach hash_env 0 0 blake256 (run_start hash_env pipe_miner) demo_queued"
  by (rule run_reach.step [OF demo_found demo_send]) simp

lemma demo_taken_step: "run_step hash_env 0 0 blake256 demo_queued demo_taken"
proof -
  have "pipe_ok hash_env (demo_found 1)"
    using run_reach_ok [OF demo_found run_start_ok [OF pipe_miner_ok]] by simp
  from pipe_ok_nth(4) [OF this, of 0] have "all_prove hash_env (works_of (demo_found 1)) [found_header]"
    by (simp add: demo_found_def demo_frame)
  then have l: "length found_header = 192" by (auto simp: all_prove_def proves_work_def)
  define f where "f = \<lparr>fData = found_header, fAnswer = Inr True, fBlock = Inl []\<rparr>"
  have m: "mPayoutScript (rMiner (demo_found 1)) = []" "validShares (rMiner (demo_found 1)) = 0"
    by (simp_all add: demo_found_def run_start_def pipe_miner_def new_miner_def)
  have q: "rMiner demo_queued = rMiner (demo_found 1)" "rSubmit demo_queued" "rTaken demo_queued = []" "\<not> rCrashed demo_queued"
    "rWorkDone demo_queued = \<lparr>chan_cap = 10, chan_buf = [found_header]\<rparr>"
    by (simp_all add: demo_queued_def demo_found_def demo_frame) (simp_all add: run_start_def)
  have c: "chan_recv (rWorkDone demo_queued) = Some (fData f, make_chan 10)"
    by (simp add: q chan_recv_def make_chan_def f_def)
  obtain calls where s: "submit_step blake256 (SubmitFound f) (rMiner demo_queued)
      = (SubmitNext, (rMiner (demo_found 1))\<lparr>validShares := 1\<rparr>, calls)"
    using l m by (simp add: q submit_step_def f_def checkPayee_def Let_def)
  have "demo_taken = demo_queued\<lparr>rWorkDone := make_chan 10, rMiner := (rMiner (demo_found 1))\<lparr>validShares := 1\<rparr>,
      rSubmit := (SubmitNext = SubmitNext), rCrashed := rCrashed demo_queued \<or> SubmitNext = SubmitPanic,
      rTaken := rTaken demo_queued @ [fData f]\<rparr>"
    using q by (cases demo_queued) (simp add: demo_taken_def f_def)
  with run_step.submit [OF q(2) c s, of hash_env 0 0]
  show "run_step hash_env 0 0 blake256 demo_queued demo_taken" by simp
qed

lemma demo_taken: "run_reach hash_env 0 0 blake256 (run_start hash_env pipe_miner) demo_taken"
  by (rule run_reach.step [OF demo_queued demo_taken_step])

section \<open>From NewMiner to the run\<close>

lemma NewMiner_starts:
  assumes "NewMiner decode net E cfg devices addr = (NewReady m, evs)" and "benchmark M = Benchmark cfg"
    and "\<forall>d \<in> set devices. device_ok d \<and> \<not> hasWork d \<and> chan_buf (newWork d) = []"
  shows "start_ok M m"
proof (cases "Benchmark cfg")
  case True
  then have "mDevices m = devices \<and> currentWork m = None \<and> validShares m = 0 \<and> invalidShares m = 0"
    using assms(1) by (cases "decode net addr") (auto simp: NewMiner_def new_miner_def Let_def split: if_splits)
  then show ?thesis using assms(3) by (simp add: start_ok_def)
next
  case False
  obtain m0 data target where m0: "onSoloWork (meStarted E) (meSels E) data target m0 = (m, True)"
    and f: "mDevices m0 = devices" "validShares m0 = 0" "invalidShares m0 = 0"
    using assms(1) False
    by (cases "decode net addr")
      (auto simp: NewMiner_def newSoloMiner_def new_miner_def Let_def split: if_splits option.splits sum.splits prod.splits)
  define w where "w = solo_work (meStarted E) data target"
  define P where "P d \<longleftrightarrow> device_ok d \<and> \<not> hasWork d \<and> set (chan_buf (newWork d)) \<subseteq> {w}" for d
  have w: "work_ok w" "wTarget w \<noteq> None" using solo_work by (simp_all add: w_def)
  have "list_all P (fst (set_devices (meSels E) w devices))"
  proof (rule set_devices_all)
    show "list_all P devices" using assms(3) by (auto simp: P_def list_all_iff)
    show "P d'" if "P d" "SetWork sel w d = Some d'" for sel d d'
      using that device_ok_SetWork [OF _ w(1) that(2)]
      by (auto simp: P_def SetWork_def chan_send_def split: select.splits if_splits option.splits)
  qed
  then have "list_all P (mDevices m)" using onSoloWork_frame(2) [OF m0] by (simp add: w_def f)
  moreover have "currentWork m = Some w" "validShares m = 0" "invalidShares m = 0"
    by (subst onSoloWork_frame(1) [OF m0], simp add: w_def f)+
  ultimately show ?thesis using w False assms(2) by (auto simp: start_ok_def P_def list_all_iff)
qed

section \<open>Properties\<close>

text \<open>C2: Whatever the order in which the goroutines of a run take their steps, nothing panics, a
  header is neither lost, duplicated nor reordered between the devices and the submit thread, at
  most ten wait, every header that arrives is counted once, and every header sent proves work on
  a template the node published in this run; a benchmark sends none.\<close>
theorem pipeline_safe:
  assumes "start_ok E m" and "run_reach E off1 off2 blake256 (run_start E m) s"
  shows "\<not> rCrashed s \<and> length (chan_buf (rWorkDone s)) \<le> 10 \<and> rSent s = rTaken s @ chan_buf (rWorkDone s)
    \<and> validShares (rMiner s) + invalidShares (rMiner s) = of_nat (length (rTaken s))
    \<and> list_all (\<lambda>b. \<exists>w \<in> set (rWorks s). proves_work E (template w) b) (rSent s)
    \<and> (benchmark E \<longrightarrow> rSent s = [])"
proof -
  have ok: "pipe_ok E s" by (rule run_reach_ok [OF assms(2) run_start_ok [OF assms(1)]])
  then have "\<not> rCrashed s \<and> length (chan_buf (rWorkDone s)) \<le> 10 \<and> rSent s = rTaken s @ chan_buf (rWorkDone s)
    \<and> validShares (rMiner s) + invalidShares (rMiner s) = of_nat (length (rTaken s))
    \<and> list_all (\<lambda>b. \<exists>w \<in> set (rWorks s). proves_work E (template w) b) (rSent s)"
    by (auto simp: pipe_ok_def chan_ok_def works_of_def all_prove_def list_all_iff)
  with benchmark_sends_nothing [OF ok] show ?thesis by blast
qed

theorem pipeline_safe_witness:
  "\<exists>s. run_reach hash_env 0 0 id (run_start hash_env pipe_miner) s \<and> rTaken s = [found_header]
     \<and> validShares (rMiner s) = 1 \<and> proves_work hash_env (template easy_work) found_header"
proof -
  have t: "rTaken demo_taken = [found_header]" "validShares (rMiner demo_taken) = 1" "rSent demo_taken = [found_header]"
    "rWorks demo_taken = [easy_work]"
    by (simp_all add: demo_taken_def demo_queued_def demo_found_def) (simp add: run_start_def pipe_miner_def)
  with pipeline_safe [OF pipe_miner_ok demo_taken [of id]] demo_taken [of id] show ?thesis by auto
qed

text \<open>C5: A run refines a queue: seen from the works published, the headers waiting and the
  headers taken, each step of any goroutine publishes a template, puts a header that proves work
  on a published template into a queue that holds at most ten, takes the oldest one out, or
  changes nothing.\<close>
theorem run_refines_queue:
  assumes "start_ok E m" and "run_reach E off1 off2 blake256 (run_start E m) s" and "run_step E off1 off2 blake256 s s'"
  shows "abs_run s' = abs_run s \<or> spec_step E (abs_run s) (abs_run s')"
  by (rule step_refines [OF assms(3) run_reach_ok [OF assms(2) run_start_ok [OF assms(1)]]])

theorem run_refines_queue_witness:
  "run_step hash_env 0 0 id (demo_found 1) demo_queued \<and> spec_step hash_env (abs_run (demo_found 1)) (abs_run demo_queued)"
proof -
  have "abs_run demo_queued \<noteq> abs_run (demo_found 1)"
    by (simp add: abs_run_def demo_queued_def demo_found_def demo_frame make_chan_def)
  then show ?thesis
    using run_refines_queue [OF pipe_miner_ok demo_found demo_send] demo_send by auto
qed

text \<open>C6: A cancelled run can still end exactly when the submit thread is running or what the devices
  have left to send fits into \<open>workDone\<close>, together with what waits there; then from wherever it is
  the goroutines can all return.\<close>
theorem shutdown_iff:
  assumes "start_ok E m" and "run_reach E off1 off2 blake256 (run_start E m) s" and "mCancelled (rMiner s)"
  shows "can_finish E off1 off2 blake256 s \<longleftrightarrow> rSubmit s \<or> backlog s \<le> 10"
proof -
  have ok: "pipe_ok E s" by (rule run_reach_ok [OF assms(2) run_start_ok [OF assms(1)]])
  then have "rSubmit s \<or> backlog s \<le> 10 \<Longrightarrow> can_finish E off1 off2 blake256 s"
    using assms(3) by (intro winding_down_finishes) (auto simp: winding_down_def)
  moreover have "\<not> (rSubmit s \<or> backlog s \<le> 10) \<Longrightarrow> \<not> can_finish E off1 off2 blake256 s"
    using overfull_never_finishes [OF ok] by simp
  ultimately show ?thesis by blast
qed

theorem shutdown_iff_witness:
  "\<exists>s. run_reach hash_env 0 0 id (run_start hash_env pipe_miner) s \<and> rTaken s = [found_header] \<and> can_finish hash_env 0 0 id s"
proof -
  define s where "s = demo_taken\<lparr>rMiner := (rMiner demo_taken)\<lparr>mCancelled := True\<rparr>, rInterrupted := True\<rparr>"
  have r: "run_reach hash_env 0 0 id (run_start hash_env pipe_miner) s"
    unfolding s_def by (rule run_reach.step [OF demo_taken run_step.interrupt])
  have "rSubmit s" "rTaken s = [found_header]" "mCancelled (rMiner s)"
    by (simp_all add: s_def demo_taken_def demo_queued_def demo_found_def demo_frame)
  with shutdown_iff [OF pipe_miner_ok r] r show ?thesis by blast
qed

text \<open>C7: A cancelled run comes to rest: in every infinite schedule that is fair to the devices and the submit
  thread as a whole, however the node pushes work and the clock ticks meanwhile, from some point on the
  submit thread has returned, and either all devices have, or more than ten headers are left
  that nobody will take.\<close>
theorem cancelled_run_comes_to_rest:
  assumes "start_ok E m" and "run_reach E off1 off2 blake256 (run_start E m) (f 0)" and "mCancelled (rMiner (f 0))"
    and "\<forall>i. run_step E off1 off2 blake256 (f i) (f (Suc i))" and "fair_run E off1 off2 blake256 f"
  shows "\<exists>N. \<forall>i \<ge> N. \<not> rSubmit (f i) \<and> ((\<forall>x \<in> set (rStatus (f i)). x = Over) \<or> 10 < backlog (f i))"
  by (rule comes_to_rest [OF run_reach_ok [OF assms(2) run_start_ok [OF assms(1)]] assms(3-5)])

text \<open>The run of the small device, interrupted before it has its nonces.\<close>

definition demo_stop :: "nat \<Rightarrow> run_state" where
  "demo_stop i =
    (let s0 = (run_start hash_env pipe_miner)\<lparr>rMiner := pipe_miner\<lparr>mCancelled := True\<rparr>, rInterrupted := True\<rparr>;
         s1 = put_status 0 (Sending [] True) s0; s2 = put_status 0 Over s1
     in case i of 0 \<Rightarrow> s0 | Suc 0 \<Rightarrow> s1 | Suc (Suc 0) \<Rightarrow> s2 | _ \<Rightarrow> s2\<lparr>rSubmit := False\<rparr>)"

lemma demo_stop_steps: "run_step hash_env 0 0 id (demo_stop i) (demo_stop (Suc i))"
proof -
  define s0 where "s0 = (run_start hash_env pipe_miner)\<lparr>rMiner := pipe_miner\<lparr>mCancelled := True\<rparr>, rInterrupted := True\<rparr>"
  define s1 where "s1 = put_status 0 (Sending [] True) s0"
  define s2 where "s2 = put_status 0 Over s1"
  have st: "rStatus s0 = [Unstarted]" "rSubmit s2" "mCancelled (rMiner s2)" "rInterrupted s2"
    by (simp_all add: s0_def s1_def s2_def demo_frame)
  have d: "demo_stop i = (case i of 0 \<Rightarrow> s0 | Suc 0 \<Rightarrow> s1 | Suc (Suc 0) \<Rightarrow> s2 | _ \<Rightarrow> s2\<lparr>rSubmit := False\<rparr>)" for i
    unfolding demo_stop_def Let_def s2_def s1_def s0_def by (rule refl)
  have "run_step hash_env 0 0 id s0 s1"
    unfolding s1_def by (rule run_step.no_nonces [of _ _ _ None]) (simp_all add: st initNonces_def)
  moreover have "run_step hash_env 0 0 id s1 s2"
    using run_step.sent [of 0 s1 True hash_env 0 0 id] by (simp add: s2_def s1_def st)
  moreover have "run_step hash_env 0 0 id s2 (s2\<lparr>rSubmit := False\<rparr>)"
    by (rule run_step.submit_ctx) (simp_all add: st)
  moreover have "(rMiner s2)\<lparr>mCancelled := True\<rparr> = rMiner s2" using st(3) by (cases "rMiner s2") simp
  then have "run_step hash_env 0 0 id (s2\<lparr>rSubmit := False\<rparr>) (s2\<lparr>rSubmit := False\<rparr>)"
    using run_step.interrupt [of hash_env 0 0 id "s2\<lparr>rSubmit := False\<rparr>"] st(4) by (cases s2) simp
  ultimately show ?thesis unfolding d by (simp split: nat.split)
qed

text \<open>It stays fair: in its last state neither the device nor the submit thread has a step left.\<close>

lemma over_rests:
  assumes "run_step E off1 off2 blake256 s s'" and "\<not> rSubmit s" and "\<forall>x \<in> set (rStatus s). x = Over"
  shows "resting s s'"
proof -
  have o: "rStatus s ! i = Over" if "i < length (rStatus s)" for i using that assms(3) by simp
  show ?thesis
    using assms(1)
    by cases (use assms(2) o in \<open>force simp: resting_def publish_def nodeWatchThread_def split: expiry_action.split\<close>)+
qed

theorem cancelled_run_comes_to_rest_witness:
  "\<exists>N. \<forall>i. \<not> (N \<le> i \<and> rSubmit (demo_stop i))"
proof -
  have r0: "run_reach hash_env 0 0 id (run_start hash_env pipe_miner) (demo_stop 0)"
    using run_reach.step [OF run_reach.here run_step.interrupt, of hash_env 0 0 id "run_start hash_env pipe_miner"]
    by (simp add: demo_stop_def Let_def) (simp add: run_start_def)
  have c: "mCancelled (rMiner (demo_stop 0))" by (simp add: demo_stop_def Let_def)
  have last: "\<not> rSubmit (demo_stop i)" "\<forall>x \<in> set (rStatus (demo_stop i)). x = Over" if "3 \<le> i" for i
    using that by (auto simp: demo_stop_def Let_def demo_frame numeral_3_eq_3 split: nat.split)
  have "fair_run hash_env 0 0 id demo_stop"
    unfolding fair_run_def
  proof (intro allI impI)
    fix N
    assume h: "\<forall>i \<ge> N. \<exists>s'. run_step hash_env 0 0 id (demo_stop i) s' \<and> \<not> resting (demo_stop i) s'"
    from h [THEN spec, of "N + 3"]
    obtain s' where "run_step hash_env 0 0 id (demo_stop (N + 3)) s'" "\<not> resting (demo_stop (N + 3)) s'" by auto
    then show "\<exists>i \<ge> N. \<not> resting (demo_stop i) (demo_stop (Suc i))" using over_rests last [of "N + 3"] by auto
  qed
  with cancelled_run_comes_to_rest [of hash_env pipe_miner 0 0 id demo_stop, OF pipe_miner_ok r0 c] demo_stop_steps show ?thesis by blast
qed

text \<open>C8: While the submit thread runs no header is left lying: in every infinite schedule in which it takes a header
  whenever from some point on there always is one, every header the devices have sent is taken, and with
  it submitted, sooner or later, whatever else the goroutines, the node and the clock do meanwhile.\<close>
theorem sent_headers_are_taken:
  assumes "start_ok E m" and "run_reach E off1 off2 blake256 (run_start E m) (f 0)"
    and "\<forall>i. run_step E off1 off2 blake256 (f i) (f (Suc i))" and "\<forall>i. rSubmit (f i)" and "fair_submit f"
  shows "\<exists>j \<ge> i. prefix (rSent (f i)) (rTaken (f j))"
  by (rule all_taken_later [OF run_reach_ok [OF assms(2) run_start_ok [OF assms(1)]] assms(3-5)])

text \<open>The first header of the small device is taken, and then the user interrupts, again and again.\<close>

definition demo_go :: "nat \<Rightarrow> run_state" where
  "demo_go i = (case i of 0 \<Rightarrow> demo_queued | Suc 0 \<Rightarrow> demo_taken
     | _ \<Rightarrow> demo_taken\<lparr>rMiner := (rMiner demo_taken)\<lparr>mCancelled := True\<rparr>, rInterrupted := True\<rparr>)"

lemma demo_go_steps: "run_step hash_env 0 0 blake256 (demo_go i) (demo_go (Suc i))"
proof -
  define s where "s = demo_taken\<lparr>rMiner := (rMiner demo_taken)\<lparr>mCancelled := True\<rparr>, rInterrupted := True\<rparr>"
  have d: "demo_go i = (case i of 0 \<Rightarrow> demo_queued | Suc 0 \<Rightarrow> demo_taken | _ \<Rightarrow> s)" for i
    unfolding demo_go_def s_def by (rule refl)
  have "run_step hash_env 0 0 blake256 demo_taken s" unfolding s_def by (rule run_step.interrupt)
  moreover have "s\<lparr>rMiner := (rMiner s)\<lparr>mCancelled := True\<rparr>, rInterrupted := True\<rparr> = s" by (simp add: s_def)
  then have "run_step hash_env 0 0 blake256 s s" using run_step.interrupt [of hash_env 0 0 blake256 s] by simp
  ultimately show ?thesis unfolding d using demo_taken_step by (simp split: nat.split)
qed

theorem sent_headers_are_taken_witness:
  "\<exists>j. prefix [found_header] (rTaken (demo_go j))"
proof -
  have r0: "run_reach hash_env 0 0 id (run_start hash_env pipe_miner) (demo_go 0)"
    using demo_queued by (simp add: demo_go_def)
  have q: "rSubmit (demo_go i)" "chan_buf (rWorkDone (demo_go (Suc i))) = []" "rSent (demo_go 0) = [found_header]" for i
    by (simp_all add: demo_go_def demo_taken_def demo_queued_def demo_found_def demo_frame make_chan_def split: nat.split)
  have "\<not> (\<forall>i \<ge> N. rSubmit (demo_go i) \<and> chan_buf (rWorkDone (demo_go i)) \<noteq> [])" for N
    using q(2) by (meson le_SucI order_refl)
  then have "fair_submit demo_go" unfolding fair_submit_def by blast
  from sent_headers_are_taken [of hash_env pipe_miner 0 0 id demo_go 0, OF pipe_miner_ok r0 _ _ this] demo_go_steps q(1,3)
  show ?thesis by auto
qed


end
