(* ===== verification/Monvark.thy ===== *)
theory Monvark
  imports Miner Devices Node
begin

text \<open>
  The program (\<open>monvarkMain\<close> and \<open>main\<close> in src/main.go): configuration, the choice of the devices, their
  construction, the payout address, the node, the miner and its run, in the order in which the code
  has them, with the deferred stop of the node and the exit code. What only prints (the version, the
  profiles, the status page) is left out; creating the CPU profile may fail.
\<close>

section \<open>monvarkMain\<close>

text \<open>
  What each stage meets. \<open>maDoneEarly\<close> and \<open>maDone\<close>: whether the context has been cancelled when it is
  looked at after the devices are built, and when the function returns. \<open>maRun\<close>: how \<open>Run\<close>
  leaves the miner, if it returns.
\<close>

record main_env =
  maLoad :: load_env
  maProfile :: "string option"
  maSystem :: cl_system
  maUndef :: u32
  maSaveFaults :: append_faults
  maDoneEarly :: bool
  maDecode :: decoder
  maPayoutFaults :: append_faults
  maNode :: start_env
  maSync :: "sync_poll list"
  maMiner :: miner_env
  maRun :: "miner \<Rightarrow> miner option"
  maDone :: bool

datatype main_event = NodeStarted | NodeStopped "node_action list" | Mining "nodeProc option" miner

text \<open>\<open>Returns\<close> says whether an error is returned; \<open>Waiting\<close> is a stage that has not ended.\<close>

datatype outcome = Returns bool | Waiting | Panics

definition mine :: "main_env \<Rightarrow> network \<Rightarrow> config \<Rightarrow> device list \<Rightarrow> string \<Rightarrow> nodeProc option \<Rightarrow> outcome \<times> main_event list" where
  "mine E net cfg devices payoutAddr node =
    (case fst (NewMiner (maDecode E) net (maMiner E) cfg devices payoutAddr) of
       NewFailed e \<Rightarrow> (Returns True, [])
     | NewBlocked m \<Rightarrow> (Waiting, [])
     | NewReady m \<Rightarrow> (case maRun E m of None \<Rightarrow> (Waiting, [Mining node m])
         | Some m' \<Rightarrow> (Returns (run_error m'), [Mining node m])))"

text \<open>From the started node to its deferred stop.\<close>

definition mine_with_node ::
    "main_env \<Rightarrow> network \<Rightarrow> config \<Rightarrow> device list \<Rightarrow> string \<Rightarrow> nodeProc \<Rightarrow> world \<Rightarrow> outcome \<times> main_event list" where
  "mine_with_node E net cfg devices payoutAddr node w =
    (case (case WaitSynced (maSync E) of
             StillSyncing \<Rightarrow> (Waiting, [])
           | SyncFailed e \<Rightarrow> (Returns True, [])
           | Synced \<Rightarrow> mine E net cfg devices payoutAddr (Some node)) of
       (Waiting, evs) \<Rightarrow> (Waiting, NodeStarted # evs)
     | (r, evs) \<Rightarrow> (r, NodeStarted # evs @ [NodeStopped (Stop (windows w) node)]))"

text \<open>From the devices to the run.\<close>

definition start_mining :: "main_env \<Rightarrow> network \<Rightarrow> config \<Rightarrow> device list \<Rightarrow> world \<Rightarrow> outcome \<times> main_event list \<times> world" where
  "start_mining E net cfg devices w =
    (if Benchmark cfg then (case mine E net cfg devices [] None of (r, evs) \<Rightarrow> (r, evs, w))
     else (case resolvePayout (maDecode E) net (maPayoutFaults E) cfg w of
         (Inl e, w) \<Rightarrow> (Returns True, [], w)
       | (Inr payoutAddr, w) \<Rightarrow>
         (case nodeStart (maNode E) cfg payoutAddr w of
            (NotStarted e, cfg, w) \<Rightarrow> (Returns True, [], w)
          | (NodeStarting node, cfg, w) \<Rightarrow> (Waiting, [NodeStarted], w)
          | (StartFailedStopped e acts, cfg, w) \<Rightarrow> (Returns True, [NodeStarted, NodeStopped acts], w)
          | (NodeRunning node, cfg, w) \<Rightarrow>
              (case mine_with_node E net cfg devices payoutAddr node w of (r, evs) \<Rightarrow> (r, evs, w)))))"

text \<open>From the first interruptible stage.\<close>

definition run_configured :: "main_env \<Rightarrow> network \<Rightarrow> config \<Rightarrow> world \<Rightarrow> outcome \<times> main_event list \<times> world" where
  "run_configured E net cfg w =
    (case resolveDevices (maSystem E) cfg w of
       (Inl e, w) \<Rightarrow> (Returns True, [], w)
     | (Inr (asked, cfg), w) \<Rightarrow>
       (case newMinerDevs (maUndef E) cfg (maSystem E) of
          Inl e \<Rightarrow> (case e of BuildError err \<Rightarrow> Returns True | StillCalibrating \<Rightarrow> Waiting | IndexPanic \<Rightarrow> Panics, [], w)
        | Inr devices \<Rightarrow>
          if devices = [] then (Returns True, [], w)
          else (case (if asked then saveDeviceChoice (maSaveFaults E) cfg devices w else (None, w)) of
              (Some e, w) \<Rightarrow> (Returns True, [], w)
            | (None, w) \<Rightarrow>
              if maDoneEarly E then (Returns False, [], w) else start_mining E net cfg devices w)))"

text \<open>An error is dropped when the context has been cancelled: the deferred function of \<open>monvarkMain\<close>.\<close>

definition exit_code :: "bool \<Rightarrow> bool \<Rightarrow> int" where
  "exit_code interrupted err = (if err \<and> \<not> interrupted then 1 else 0)"

text \<open>The exit code, if the program ends.\<close>

definition monvarkMain :: "main_env \<Rightarrow> world \<Rightarrow> int option \<times> main_event list \<times> world" where
  "monvarkMain E w =
    (case loadConfig (maLoad E) of
       Exit code \<Rightarrow> (Some code, [], w)
     | Failed e \<Rightarrow> (Some 1, [], w)
     | Configured cfg args net \<Rightarrow>
       if CPUProfile cfg \<noteq> [] \<and> maProfile E \<noteq> None then (Some 1, [], w)
       else (case run_configured E net cfg w of
           (Waiting, evs, w) \<Rightarrow> (None, evs, w)
         | (Panics, evs, w) \<Rightarrow> (Some 2, evs, w)
         | (Returns err, evs, w) \<Rightarrow> (Some (exit_code (maDone E) err), evs, w)))"

text \<open>Before \<open>main\<close> the package is initialised: two random bytes become the offsets of the device numbers, or
  the process panics. Then the exit code is that of \<open>monvarkMain\<close>.\<close>

definition init_offsets :: "bytes option \<Rightarrow> (u8 \<times> u8) option" where
  "init_offsets rnd = (case rnd of None \<Rightarrow> None | Some buf \<Rightarrow> Some (buf ! 0, buf ! 1))"

definition main_process :: "bytes option \<Rightarrow> main_env \<Rightarrow> world \<Rightarrow> int option \<times> main_event list \<times> world" where
  "main_process rnd E w = (case init_offsets rnd of None \<Rightarrow> (Some 2, [], w) | Some offs \<Rightarrow> monvarkMain E w)"

section \<open>Its stages\<close>

lemma mine_cases:
  assumes "mine E net cfg devices addr node = (r, evs)"
  shows "r \<noteq> Panics \<and> (evs = [] \<and> (\<forall>err. r = Returns err \<longrightarrow> err)
    \<or> (\<exists>m calls. evs = [Mining node m] \<and> NewMiner (maDecode E) net (maMiner E) cfg devices addr = (NewReady m, calls)
        \<and> r = (case maRun E m of None \<Rightarrow> Waiting | Some m' \<Rightarrow> Returns (run_error m'))))"
  using assms by (cases "NewMiner (maDecode E) net (maMiner E) cfg devices addr")
    (auto simp: mine_def split: new_result.splits option.splits)

lemma mine_with_node_cases:
  assumes "mine_with_node E net cfg devices addr n w = (r, evs)"
  shows "\<exists>mid. evs = NodeStarted # mid @ (if r = Waiting then [] else [NodeStopped (Stop (windows w) n)])
    \<and> (mid = [] \<and> (\<forall>err. r = Returns err \<longrightarrow> err) \<and> r \<noteq> Panics
       \<or> WaitSynced (maSync E) = Synced \<and> mine E net cfg devices addr (Some n) = (r, mid))"
proof -
  define x where "x = (case WaitSynced (maSync E) of StillSyncing \<Rightarrow> (Waiting, [])
      | SyncFailed e \<Rightarrow> (Returns True, []) | Synced \<Rightarrow> mine E net cfg devices addr (Some n))"
  obtain r1 mid where m: "x = (r1, mid)" by (cases x)
  then have c: "mid = [] \<and> (\<forall>err. r1 = Returns err \<longrightarrow> err) \<and> r1 \<noteq> Panics
       \<or> WaitSynced (maSync E) = Synced \<and> mine E net cfg devices addr (Some n) = (r1, mid)"
    by (cases "WaitSynced (maSync E)") (auto simp: x_def)
  have "r = r1 \<and> evs = NodeStarted # mid @ (if r1 = Waiting then [] else [NodeStopped (Stop (windows w) n)])"
    using assms unfolding mine_with_node_def x_def [symmetric] m by (cases r1) auto
  with c show ?thesis by blast
qed

lemma nodeStart_cases:
  assumes "nodeStart E cfg addr w = (r, cfg', w')"
  shows "(case r of NotStarted e \<Rightarrow> True | NodeStarting n \<Rightarrow> True
      | StartFailedStopped e acts \<Rightarrow> acts = (if windows w' then [] else [Interrupt]) @ [AwaitExit 5000000000]
      | NodeRunning n \<Rightarrow> Stop (windows w') n = [AskStop, CloseClient, AwaitExit 30000000000]
          \<and> filter (prefix ''--miningaddr'') (npArgs n) = [''--miningaddr='' @ addr]
          \<and> filter (prefix ''--generate'') (npArgs n) = [])
    \<and> Benchmark cfg' = Benchmark cfg"
proof -
  obtain pr w2 where p: "node_prepare E cfg w = (pr, w2)" by (cases "node_prepare E cfg w")
  show ?thesis
  proof (cases pr)
    case (Inl e)
    then show ?thesis using assms p by (auto simp: nodeStart_def)
  next
    case (Inr bc)
    obtain bin c where bc: "bc = (bin, c)" by (cases bc)
    have b: "Benchmark c = Benchmark cfg" using node_prepare_Inr [of E cfg w bin c w2] p Inr bc by fastforce
    note start = assms [unfolded nodeStart_def p Inr bc prod.case sum.case Let_def]
    show ?thesis
    proof (cases "seStart E")
      case (Some e)
      then show ?thesis using start by auto
    next
      case None
      then show ?thesis
        using start b node_pays_one_address by (cases "fst (connect (seBegin E) (seAttempts E))") (auto simp: Stop_def)
    qed
  qed
qed

lemma resolveDevices_config:
  assumes "resolveDevices S cfg w = (Inr (asked, cfg'), w')"
  shows "config_ok cfg' = config_ok cfg" "Benchmark cfg' = Benchmark cfg" "files w' = files w"
proof -
  have f: "files w2 = files w" if "promptDevices names w = (r, w2)" for names r w2
    using that promptLine_frame by (auto simp: promptDevices_def split: prod.splits sum.splits)
  show "config_ok cfg' = config_ok cfg" "Benchmark cfg' = Benchmark cfg" "files w' = files w"
    using assms f by (auto simp: resolveDevices_def config_ok_def split: if_splits sum.splits option.splits prod.splits)
qed

lemma newMinerDevs_ready:
  assumes "config_ok cfg" and "newMinerDevs undef cfg S = Inr devices"
  shows "\<forall>d \<in> set devices. device_ok d \<and> \<not> hasWork d \<and> chan_buf (newWork d) = []"
  using newMinerDevs_built [OF assms] by (auto simp: device_tuned_def)

end
