(* ===== verification/Monvark_Properties.thy ===== *)
theory Monvark_Properties
  imports Monvark Pipeline_Properties
begin

text \<open>
  What every run of the program looks like: the events of each stage, what holds of the miner when it
  starts, and one concrete run.
\<close>

section \<open>The events of a run of the program\<close>

definition node_asked :: "bool \<Rightarrow> node_action list \<Rightarrow> bool" where
  "node_asked onWindows acts \<longleftrightarrow> acts = [AskStop, CloseClient, AwaitExit 30000000000]
     \<or> acts = (if onWindows then [] else [Interrupt]) @ [AwaitExit 5000000000]"

text \<open>The node is started first and, if the program ends, stopped last; in between the miner may run.\<close>

definition node_events :: "outcome \<Rightarrow> bool \<Rightarrow> main_event list \<Rightarrow> bool" where
  "node_events r onWindows evs \<longleftrightarrow> (\<exists>mid. (mid = [] \<or> (\<exists>n m. mid = [Mining (Some n) m]))
     \<and> (if r = Waiting then evs = NodeStarted # mid
        else (\<exists>acts. evs = NodeStarted # mid @ [NodeStopped acts] \<and> node_asked onWindows acts)))"

lemma node_events_started: "node_events r onWindows evs \<Longrightarrow> NodeStarted \<in> set evs"
  by (auto simp: node_events_def split: if_splits)

definition mined_ok :: "main_env \<Rightarrow> network \<Rightarrow> config \<Rightarrow> nodeProc option \<Rightarrow> miner \<Rightarrow> bool" where
  "mined_ok E net cfg node m \<longleftrightarrow> \<not> fatal m \<and> \<not> mCancelled m \<and> \<not> payeeChecked m
     \<and> (\<forall>M. benchmark M = Benchmark cfg \<longrightarrow> start_ok M m)
     \<and> (if Benchmark cfg then node = None
        else WaitSynced (maSync E) = Synced
          \<and> (\<exists>n script. node = Some n \<and> maDecode E net (mPayoutAddr m) = Inr script \<and> mPayoutScript m = EncodeToString script
              \<and> filter (prefix ''--miningaddr'') (npArgs n) = [''--miningaddr='' @ mPayoutAddr m]
              \<and> filter (prefix ''--generate'') (npArgs n) = []))"

definition mining_result :: "main_env \<Rightarrow> miner \<Rightarrow> outcome" where
  "mining_result E m = (case maRun E m of None \<Rightarrow> Waiting | Some m' \<Rightarrow> Returns (run_error m'))"

lemma NewMiner_fresh:
  assumes "NewMiner decode net E cfg devices addr = (NewReady m, evs)"
  shows "\<not> fatal m \<and> \<not> mCancelled m \<and> \<not> payeeChecked m
    \<and> (addr \<noteq> [] \<longrightarrow> mPayoutAddr m = addr \<and> (\<exists>script. decode net addr = Inr script \<and> mPayoutScript m = EncodeToString script))"
  using assms
  by (cases "decode net addr") (auto simp: NewMiner_def newSoloMiner_def new_miner_def onSoloWork_def Let_def
      split: if_splits option.splits sum.splits prod.splits)

lemma resolved_address:
  assumes "resolvePayout decode net af cfg w = (Inr addr, w')"
  shows "addr \<noteq> []"
  using assms
  by (auto simp: resolvePayout_def validatePayout_def split: sum.splits option.splits if_splits prod.splits)

lemma start_mining_node:
  assumes "start_mining E net cfg devices w = (r, evs, w')" and "\<not> Benchmark cfg"
    and "\<forall>d \<in> set devices. device_ok d \<and> \<not> hasWork d \<and> chan_buf (newWork d) = []"
  shows "r \<noteq> Panics \<and> (evs = [] \<or> node_events r (windows w') evs)
    \<and> (\<forall>node m. Mining node m \<in> set evs \<longrightarrow> mined_ok E net cfg node m \<and> r = mining_result E m)"
proof -
  obtain pr w1 where p: "resolvePayout (maDecode E) net (maPayoutFaults E) cfg w = (pr, w1)" by fastforce
  show ?thesis
  proof (cases pr)
    case (Inl e)
    then show ?thesis using assms(1,2) p by (auto simp: start_mining_def)
  next
    case (Inr addr)
    obtain nr cfg' w2 where n: "nodeStart (maNode E) cfg addr w1 = (nr, cfg', w2)" by (metis prod_cases3)
    note nc = nodeStart_cases [OF n]
    show ?thesis
    proof (cases nr)
      case (NodeRunning node)
      obtain r1 evs1 where w: "mine_with_node E net cfg' devices addr node w2 = (r1, evs1)" by fastforce
      with assms(1,2) p n Inr NodeRunning have e: "r1 = r" "evs1 = evs" "w' = w2" by (simp_all add: start_mining_def)
      from mine_with_node_cases [OF w [unfolded e]] obtain mid where
        evs: "evs = NodeStarted # mid @ (if r = Waiting then [] else [NodeStopped (Stop (windows w2) node)])"
        and mid: "mid = [] \<and> (\<forall>err. r = Returns err \<longrightarrow> err) \<and> r \<noteq> Panics
          \<or> WaitSynced (maSync E) = Synced \<and> mine E net cfg' devices addr (Some node) = (r, mid)" by blast
      have stop: "node_asked (windows w') (Stop (windows w2) node)"
        and args: "filter (prefix ''--miningaddr'') (npArgs node) = [''--miningaddr='' @ addr]"
          "filter (prefix ''--generate'') (npArgs node) = []"
        and b: "\<not> Benchmark cfg'"
        using nc NodeRunning assms(2) by (simp_all add: node_asked_def)
      have ok: "mined_ok E net cfg node' m \<and> r = mining_result E m \<and> node' = Some node" if "Mining node' m \<in> set mid" for node' m
      proof -
        have mi: "mine E net cfg' devices addr (Some node) = (r, mid)" and sy: "WaitSynced (maSync E) = Synced"
          using mid that by auto
        from mine_cases [OF mi] that obtain calls where nm:
          "NewMiner (maDecode E) net (maMiner E) cfg' devices addr = (NewReady m, calls)"
          and r: "r = mining_result E m" "node' = Some node" by (auto simp: mining_result_def)
        from NewMiner_starts [OF nm _ assms(3)] b NewMiner_fresh [OF nm] resolved_address p Inr args sy
        show ?thesis using assms(2) r by (fastforce simp: mined_ok_def)
      qed
      have "r \<noteq> Panics \<and> (mid = [] \<or> (\<exists>m. mid = [Mining (Some node) m]))"
        using mid mine_cases by blast
      then show ?thesis using ok stop evs by (auto simp: node_events_def split: if_splits)
    qed (use assms p n Inr nc in \<open>auto simp: start_mining_def node_events_def node_asked_def\<close>)
  qed
qed

lemma start_mining_benchmark:
  assumes "start_mining E net cfg devices w = (r, evs, w')" and "Benchmark cfg"
    and "\<forall>d \<in> set devices. device_ok d \<and> \<not> hasWork d \<and> chan_buf (newWork d) = []"
  shows "r \<noteq> Panics \<and> (evs = [] \<or> (\<exists>m. evs = [Mining None m])) \<and> w' = w
    \<and> (\<forall>node m. Mining node m \<in> set evs \<longrightarrow> mined_ok E net cfg node m \<and> r = mining_result E m)"
proof -
  have m: "mine E net cfg devices [] None = (r, evs)" and w: "w' = w"
    using assms by (auto simp: start_mining_def split: prod.splits)
  from mine_cases [OF m] show ?thesis
    using NewMiner_fresh NewMiner_starts [OF _ _ assms(3)] assms(2) w by (fastforce simp: mined_ok_def mining_result_def)
qed

lemma saveDeviceChoice_windows: "windows (snd (saveDeviceChoice af cfg devices w)) = windows w"
  by (auto simp: saveDeviceChoice_def appendSetting_def open_append_def append_body_def Let_def
      split: option.splits)

text \<open>From the configuration on.\<close>

definition run_ok :: "main_env \<Rightarrow> network \<Rightarrow> config \<Rightarrow> world \<Rightarrow> outcome \<times> main_event list \<times> world \<Rightarrow> bool" where
  "run_ok E net cfg w = (\<lambda>(r, evs, w'). r \<noteq> Panics
     \<and> (if NodeStarted \<in> set evs then node_events r (windows w') evs else evs = [] \<or> (\<exists>m. evs = [Mining None m]))
     \<and> (\<forall>node m. Mining node m \<in> set evs \<longrightarrow> mined_ok E net cfg node m \<and> r = mining_result E m)
     \<and> (files w' \<noteq> files w \<longrightarrow>
         (\<exists>c devices. newMinerDevs (maUndef E) c (maSystem E) = Inr devices \<and> devices \<noteq> [])))"

lemma mined_ok_cong: "Benchmark c = Benchmark cfg \<Longrightarrow> mined_ok E net c = mined_ok E net cfg"
  by (simp add: mined_ok_def fun_eq_iff)

lemma run_configured_ok:
  assumes "run_configured E net cfg w = res" and "config_ok cfg"
  shows "run_ok E net cfg w res"
proof -
  obtain r evs w' where res: "res = (r, evs, w')" by (metis prod_cases3)
  obtain dr w1 where d: "resolveDevices (maSystem E) cfg w = (dr, w1)" by fastforce
  show ?thesis
  proof (cases dr)
    case (Inl e)
    then have "files w1 = files w" using d promptLine_frame
      by (auto simp: resolveDevices_def promptDevices_def split: if_splits sum.splits option.splits prod.splits)
    then show ?thesis using assms(1) d Inl by (auto simp: run_configured_def run_ok_def)
  next
    case (Inr ac)
    obtain asked c where ac: "ac = (asked, c)" by (cases ac)
    note dc = resolveDevices_config [OF d [unfolded Inr ac]]
    note run = assms(1) [unfolded run_configured_def d Inr ac prod.case sum.case]
    show ?thesis
    proof (cases "newMinerDevs (maUndef E) c (maSystem E)")
      case (Inl e)
      have "e \<noteq> IndexPanic" using newMinerDevs_no_panic [of c] assms(2) dc(1) Inl by auto
      then show ?thesis using run Inl dc(3) by (auto simp: run_ok_def split: build_fault.splits)
    next
      case (Inr devices)
      define sv where "sv = (if asked then saveDeviceChoice (maSaveFaults E) c devices w1 else (None, w1))"
      obtain sr w2 where s: "sv = (sr, w2)" by (cases sv)
      note run = run [unfolded Inr sum.case sv_def [symmetric] s prod.case]
      have ready: "\<forall>d \<in> set devices. device_ok d \<and> \<not> hasWork d \<and> chan_buf (newWork d) = []"
        using newMinerDevs_ready Inr assms(2) dc(1) by blast
      show ?thesis
      proof (cases "devices = [] \<or> sr \<noteq> None \<or> maDoneEarly E")
        case True
        then show ?thesis
          using run Inr dc(3) by (auto simp: run_ok_def split: if_splits option.splits)
      next
        case False
        then have st: "start_mining E net c devices w2 = (r, evs, w')" using run res by auto
        show ?thesis
        proof (cases "Benchmark c")
          case True
          from start_mining_benchmark [OF st this ready] show ?thesis
            using Inr False mined_ok_cong [OF dc(2)] by (auto simp: run_ok_def res)
        next
          case False': False
          note sm = start_mining_node [OF st this ready]
          have "NodeStarted \<in> set evs \<longleftrightarrow> evs \<noteq> []" using sm node_events_started by fastforce
          then show ?thesis
            using sm Inr False unfolding run_ok_def res mined_ok_cong [OF dc(2)] by auto
        qed
      qed
    qed
  qed
qed

lemma monvarkMain_cases:
  assumes "monvarkMain E w = (code, evs, w')"
  shows "evs = [] \<and> w' = w \<and> ((\<nexists>cfg args net. loadConfig (maLoad E) = Configured cfg args net) \<or> maProfile E \<noteq> None)
    \<or> (\<exists>cfg args net r. loadConfig (maLoad E) = Configured cfg args net \<and> run_ok E net cfg w (r, evs, w')
        \<and> code = (case r of Returns err \<Rightarrow> Some (exit_code (maDone E) err) | _ \<Rightarrow> None))"
proof (cases "loadConfig (maLoad E)")
  case (Configured cfg args net)
  have ok: "config_ok cfg" using Configured by (rule loadConfig_Configured) (rule validate_ok)
  obtain r evs' w2 where r: "run_configured E net cfg w = (r, evs', w2)" by (metis prod_cases3)
  have "run_ok E net cfg w (r, evs', w2)" by (rule run_configured_ok [OF r ok])
  moreover from this have "r \<noteq> Panics" by (simp add: run_ok_def)
  ultimately show ?thesis
    using assms Configured r by (cases r) (auto simp: monvarkMain_def split: if_splits)
qed (use assms in \<open>simp_all add: monvarkMain_def\<close>)

text \<open>With a configuration the only panic is that of the initialisation.\<close>

lemma process_panics:
  assumes "loadConfig (maLoad E) = Configured cfg args net" and "maProfile E = None"
  shows "fst (main_process rnd E w) = Some 2 \<longleftrightarrow> rnd = None"
proof (cases rnd)
  case None
  then show ?thesis by (simp add: main_process_def init_offsets_def)
next
  case (Some buf)
  obtain code evs w' where m: "monvarkMain E w = (code, evs, w')" by (metis prod_cases3)
  from monvarkMain_cases [OF m] assms obtain r where "code = (case r of Returns err \<Rightarrow> Some (exit_code (maDone E) err) | _ \<Rightarrow> None)"
    by auto
  then have "code \<noteq> Some 2" by (cases r) (simp_all add: exit_code_def)
  then show ?thesis using Some m by (simp add: main_process_def init_offsets_def)
qed

section \<open>A run of the program\<close>

definition demo_attempt :: attempt where
  "demo_attempt = \<lparr>atNow = 0, atExited = False, atCert = None, atNew = None, atInfo = None, atCtx = False\<rparr>"

definition demo_main :: main_env where
  "demo_main = \<lparr>maLoad = demo_load ''65536,4294967040'', maProfile = None, maSystem = demo_system, maUndef = 0,
     maSaveFaults = no_faults, maDoneEarly = False,
     maDecode = (\<lambda>net a. if a = ''Vs1'' then Inr [0x76, 0xa9] else Inl ''bad checksum''),
     maPayoutFaults = no_faults, maNode = demo_start\<lparr>seAttempts := [demo_attempt]\<rparr>,
     maSync = [\<lparr>spExited = False, spInfo = Inr False, spCtx = False\<rparr>],
     maMiner = \<lparr>meCert = None, meNew = None, meNotifyWork = None, meNotifyBlocks = None, meStarted = 1700000000,
       meGetWork = Inr (EncodeToString (replicate 192 0), EncodeToString (replicate 28 255)), meSels = []\<rparr>,
     maRun = (\<lambda>m. Some (m\<lparr>fatal := True, mCancelled := True\<rparr>)), maDone = False\<rparr>"

lemma demo_load_fields:
  "\<exists>cfg. loadConfig (demo_load ''65536,4294967040'') = Configured cfg [] SimNetwork \<and> config_ok cfg
     \<and> WorkSizeInts cfg = [65536, 4294967040] \<and> DeviceIDs cfg = [] \<and> \<not> Benchmark cfg \<and> CPUProfile cfg = []
     \<and> MiningAddr cfg = ''Vs1'' \<and> fileMiningAddr cfg = ''Vs1'' \<and> Mond cfg = [] \<and> ConfigFile cfg = ''c''"
proof -
  have c: "check_all check_worksize (map of_int [65536, 4294967040]) = Inr ()"
    unfolding check_all_iff by (simp add: check_worksize_None)
  have d: "check_all check_dutycycle [defaultDutyCycle] = Inr ()"
    by (simp add: check_dutycycle_def defaultDutyCycle_def)
  have "\<exists>cfg. loadConfig (demo_load ''65536,4294967040'') = Configured cfg [] SimNetwork
     \<and> WorkSizeInts cfg = map of_int [65536, 4294967040] \<and> DeviceIDs cfg = [] \<and> \<not> Benchmark cfg \<and> CPUProfile cfg = []
     \<and> MiningAddr cfg = ''Vs1'' \<and> fileMiningAddr cfg = ''Vs1'' \<and> Mond cfg = [] \<and> ConfigFile cfg = ''c''"
    using c d parse_worksizes
    by (simp add: loadConfig_def demo_load_def Let_def zero_config_def validate_def parse_setting_def listenAddress_def)
  then obtain cfg where l: "loadConfig (demo_load ''65536,4294967040'') = Configured cfg [] SimNetwork"
    and f: "WorkSizeInts cfg = map of_int [65536, 4294967040] \<and> DeviceIDs cfg = [] \<and> \<not> Benchmark cfg \<and> CPUProfile cfg = []
     \<and> MiningAddr cfg = ''Vs1'' \<and> fileMiningAddr cfg = ''Vs1'' \<and> Mond cfg = [] \<and> ConfigFile cfg = ''c''" by blast
  have "config_ok cfg" using l by (rule loadConfig_Configured) (rule validate_ok)
  with l f show ?thesis by auto
qed

lemma demo_node_starts:
  assumes "Mond cfg = []"
  shows "\<exists>n cfg' w'. nodeStart (maNode demo_main) cfg ''Vs1'' demo_host = (NodeRunning n, cfg', w')"
proof -
  have c: "confPath (demo_start\<lparr>seAttempts := [demo_attempt]\<rparr>) = ''/h/mond.conf''" by code_simp
  have "JoinPath (Dir ''/b/monvark'') ''mond'' = ''/b/mond''" by code_simp
  then have m: "mondPath demo_host (Dir ''/b/monvark'') (Mond cfg) = Inr ''/b/mond''"
    by (simp add: assms mondPath_def demo_host_def go_stat_def)
  have "fst (connect 0 [demo_attempt]) = Connected"
    by (simp add: connect_def connectTimeout_def demo_attempt_def connect_attempt_def)
  then show ?thesis
    using m c by (auto simp: demo_main_def nodeStart_def node_prepare_def checkMondConf_def demo_start_def freeAddr_def
        randomCredential_def demo_host_def Let_def)
qed

lemma newMinerDevs_room:
  assumes "config_ok cfg" and "newMinerDevs undef cfg S = Inr devices"
  shows "list_all has_room devices"
  using newMinerDevs_built [OF assms] by (auto simp: device_tuned_def list_all_iff has_room_def)

lemma demo_mines:
  assumes "\<not> Benchmark cfg" and "list_all has_room devices"
  shows "\<exists>m calls. NewMiner (maDecode demo_main) net (maMiner demo_main) cfg devices ''Vs1'' = (NewReady m, calls)"
proof -
  have "snd (onSoloWork now [] data target m) = True" if "mDevices m = devices" for now data target m
    using that assms(2) by (simp add: onSoloWork_def Let_def set_devices_room)
  then show ?thesis
    using assms(1) by (simp add: NewMiner_def newSoloMiner_def demo_main_def Let_def DecodeString_Encode
        new_miner_def split_beta del: EncodeToString.simps DecodeString.simps)
qed

lemma nodeStart_wrote:
  assumes "nodeStart E cfg addr w = (NodeRunning n, cfg', w')"
  shows "files w' (confPath E) \<noteq> None"
proof -
  obtain pr w2 where p: "node_prepare E cfg w = (pr, w2)" by (cases "node_prepare E cfg w")
  with assms obtain bc where bc: "pr = Inr bc" "w' = w2"
    by (cases pr) (auto simp: nodeStart_def Let_def split: prod.splits option.splits connect_result.splits)
  obtain bin c where "bc = (bin, c)" by (cases bc)
  then show ?thesis using p unfolding bc by (auto simp: write_file_def elim!: node_prepare_Inr)
qed

text \<open>It starts the same miner whatever becomes of the run.\<close>

lemma demo_runs:
  "\<exists>evs w' n m. (\<forall>m'. fatal m' \<longrightarrow> monvarkMain (demo_main\<lparr>maRun := \<lambda>_. Some m'\<rparr>) demo_host = (Some 1, evs, w'))
     \<and> monvarkMain demo_main demo_host = (Some 1, evs, w')
     \<and> NodeStarted \<in> set evs \<and> Mining (Some n) m \<in> set evs \<and> files w' \<noteq> files demo_host"
proof -
  obtain cfg where l: "loadConfig (maLoad demo_main) = Configured cfg [] SimNetwork" "config_ok cfg"
    and f: "WorkSizeInts cfg = [65536, 4294967040]" "DeviceIDs cfg = []" "\<not> Benchmark cfg" "CPUProfile cfg = []"
      "MiningAddr cfg = ''Vs1''" "fileMiningAddr cfg = ''Vs1''" "Mond cfg = []" "ConfigFile cfg = ''c''"
    using demo_load_fields by (auto simp: demo_main_def)
  obtain d1 d2 where d: "newMinerDevs (maUndef demo_main) cfg (maSystem demo_main) = Inr [d1, d2]"
    using demo_build [OF f(1,2), of "maUndef demo_main"] unfolding demo_main_def by auto
  have names: "\<exists>names. listDevices (maSystem demo_main) = Inr names"
    by (simp add: listDevices_def getCLPlatforms_def getCLDevices_def demo_system_def demo_main_def
        PlatformNotFound_def DeviceNotFound_def Success_def)
  then have r: "resolveDevices (maSystem demo_main) cfg demo_host = (Inr (False, cfg), demo_host)"
    using f(2) by (auto simp: resolveDevices_def interactive_def demo_host_def)
  have "checkPerms demo_host ''c'' permsWritable = None" by (simp add: checkPerms_def go_stat_def demo_host_def)
  then have p: "resolvePayout (maDecode demo_main) SimNetwork (maPayoutFaults demo_main) cfg demo_host = (Inr ''Vs1'', demo_host)"
    using f by (simp add: resolvePayout_def payoutAddress_def validatePayout_def demo_main_def)
  obtain n cfg' w' where s: "nodeStart (maNode demo_main) cfg ''Vs1'' demo_host = (NodeRunning n, cfg', w')"
    using demo_node_starts [OF f(7)] by blast
  have b: "\<not> Benchmark cfg'" using nodeStart_cases [OF s] f(3) by simp
  obtain m calls where m: "NewMiner (maDecode demo_main) SimNetwork (maMiner demo_main) cfg' [d1, d2] ''Vs1'' = (NewReady m, calls)"
    using demo_mines [OF b newMinerDevs_room [OF l(2) d]] by blast
  have mi: "mine demo_main SimNetwork cfg' [d1, d2] ''Vs1'' (Some n) = (Returns True, [Mining (Some n) m])"
    by (simp add: mine_def m) (simp add: demo_main_def run_error_def)
  have mi': "mine (demo_main\<lparr>maRun := \<lambda>_. Some m'\<rparr>) SimNetwork cfg' [d1, d2] ''Vs1'' (Some n) = (Returns True, [Mining (Some n) m])"
    if "fatal m'" for m'
    using that by (simp add: mine_def m run_error_def)
  have e: "WaitSynced (maSync demo_main) = Synced" "\<not> maDoneEarly demo_main" "\<not> maDone demo_main"
    by (simp_all add: demo_main_def)
  then have "monvarkMain demo_main demo_host
      = (Some 1, [NodeStarted, Mining (Some n) m, NodeStopped (Stop (windows w') n)], w')"
    using mi by (simp add: monvarkMain_def l(1) f(3,4) run_configured_def r d start_mining_def p s mine_with_node_def exit_code_def)
  moreover have "monvarkMain (demo_main\<lparr>maRun := \<lambda>_. Some m'\<rparr>) demo_host
      = (Some 1, [NodeStarted, Mining (Some n) m, NodeStopped (Stop (windows w') n)], w')" if "fatal m'" for m'
    using e mi' [OF that] by (simp add: monvarkMain_def l(1) f(3,4) run_configured_def r d start_mining_def p s mine_with_node_def exit_code_def)
  moreover have "files w' \<noteq> files demo_host"
  proof -
    have "confPath (maNode demo_main) = ''/h/mond.conf''" unfolding demo_main_def by code_simp
    then have "files w' ''/h/mond.conf'' \<noteq> None" using nodeStart_wrote [OF s] by simp
    moreover have "files demo_host ''/h/mond.conf'' = None" by (simp add: demo_host_def)
    ultimately show ?thesis by metis
  qed
  ultimately show ?thesis by auto
qed

lemma demo_main_runs:
  "\<exists>evs w' n m. monvarkMain demo_main demo_host = (Some 1, evs, w') \<and> NodeStarted \<in> set evs
     \<and> Mining (Some n) m \<in> set evs \<and> files w' \<noteq> files demo_host"
  using demo_runs by blast

end
