(* ===== verification/Spec2Isabelle.thy ===== *)
theory Spec2Isabelle
  imports Device_Properties Devices Node Payout Cl Commands Monitor Miner_Properties Pipeline_Properties Monvark_Properties
begin

text \<open>
  Verification of monvark, a miner that runs its own node and mines on GPUs through OpenCL.

  \<^bold>\<open>The program.\<close> \<open>main\<close> loads the configuration, chooses and builds the devices, settles the payout
  address, starts a node and waits until it has caught up, builds the miner and runs it. The miner
  hands every work item of the node to the devices through their channels of five places; a device
  launches the kernel over and over, checks what the kernel reports with its own BLAKE3, and sends headers
  that meet the target through one channel of ten places to the submit thread. That thread submits them,
  counts the answers and, once, reads a block back to see whom its coinbase pays. Two more
  goroutines poll for work that has gone stale and watch the node.

  \<^bold>\<open>Shared theories.\<close>
  \<^item> \<open>Prelude\<close>, \<open>Bytes\<close>: machine types (\<open>u8\<close> to \<open>u64\<close> wrap around), Go's signed 64-bit integers as \<open>int\<close> with
    \<open>wrap64\<close>, errors as sums, little-endian cells of byte arrays (locale \<open>cells\<close>).
  \<^item> \<open>Channels\<close>: buffered Go channels (locale \<open>fifo\<close>); an operation that has to wait is \<open>None\<close>.
  \<^item> \<open>Go_Strings\<close>, \<open>Go_Net\<close>, \<open>Go_Path\<close>, \<open>Go_Float\<close>: what the program uses of Go's strings, strconv, net,
    path/filepath and of float64. \<open>Go_Net\<close> has the locale \<open>host_port\<close>.
  \<^item> \<open>Files\<close>: the files the program writes, their permission bits, the terminal (helpers of src/payout.go).
  \<^item> \<open>Draining\<close>: systems whose steps never add to the work left (locale \<open>draining\<close>).

  \<^bold>\<open>From the hash to a device.\<close>
  \<^item> \<open>Blake3\<close> (src/blake3/block.go, convert.go): \<open>compress\<close>, \<open>Block\<close>, \<open>FinalBlock\<close> statement by statement, against the round
    function and message permutation of BLAKE3. \<open>Blake3_Eval\<close> evaluates it on literals.
  \<^item> \<open>Work\<close> (src/work/work.go), \<open>Util\<close> (src/util/util.go: \<open>Reverse\<close>, \<open>RolloverExtraNonce\<close>, locale \<open>nonce_space\<close>).
  \<^item> \<open>Kernel\<close>, \<open>Launch\<close> (src/blake3.cl): one work item, round by round, and the items of a launch racing for the
    candidate buffer as a step relation. The kernel equals the host's hash; whatever the
    interleaving, every reported slot holds a real hit and a launch with a hit reports one.
  \<^item> \<open>Device\<close> (src/device.go, the loop of src/device_opencl.go): the device as a record, \<open>initNonces\<close>,
    \<open>updateCurrentWork\<close>, \<open>setKernelArgs\<close>, \<open>runKernel\<close>, \<open>foundCandidate\<close>, one iteration and the loop.
    \<open>Device_Inv\<close>: its invariant. \<open>Device_Run\<close>, \<open>Device_Search\<close>: whole runs. \<open>Device_Demo\<close>: concrete runs,
    with a header whose hash really ends in a zero word. \<open>Device_Properties\<close>.
  \<^item> \<open>Commands\<close> (src/cl/cl.go and its callers in src/device_opencl.go): the calls that create the objects of a
    device, the commands of a launch, that OpenCL accepts them on these objects, and that an in-order queue
    makes of them a launch from a cleared count.
  \<^item> \<open>Cl\<close> (src/cl): status names, queries, loading the library on Unix and Windows.
  \<^item> \<open>Device_Setup\<close> (src/device_opencl.go, src/calibrate.go): enumeration, \<open>NewDevice\<close>, calibration, \<open>newMinerDevs\<close>.
    \<open>Devices\<close> (src/devices.go): the question which devices to use.

  \<^bold>\<open>The rest of the program.\<close>
  \<^item> \<open>Config\<close> (src/config.go), \<open>Payout\<close> (src/payout.go), \<open>Node\<close> (src/node.go).
  \<^item> \<open>Miner\<close> (src/miner.go): each goroutine as a function of the list of its inputs; \<open>Miner_Properties\<close>.
  \<^item> \<open>Pipeline\<close> (\<open>Run\<close>): all goroutines together, as a step relation over the channels and the context, with the
    invariant \<open>pipe_ok\<close>. \<open>Shutdown\<close>: when a cancelled run can end. \<open>Liveness\<close>: that it comes to rest.
    \<open>Outcome\<close>: what ends it, and that under a fair schedule the submit thread takes every header sent.
    \<open>Pipeline_Properties\<close>: what these give for runs from \<open>run_start\<close>, and the refinement of a queue.
  \<^item> \<open>Monitor\<close> (src/monitor.go, src/version.go, the statistics): what is reported.
  \<^item> \<open>Monvark\<close> (src/main.go): \<open>monvarkMain\<close> stage by stage with its events; \<open>Monvark_Properties\<close>.

  \<^bold>\<open>Loops and bounds.\<close> A loop that waits for the outside world is recursive over the list of what it is
  given (iterations, polls, attempts, events), and a list that runs out is a loop still running, a result of
  its own (\<open>Running\<close>, \<open>StillTrying\<close>, \<open>StillSyncing\<close>, \<open>None\<close>), so nothing is claimed of it silently. Where
  the code bounds a loop the bound is proved: 1201 attempts to connect (five minutes at four a second),
  21 launches to calibrate (the work size doubles from 2 to the 10 up to 2 to the 30), 63 candidates a launch
  (the buffer has 64 words), ten headers in \<open>workDone\<close>, five works in a device's channel.

  \<^bold>\<open>Parameters.\<close> The OpenCL driver (statuses, times and the buffers read back; where a property needs more, the
  hypothesis \<open>driver_executes\<close> says that the queue executes its commands in order), the RPC client's
  answers, \<open>DecodeAddress\<close>, the hash that names a block, \<open>HashToBig\<close>, the go-flags parsers, random bytes,
  the clock, system errors, and the choice a select makes among the cases that are ready.

  \<^bold>\<open>Not modelled.\<close> Logging beyond the statistics (src/log.go), the HTTP server and the JSON encoding, CPU and
  HTTP profiling, the text of most error messages (errors are constructors), the OpenCL handles in
  the record of a device, the source of the kernel as a string, and the tests. Joining and splitting paths follows the Unix rules on
  every platform. Within a run the iteration of a device is one step: it
  communicates only at its start and, through the headers it sends one by one, at its end.
  Work that reaches the channel of a device while the device sends is seen by its next iteration.
\<close>

section \<open>Properties\<close>









end
